(* ===== verification/Prelude.thy ===== *)
theory Prelude
  imports "HOL-Library.Word"
begin

text \<open>
  Shared vocabulary of the development: Rust's machine integers as words with
  their checked and saturating operations, Rust's \<open>Result\<close>, strings as byte
  lists with their UTF-8 reading, and the generic lemmas on them that the component
  theories use. The collection \<open>rust_int\<close> holds the facts that move a statement
  on words to one on natural numbers; \<open>result_simps\<close> holds the facts that take a
  successful chain of fallible calls apart.
\<close>

unbundle bit_operations_syntax

named_theorems rust_int \<open>facts that read checked word arithmetic on natural numbers\<close>
named_theorems result_simps \<open>inversion of successful fallible computations\<close>

section \<open>Machine integers\<close>

type_synonym u8 = "8 word"
type_synonym u16 = "16 word"
type_synonym u32 = "32 word"
type_synonym u64 = "64 word"
type_synonym u128 = "128 word"
type_synonym bytes = "8 word list"

text \<open>
  \<open>checked_add\<close>, \<open>checked_sub\<close>, \<open>checked_mul\<close> and their saturating
  counterparts of Rust's standard library, at any width. Plain \<open>+\<close>, \<open>-\<close> and
  \<open>*\<close> on words wrap, as they do in a release build without overflow checks.
\<close>

definition checked_add :: "'a::len word \<Rightarrow> 'a word \<Rightarrow> 'a word option" where
  "checked_add a b = (if unat a + unat b < 2 ^ LENGTH('a) then Some (a + b) else None)"

definition checked_sub :: "'a::len word \<Rightarrow> 'a word \<Rightarrow> 'a word option" where
  "checked_sub a b = (if b \<le> a then Some (a - b) else None)"

definition checked_mul :: "'a::len word \<Rightarrow> 'a word \<Rightarrow> 'a word option" where
  "checked_mul a b = (if unat a * unat b < 2 ^ LENGTH('a) then Some (a * b) else None)"

definition saturating_add :: "'a::len word \<Rightarrow> 'a word \<Rightarrow> 'a word" where
  "saturating_add a b = (if unat a + unat b < 2 ^ LENGTH('a) then a + b else - 1)"

definition saturating_sub :: "'a::len word \<Rightarrow> 'a word \<Rightarrow> 'a word" where
  "saturating_sub a b = (if b \<le> a then a - b else 0)"

definition saturating_mul :: "'a::len word \<Rightarrow> 'a word \<Rightarrow> 'a word" where
  "saturating_mul a b = (if unat a * unat b < 2 ^ LENGTH('a) then a * b else - 1)"

lemma unat_add_exact:
  "unat (a::'a::len word) + unat b < 2 ^ LENGTH('a) \<Longrightarrow> unat (a + b) = unat a + unat b"
  by (simp add: unat_word_ariths)

lemma unat_mul_exact:
  "unat (a::'a::len word) * unat b < 2 ^ LENGTH('a) \<Longrightarrow> unat (a * b) = unat a * unat b"
  by (simp add: unat_word_ariths)

lemma unat_sub_exact:
  "(b::'a::len word) \<le> a \<Longrightarrow> unat (a - b) = unat a - unat b"
  by (simp add: unat_sub)

lemma unat_bound: "unat (a::'a::len word) < 2 ^ LENGTH('a)"
  by (rule unsigned_less)

lemma unat_max: "unat (- 1 :: 'a::len word) = 2 ^ LENGTH('a) - 1"
  by (simp add: unsigned_minus_1_eq_mask mask_eq_exp_minus_1)

lemma unat_ucast_up:
  assumes "LENGTH('a) \<le> LENGTH('b)"
  shows "unat (ucast (x::'a::len word) :: 'b::len word) = unat x"
proof -
  have "unat x < 2 ^ LENGTH('b)"
    using unat_bound [of x] assms by (metis order_less_le_trans one_le_numeral power_increasing)
  then show ?thesis by (simp add: unsigned_ucast_eq take_bit_nat_eq_self)
qed

lemma unat_word_of_nat: "n < 2 ^ LENGTH('a) \<Longrightarrow> unat (word_of_nat n :: 'a::len word) = n"
  by (simp add: unsigned_of_nat take_bit_nat_eq_self)

lemma ex_word_add:
  "unat (r::'a::len word) = m + n \<Longrightarrow> (\<exists>b::'a word. unat b = m)"
  "unat (r::'a::len word) = m + n \<Longrightarrow> (\<exists>b::'a word. unat b = n)"
proof -
  assume "unat r = m + n"
  then have "m < 2 ^ LENGTH('a)" "n < 2 ^ LENGTH('a)" using unat_bound [of r] by auto
  then show "\<exists>b::'a word. unat b = m" "\<exists>b::'a word. unat b = n"
    by (meson unat_word_of_nat)+
qed

lemma checked_add_Some [rust_int]:
  "checked_add a b = Some c \<longleftrightarrow> unat c = unat a + unat b"
proof
  assume "checked_add a b = Some c"
  then show "unat c = unat a + unat b"
    by (auto simp: checked_add_def unat_add_exact split: if_splits)
next
  assume eq: "unat c = unat a + unat b"
  then have "unat a + unat b < 2 ^ LENGTH('a)"
    using unat_bound [of c] by simp
  moreover from this have "c = a + b"
    by (simp add: word_unat_eq_iff eq unat_add_exact)
  ultimately show "checked_add a b = Some c"
    by (simp add: checked_add_def)
qed

lemma checked_add_None [rust_int]:
  "checked_add (a::'a::len word) b = None \<longleftrightarrow> 2 ^ LENGTH('a) \<le> unat a + unat b"
  by (simp add: checked_add_def)

lemma checked_sub_Some [rust_int]:
  "checked_sub a b = Some c \<longleftrightarrow> unat a = unat c + unat b"
proof
  assume "checked_sub a b = Some c"
  then show "unat a = unat c + unat b"
    by (auto simp: checked_sub_def unat_sub_exact word_le_nat_alt split: if_splits)
next
  assume eq: "unat a = unat c + unat b"
  then have "b \<le> a" by (simp add: word_le_nat_alt)
  moreover from this have "c = a - b"
    by (simp add: word_unat_eq_iff unat_sub_exact eq)
  ultimately show "checked_sub a b = Some c"
    by (simp add: checked_sub_def)
qed

lemma checked_sub_None [rust_int]:
  "checked_sub a b = None \<longleftrightarrow> unat a < unat b"
  by (simp add: checked_sub_def word_le_nat_alt linorder_not_le)

lemma checked_mul_Some [rust_int]:
  "checked_mul a b = Some c \<longleftrightarrow> unat c = unat a * unat b"
proof
  assume "checked_mul a b = Some c"
  then show "unat c = unat a * unat b"
    by (auto simp: checked_mul_def unat_mul_exact split: if_splits)
next
  assume eq: "unat c = unat a * unat b"
  then have "unat a * unat b < 2 ^ LENGTH('a)"
    using unat_bound [of c] by simp
  moreover from this have "c = a * b"
    by (simp add: word_unat_eq_iff eq unat_mul_exact)
  ultimately show "checked_mul a b = Some c"
    by (simp add: checked_mul_def)
qed

lemma checked_mul_None [rust_int]:
  "checked_mul (a::'a::len word) b = None \<longleftrightarrow> 2 ^ LENGTH('a) \<le> unat a * unat b"
  by (simp add: checked_mul_def)

lemma min_below_bound: "n < m \<Longrightarrow> min n (m - 1) = n" "m \<le> n \<Longrightarrow> min n (m - 1) = m - (1::nat)"
  by (auto simp: min_def)

lemma unat_saturating_add [rust_int]:
  "unat (saturating_add (a::'a::len word) b) = min (unat a + unat b) (2 ^ LENGTH('a) - 1)"
proof (cases "unat a + unat b < 2 ^ LENGTH('a)")
  case True
  then show ?thesis
    by (simp only: saturating_add_def unat_add_exact min_below_bound if_True)
next
  case False
  then have "2 ^ LENGTH('a) \<le> unat a + unat b" by (rule leI)
  then show ?thesis
    using False by (simp only: saturating_add_def unat_max min_below_bound if_False)
qed

lemma unat_saturating_sub [rust_int]:
  "unat (saturating_sub a b) = unat a - unat b"
  by (auto simp: saturating_sub_def unat_sub_exact word_le_nat_alt)

lemma unat_saturating_mul [rust_int]:
  "unat (saturating_mul (a::'a::len word) b) = min (unat a * unat b) (2 ^ LENGTH('a) - 1)"
proof (cases "unat a * unat b < 2 ^ LENGTH('a)")
  case True
  then show ?thesis
    by (simp only: saturating_mul_def unat_mul_exact min_below_bound if_True)
next
  case False
  then have "2 ^ LENGTH('a) \<le> unat a * unat b" by (rule leI)
  then show ?thesis
    using False by (simp only: saturating_mul_def unat_max min_below_bound if_False)
qed

lemma word_order_nat [rust_int]:
  "(a::'a::len word) \<le> b \<longleftrightarrow> unat a \<le> unat b"
  "(a::'a::len word) < b \<longleftrightarrow> unat a < unat b"
  "(a::'a::len word) = b \<longleftrightarrow> unat a = unat b"
  by (simp_all add: word_le_nat_alt word_less_nat_alt word_unat_eq_iff)

lemma unat_min [rust_int]: "unat (min a b :: 'a::len word) = min (unat a) (unat b)"
  by (simp add: min_def word_le_nat_alt)

section \<open>Results\<close>

datatype ('a, 'e) result = Ok 'a | Err 'e

fun result_bind :: "('a, 'e) result \<Rightarrow> ('a \<Rightarrow> ('b, 'e) result) \<Rightarrow> ('b, 'e) result" where
  "result_bind (Ok x) f = f x"
| "result_bind (Err e) f = Err e"

fun ok_or :: "'a option \<Rightarrow> 'e \<Rightarrow> ('a, 'e) result" where
  "ok_or (Some x) e = Ok x"
| "ok_or None e = Err e"

fun map_err :: "('e \<Rightarrow> 'f) \<Rightarrow> ('a, 'e) result \<Rightarrow> ('a, 'f) result" where
  "map_err f (Ok x) = Ok x"
| "map_err f (Err e) = Err (f e)"

fun is_ok :: "('a, 'e) result \<Rightarrow> bool" where
  "is_ok (Ok x) = True"
| "is_ok (Err e) = False"

lemma result_bind_Ok [result_simps]:
  "result_bind m f = Ok y \<longleftrightarrow> (\<exists>x. m = Ok x \<and> f x = Ok y)"
  by (cases m) auto

lemma result_bind_Err [result_simps]:
  "result_bind m f = Err e \<longleftrightarrow> m = Err e \<or> (\<exists>x. m = Ok x \<and> f x = Err e)"
  by (cases m) auto

lemma ok_or_Ok [result_simps]: "ok_or m e = Ok y \<longleftrightarrow> m = Some y"
  by (cases m) auto

lemma ok_or_Err [result_simps]: "ok_or m e = Err e' \<longleftrightarrow> m = None \<and> e' = e"
  by (cases m) auto

lemma map_err_Ok [result_simps]: "map_err f m = Ok y \<longleftrightarrow> m = Ok y"
  by (cases m) auto

lemma map_err_Err [result_simps]: "map_err f m = Err e \<longleftrightarrow> (\<exists>e'. m = Err e' \<and> e = f e')"
  by (cases m) auto

lemma is_ok_iff [result_simps]: "is_ok m \<longleftrightarrow> (\<exists>x. m = Ok x)"
  by (cases m) auto

section \<open>Strings\<close>

text \<open>
  A Rust string is its UTF-8 bytes, here the characters of an Isabelle string; its
  \<open>len()\<close> is the number of bytes. \<open>str_chars\<close> is \<open>str::chars\<close>: the Unicode
  scalar values the bytes encode. A \<open>str\<close> is always valid UTF-8; a byte sequence that
  is not (which no \<open>str\<close> holds) is read as the replacement character.
\<close>

definition byte_of :: "char \<Rightarrow> u8" where
  "byte_of c = word_of_nat (of_char c)"

definition as_bytes :: "string \<Rightarrow> bytes" where
  "as_bytes s = map byte_of s"

definition utf8_scalar :: "nat \<Rightarrow> nat \<Rightarrow> nat" where
  "utf8_scalar least n = (if n < least then 65533 else n)"

fun str_chars :: "string \<Rightarrow> nat list" where
  "str_chars [] = []"
| "str_chars (c # cs) =
     (let n = (of_char c :: nat); cont = (\<lambda>i. of_char (cs ! i) mod 64 :: nat) in
      if n < 128 then n # str_chars cs
      else if cs = [] then [65533]
      else if n < 224 \<or> length cs < 2
        then utf8_scalar 128 (n mod 32 * 64 + cont 0) # str_chars (drop 1 cs)
      else if n < 240 \<or> length cs < 3
        then utf8_scalar 2048 (n mod 16 * 4096 + cont 0 * 64 + cont 1) # str_chars (drop 2 cs)
      else utf8_scalar 65536 (n mod 8 * 262144 + cont 0 * 4096 + cont 1 * 64 + cont 2)
             # str_chars (drop 3 cs))"

text \<open>
  The \<open>{}\<close> formatting of an unsigned integer (decimal digits, no sign, no leading
  zero) and the \<open>{:x}\<close> one (lower-case hexadecimal).
\<close>

definition digit_char :: "nat \<Rightarrow> char" where
  "digit_char d = (if d < 10 then char_of (48 + d) else char_of (87 + d))"

fun digits_of :: "nat \<Rightarrow> nat \<Rightarrow> string" where
  "digits_of b n = (if b < 2 \<or> n < b then [digit_char n]
                    else digits_of b (n div b) @ [digit_char (n mod b)])"

declare digits_of.simps [simp del]

definition fmt_dec :: "nat \<Rightarrow> string" where
  "fmt_dec n = digits_of 10 n"

definition fmt_hex :: "nat \<Rightarrow> string" where
  "fmt_hex n = digits_of 16 n"

text \<open>ASCII lower-casing, what \<open>to_lowercase\<close> does to an ASCII string.\<close>

definition char_lower :: "char \<Rightarrow> char" where
  "char_lower c = (let n = (of_char c :: nat) in if 65 \<le> n \<and> n \<le> 90 then char_of (n + 32) else c)"

definition to_lowercase :: "string \<Rightarrow> string" where
  "to_lowercase s = map char_lower s"

definition is_ascii :: "char \<Rightarrow> bool" where
  "is_ascii c \<longleftrightarrow> (of_char c :: nat) < 128"

lemma str_chars_ascii: "list_all is_ascii s \<Longrightarrow> str_chars s = map of_char s"
  by (induction s) (auto simp: is_ascii_def)

lemma str_chars_non_ascii:
  "\<not> is_ascii c \<Longrightarrow> \<exists>n ns. str_chars (c # cs) = n # ns \<and> 128 \<le> n"
  by (auto simp: is_ascii_def Let_def utf8_scalar_def)

lemma inj_byte_of: "byte_of c = byte_of d \<longleftrightarrow> c = d"
proof -
  have "unat (byte_of c) = of_char c" for c
    by (simp add: byte_of_def unat_of_nat)
  then show ?thesis
    by (metis of_char_eq_iff)
qed

lemma as_bytes_inj: "as_bytes s = as_bytes t \<longleftrightarrow> s = t"
  unfolding as_bytes_def by (rule inj_map_eq_map) (simp add: inj_def inj_byte_of)

lemma length_as_bytes [simp]: "length (as_bytes s) = length s"
  by (simp add: as_bytes_def)

end
