(* ===== verification/BTree_Map.thy ===== *)
theory BTree_Map
  imports Prelude "HOL-Library.List_Lexorder" "HOL-Library.Char_ord"
begin

text \<open>
  Rust's \<open>BTreeMap\<close>: a finite map that is iterated in key order, as the list of
  its entries in strictly increasing key order. Strings are ordered byte by byte, as
  Rust orders \<open>str\<close>. The interfaces that the clients rely on are locales:
  \<open>ordered_map\<close> (lookup after insert and remove, order kept) and
  \<open>valued_map\<close> (how an insert changes the sum of a measure of the entries).
\<close>

section \<open>Operations\<close>

type_synonym ('k, 'v) btree = "('k \<times> 'v) list"

fun bt_get :: "('k, 'v) btree \<Rightarrow> 'k \<Rightarrow> 'v option" where
  "bt_get [] k = None"
| "bt_get ((k', v) # m) k = (if k' = k then Some v else bt_get m k)"

fun bt_insert :: "'k::linorder \<Rightarrow> 'v \<Rightarrow> ('k, 'v) btree \<Rightarrow> ('k, 'v) btree" where
  "bt_insert k v [] = [(k, v)]"
| "bt_insert k v ((k', v') # m) =
     (if k < k' then (k, v) # (k', v') # m
      else if k = k' then (k, v) # m
      else (k', v') # bt_insert k v m)"

fun bt_remove :: "'k \<Rightarrow> ('k, 'v) btree \<Rightarrow> ('k, 'v) btree" where
  "bt_remove k [] = []"
| "bt_remove k ((k', v) # m) = (if k' = k then m else (k', v) # bt_remove k m)"

definition bt_inv :: "('k::linorder, 'v) btree \<Rightarrow> bool" where
  "bt_inv m = sorted_wrt (<) (map fst m)"

definition bt_contains :: "('k, 'v) btree \<Rightarrow> 'k \<Rightarrow> bool" where
  "bt_contains m k = (bt_get m k \<noteq> None)"

fun bt_sum :: "('v \<Rightarrow> nat) \<Rightarrow> ('k, 'v) btree \<Rightarrow> nat" where
  "bt_sum f [] = 0"
| "bt_sum f ((k, v) # m) = f v + bt_sum f m"

section \<open>Interfaces\<close>

text \<open>What the clients rely on of an ordered map.\<close>

locale ordered_map =
  fixes emp :: "'m"
    and get :: "'m \<Rightarrow> 'k::linorder \<Rightarrow> 'v option"
    and ins :: "'k \<Rightarrow> 'v \<Rightarrow> 'm \<Rightarrow> 'm"
    and rem :: "'k \<Rightarrow> 'm \<Rightarrow> 'm"
    and entries :: "'m \<Rightarrow> ('k \<times> 'v) list"
    and inv :: "'m \<Rightarrow> bool"
  assumes inv_emp: "inv emp"
    and inv_ins: "inv m \<Longrightarrow> inv (ins k v m)"
    and inv_rem: "inv m \<Longrightarrow> inv (rem k m)"
    and get_emp: "get emp k = None"
    and get_ins: "get (ins k v m) k' = (if k' = k then Some v else get m k')"
    and get_rem: "inv m \<Longrightarrow> get (rem k m) k' = (if k' = k then None else get m k')"
    and entries_iff: "inv m \<Longrightarrow> (k, v) \<in> set (entries m) \<longleftrightarrow> get m k = Some v"
    and entries_sorted: "inv m \<Longrightarrow> sorted_wrt (<) (map fst (entries m))"
begin

lemma get_ins_same: "get (ins k v m) k = Some v"
  by (simp add: get_ins)

lemma get_ins_other: "k' \<noteq> k \<Longrightarrow> get (ins k v m) k' = get m k'"
  by (simp add: get_ins)

lemma ext_entries:
  assumes "inv m" "inv m'" "\<And>k. get m k = get m' k"
  shows "entries m = entries m'"
proof -
  have s: "set (entries m) = set (entries m')"
    using assms by (auto simp: entries_iff)
  have d: "distinct (map fst (entries m))" "distinct (map fst (entries m'))"
    using assms(1,2)
    by (auto dest!: entries_sorted simp: strict_sorted_iff)
  have k: "map fst (entries m) = map fst (entries m')"
    using entries_sorted [OF assms(1)] entries_sorted [OF assms(2)] s
    by (metis list.set_map strict_sorted_equal)
  have "inj_on fst (set (entries m) \<union> set (entries m'))"
    using d(1) s by (simp add: distinct_map)
  then show ?thesis
    using k by (rule map_inj_on [rotated])
qed

end

text \<open>
  A map whose entries carry a quantity (a balance): what an insert does to the total.
  The lemmas are the conservation laws the ledgers use.
\<close>

locale valued_map =
  fixes get :: "'m \<Rightarrow> 'k \<Rightarrow> 'v option"
    and ins :: "'k \<Rightarrow> 'v \<Rightarrow> 'm \<Rightarrow> 'm"
    and tot :: "('v \<Rightarrow> nat) \<Rightarrow> 'm \<Rightarrow> nat"
    and inv :: "'m \<Rightarrow> bool"
  assumes inv_put: "inv m \<Longrightarrow> inv (ins k v m)"
    and get_put: "get (ins k v m) k' = (if k' = k then Some v else get m k')"
    and tot_new: "get m k = None \<Longrightarrow> tot f (ins k v m) = tot f m + f v"
    and tot_upd: "get m k = Some w \<Longrightarrow> inv m \<Longrightarrow> tot f (ins k v m) + f w = tot f m + f v"
begin


lemma move_conserves:
  assumes "inv m" "get m a = Some v" "get (ins a v' m) b = Some w"
    and "f v = f v' + d" "f w' = f w + d"
  shows "tot f (ins b w' (ins a v' m)) = tot f m"
proof -
  have "tot f (ins a v' m) + f v = tot f m + f v'"
    using assms by (intro tot_upd)
  moreover have "tot f (ins b w' (ins a v' m)) + f w = tot f (ins a v' m) + f w'"
    using assms by (intro tot_upd inv_put)
  ultimately show ?thesis using assms(4,5) by linarith
qed

lemma same_value_conserves:
  assumes "inv m" "get m a = Some v" "f v' = f v"
  shows "tot f (ins a v' m) = tot f m"
  using tot_upd [of m a v f v'] assms by simp

end

section \<open>The model meets the interfaces\<close>

lemma bt_get_insert: "bt_get (bt_insert k v m) k' = (if k' = k then Some v else bt_get m k')"
  by (induction k v m rule: bt_insert.induct) auto

lemma bt_keys_insert: "set (map fst (bt_insert k v m)) = insert k (set (map fst m))"
  by (induction k v m rule: bt_insert.induct) auto

lemma bt_inv_Cons: "bt_inv ((k, v) # m) \<longleftrightarrow> (\<forall>k' \<in> set (map fst m). k < k') \<and> bt_inv m"
  by (simp add: bt_inv_def)

lemma bt_inv_insert: "bt_inv m \<Longrightarrow> bt_inv (bt_insert k v m)"
proof (induction k v m rule: bt_insert.induct)
  case (2 k v k' v' m)
  then show ?case
    by (cases "k < k'"; cases "k = k'")
      (auto simp: bt_inv_Cons bt_keys_insert simp del: set_map)
qed (simp add: bt_inv_def)

lemma bt_get_None: "bt_get m k = None \<longleftrightarrow> k \<notin> set (map fst m)"
  by (induction m k rule: bt_get.induct) auto

lemma bt_keys_remove: "set (map fst (bt_remove k m)) \<subseteq> set (map fst m)"
  by (induction k m rule: bt_remove.induct) auto

lemma bt_inv_remove: "bt_inv m \<Longrightarrow> bt_inv (bt_remove k m)"
proof (induction k m rule: bt_remove.induct)
  case (2 k k' v m)
  then show ?case
    using bt_keys_remove [of k m] by (auto simp: bt_inv_Cons simp del: set_map)
qed simp

lemma bt_get_remove:
  "bt_inv m \<Longrightarrow> bt_get (bt_remove k m) k' = (if k' = k then None else bt_get m k')"
proof (induction k m rule: bt_remove.induct)
  case (2 k k'' v m)
  then show ?case
    using bt_get_None [of m k] by (auto simp: bt_inv_Cons simp del: set_map)
qed simp

lemma bt_get_in_set: "bt_get m k = Some v \<Longrightarrow> (k, v) \<in> set m"
  by (induction m k rule: bt_get.induct) (auto split: if_splits)

lemma bt_entries: "bt_inv m \<Longrightarrow> (k, v) \<in> set m \<longleftrightarrow> bt_get m k = Some v"
proof (induction m)
  case (Cons e m)
  then show ?case
    by (cases e) (force simp: bt_inv_Cons)
qed simp

lemma bt_sum_new: "bt_get m k = None \<Longrightarrow> bt_sum f (bt_insert k v m) = bt_sum f m + f v"
  by (induction k v m rule: bt_insert.induct) (auto split: if_splits)

lemma bt_sum_upd:
  "bt_get m k = Some w \<Longrightarrow> bt_inv m \<Longrightarrow> bt_sum f (bt_insert k v m) + f w = bt_sum f m + f v"
proof (induction k v m rule: bt_insert.induct)
  case (2 k v k' v' m)
  then show ?case
    by (cases "k = k'") (auto simp: bt_inv_Cons split: if_splits dest!: bspec dest: bt_get_in_set order.asym)
qed simp

interpretation bt: ordered_map "[]" bt_get bt_insert bt_remove "\<lambda>m. m" bt_inv
  by unfold_locales
    (simp_all add: bt_get_insert bt_get_remove bt_entries bt_inv_insert bt_inv_remove,
      simp_all add: bt_inv_def)

interpretation btv: valued_map bt_get bt_insert bt_sum bt_inv
  by unfold_locales (simp_all add: bt_get_insert bt_inv_insert bt_sum_new bt_sum_upd)

lemma bt_sum_remove:
  "bt_get m k = Some w \<Longrightarrow> bt_sum f (bt_remove k m) + f w = bt_sum f m"
  by (induction k m rule: bt_remove.induct) (auto split: if_splits)

lemma bt_sum_member: "bt_get m k = Some w \<Longrightarrow> f w \<le> bt_sum f m"
  by (metis bt_sum_remove le_add2)

end
