(* ===== verification/Token.thy ===== *)
theory Token
  imports Prelude
begin

text \<open>
  The denomination of \<open>bitinfinity-token/src/lib.rs\<close>: satoshis (u64) and yoctoBIT
  (u128), with the two conversions.
\<close>

definition ONE_BIT :: u128 where
  "ONE_BIT = 10 ^ 24"

definition ONE_SATOSHI_IN_YOCTOBIT :: u128 where
  "ONE_SATOSHI_IN_YOCTOBIT = 10 ^ 16"

definition satoshis_to_yoctosyd :: "u64 \<Rightarrow> u128" where
  "satoshis_to_yoctosyd satoshis = ucast satoshis * ONE_SATOSHI_IN_YOCTOBIT"

definition yoctosyd_to_satoshis :: "u128 \<Rightarrow> u64 option" where
  "yoctosyd_to_satoshis yoctosyd =
     (let satoshis = yoctosyd div ONE_SATOSHI_IN_YOCTOBIT in
      if satoshis > ucast (- 1 :: u64) then None else Some (ucast satoshis))"

lemma unat_ONE_SATOSHI: "unat ONE_SATOSHI_IN_YOCTOBIT = 10 ^ 16"
  unfolding ONE_SATOSHI_IN_YOCTOBIT_def by simp

lemma unat_satoshis_to_yoctosyd: "unat (satoshis_to_yoctosyd s) = unat s * 10 ^ 16"
proof -
  have u: "unat (ucast s :: u128) = unat s" by (rule unat_ucast_up) simp
  have "unat s < 2 ^ 64" using unat_bound [of s] by simp
  then have "unat s * 10 ^ 16 < 2 ^ 128" by simp
  then show ?thesis
    unfolding satoshis_to_yoctosyd_def
    by (subst unat_mul_exact) (simp_all only: u unat_ONE_SATOSHI, simp)
qed

lemma yoctosyd_to_satoshis_unat:
  "yoctosyd_to_satoshis y =
     (if unat y div 10 ^ 16 < 2 ^ 64 then Some (word_of_nat (unat y div 10 ^ 16)) else None)"
proof -
  have q: "unat (y div ONE_SATOSHI_IN_YOCTOBIT) = unat y div 10 ^ 16"
    by (simp only: unat_div_distrib unat_ONE_SATOSHI)
  have m: "unat (ucast (- 1 :: u64) :: u128) = 2 ^ 64 - 1"
    by (subst unat_ucast_up) (simp_all add: unat_max)
  have "ucast (y div ONE_SATOSHI_IN_YOCTOBIT) = (word_of_nat (unat y div 10 ^ 16) :: u64)"
    by (simp only: q [symmetric] of_nat_unat)
  then show ?thesis
    unfolding yoctosyd_to_satoshis_def Let_def word_less_nat_alt q m by auto
qed

end
