(* ===== verification/Account_Manager.thy ===== *)
theory Account_Manager
  imports BTree_Map Token
begin

text \<open>
  The account store of \<open>bitinfinity-tools/src/account_manager.rs\<close>. An operation on
  \<open>&mut self\<close> returns the new store together with its \<open>Result\<close>, so that what a
  failing call leaves behind is visible. The crate is built without overflow checks:
  plain \<open>+\<close> and \<open>sum\<close> wrap.
\<close>

section \<open>Accounts\<close>

record Account =
  address :: string
  balance :: u128
  acc_nonce :: u64
  public_key :: "string option"

definition Account_new :: "string \<Rightarrow> u128 \<Rightarrow> Account" where
  "Account_new addr bal =
     \<lparr> address = addr, balance = bal, acc_nonce = 0, public_key = None \<rparr>"

definition Account_register_public_key :: "string \<Rightarrow> Account \<Rightarrow> Account" where
  "Account_register_public_key pk a = a \<lparr> public_key := Some pk \<rparr>"

definition add_balance :: "u128 \<Rightarrow> Account \<Rightarrow> Account \<times> (unit, string) result" where
  "add_balance amount a =
     (case checked_add (balance a) amount of
        None \<Rightarrow> (a, Err ''Balance overflow'')
      | Some b \<Rightarrow> (a \<lparr> balance := b \<rparr>, Ok ()))"

definition subtract_balance :: "u128 \<Rightarrow> Account \<Rightarrow> Account \<times> (unit, string) result" where
  "subtract_balance amount a =
     (if balance a < amount
      then (a, Err (''Insufficient balance: '' @ fmt_dec (unat (balance a)) @ '' < ''
                    @ fmt_dec (unat amount)))
      else (a \<lparr> balance := balance a - amount \<rparr>, Ok ()))"

definition increment_nonce :: "Account \<Rightarrow> Account" where
  "increment_nonce a = a \<lparr> acc_nonce := acc_nonce a + 1 \<rparr>"

section \<open>The manager\<close>

record AccountManager =
  am_accounts :: "(string, Account) btree"

definition AccountManager_new :: AccountManager where
  "AccountManager_new = \<lparr> am_accounts = [] \<rparr>"

definition put_account :: "string \<Rightarrow> Account \<Rightarrow> AccountManager \<Rightarrow> AccountManager" where
  "put_account addr a m = m \<lparr> am_accounts := bt_insert addr a (am_accounts m) \<rparr>"

definition get_account :: "AccountManager \<Rightarrow> string \<Rightarrow> Account option" where
  "get_account m addr = bt_get (am_accounts m) addr"

definition create_account ::
  "string \<Rightarrow> u128 \<Rightarrow> AccountManager \<Rightarrow> AccountManager \<times> (unit, string) result" where
  "create_account addr bal m =
     (if bt_contains (am_accounts m) addr
      then (m, Err (''Account '' @ addr @ '' already exists''))
      else (put_account addr (Account_new addr bal) m, Ok ()))"

fun load_from_utxos ::
  "(string, u64) btree \<Rightarrow> AccountManager \<Rightarrow> AccountManager \<times> (unit, string) result" where
  "load_from_utxos [] m = (m, Ok ())"
| "load_from_utxos ((addr, satoshis) # utxos) m =
     (case create_account addr (ucast satoshis * 10 ^ 16) m of
        (m', Err e) \<Rightarrow> (m', Err e)
      | (m', Ok _) \<Rightarrow> load_from_utxos utxos m')"

definition get_balance :: "AccountManager \<Rightarrow> string \<Rightarrow> u128 option" where
  "get_balance m addr = map_option balance (get_account m addr)"

definition transfer ::
  "string \<Rightarrow> string \<Rightarrow> u128 \<Rightarrow> AccountManager \<Rightarrow> AccountManager \<times> (unit, string) result" where
  "transfer from to amount m =
     (case get_account m from of
        None \<Rightarrow> (m, Err (''Sender account '' @ from @ '' not found''))
      | Some sender \<Rightarrow>
          if get_account m to = None
          then (m, Err (''Receiver account '' @ to @ '' not found''))
          else (case subtract_balance amount sender of
                  (_, Err e) \<Rightarrow> (m, Err e)
                | (sender', Ok _) \<Rightarrow>
                    let m1 = put_account from sender' m in
                    (case get_account m1 to of
                       None \<Rightarrow> (m1, Ok ())
                     | Some receiver \<Rightarrow>
                         (case add_balance amount receiver of
                            (_, Err e) \<Rightarrow> (m1, Err e)
                          | (receiver', Ok _) \<Rightarrow> (put_account to receiver' m1, Ok ())))))"

definition execute_transfer ::
  "string \<Rightarrow> string \<Rightarrow> u128 \<Rightarrow> AccountManager \<Rightarrow> AccountManager \<times> (unit, string) result" where
  "execute_transfer from to amount m =
     (case transfer from to amount m of
        (m', Err e) \<Rightarrow> (m', Err e)
      | (m', Ok _) \<Rightarrow>
          (case get_account m' from of
             None \<Rightarrow> (m', Ok ())
           | Some acc \<Rightarrow> (put_account from (increment_nonce acc) m', Ok ())))"

definition register_public_key ::
  "string \<Rightarrow> string \<Rightarrow> AccountManager \<Rightarrow> AccountManager \<times> (unit, string) result" where
  "register_public_key addr pk m =
     (case get_account m addr of
        None \<Rightarrow> (m, Err (''Account '' @ addr @ '' not found''))
      | Some a \<Rightarrow> (put_account addr (Account_register_public_key pk a) m, Ok ()))"

definition total_supply :: "AccountManager \<Rightarrow> u128" where
  "total_supply m = sum_list (map (\<lambda>(_, a). balance a) (am_accounts m))"

definition account_count :: "AccountManager \<Rightarrow> nat" where
  "account_count m = length (am_accounts m)"

section \<open>Conservation\<close>

text \<open>
  \<open>circulating\<close> is the exact (unbounded) sum of the balances, \<open>bal\<close> the balance of an
  address read as 0 where there is no account, and \<open>am_inv\<close> the invariant of the
  underlying map.
\<close>

definition circulating :: "AccountManager \<Rightarrow> nat" where
  "circulating m = bt_sum (\<lambda>a. unat (balance a)) (am_accounts m)"

definition bal :: "AccountManager \<Rightarrow> string \<Rightarrow> nat" where
  "bal m addr = (case get_balance m addr of None \<Rightarrow> 0 | Some b \<Rightarrow> unat b)"

definition am_inv :: "AccountManager \<Rightarrow> bool" where
  "am_inv m = bt_inv (am_accounts m)"

lemma get_put_account:
  "get_account (put_account k a m) x = (if x = k then Some a else get_account m x)"
  by (simp add: get_account_def put_account_def bt_get_insert)

lemma am_inv_put: "am_inv m \<Longrightarrow> am_inv (put_account k a m)"
  by (simp add: am_inv_def put_account_def bt_inv_insert)

interpretation am: valued_map get_account put_account
  "\<lambda>f m. bt_sum f (am_accounts m)" am_inv
proof (unfold_locales, goal_cases)
  case (1 m k v) then show ?case by (rule am_inv_put)
next
  case (2 k v m k') show ?case by (rule get_put_account)
next
  case (3 m k f v) then show ?case
    unfolding put_account_def get_account_def by (simp add: bt_sum_new)
next
  case (4 m k w f v) then show ?case
    using bt_sum_upd [of "am_accounts m" k w f v]
    by (simp add: put_account_def get_account_def am_inv_def)
qed

lemma circulating_member: "get_account m x = Some a \<Longrightarrow> unat (balance a) \<le> circulating m"
  unfolding circulating_def get_account_def by (rule bt_sum_member)

lemma subtract_balance_cases:
  "subtract_balance amt a = (a', r) \<Longrightarrow>
     (\<exists>e. r = Err e \<and> a' = a \<and> unat (balance a) < unat amt) \<or>
     (r = Ok () \<and> a' = a \<lparr> balance := balance a - amt \<rparr> \<and>
      unat (balance a) = unat (balance a - amt) + unat amt)"
  by (auto simp: subtract_balance_def word_less_nat_alt unat_sub_exact word_le_nat_alt
      split: if_splits)

lemma add_balance_cases:
  "add_balance amt a = (a', r) \<Longrightarrow>
     (\<exists>e. r = Err e \<and> a' = a \<and> 2 ^ 128 \<le> unat (balance a) + unat amt) \<or>
     (\<exists>b. r = Ok () \<and> a' = a \<lparr> balance := b \<rparr> \<and> unat b = unat (balance a) + unat amt)"
  by (auto simp: add_balance_def rust_int split: option.splits)

text \<open>The four ways a transfer can end.\<close>

lemma transfer_cases:
  assumes "transfer f t amt m = (m', r)"
  obtains (err) e where "r = Err e" "m' = m"
  | (ovf) e s w where "r = Err e" "get_account m f = Some s"
      "unat (balance s) = unat (balance s - amt) + unat amt"
      "m' = put_account f (s \<lparr> balance := balance s - amt \<rparr>) m"
      "get_account m' t = Some w" "2 ^ 128 \<le> unat (balance w) + unat amt"
  | (ok) s w b where "r = Ok ()" "get_account m f = Some s"
      "unat (balance s) = unat (balance s - amt) + unat amt"
      "get_account (put_account f (s \<lparr> balance := balance s - amt \<rparr>) m) t = Some w"
      "unat b = unat (balance w) + unat amt"
      "m' = put_account t (w \<lparr> balance := b \<rparr>) (put_account f (s \<lparr> balance := balance s - amt \<rparr>) m)"
proof (cases "get_account m f")
  case None
  then show thesis using assms err by (auto simp: transfer_def)
next
  case (Some s)
  note frm = Some
  show thesis
  proof (cases "get_account m t")
    case None
    then show thesis using assms frm err by (auto simp: transfer_def)
  next
    case (Some t0)
    obtain s' r1 where sub: "subtract_balance amt s = (s', r1)" by fastforce
    then consider e where "r1 = Err e"
      | "r1 = Ok ()" "s' = s \<lparr> balance := balance s - amt \<rparr>"
        "unat (balance s) = unat (balance s - amt) + unat amt"
      by (auto dest: subtract_balance_cases)
    then show thesis
    proof cases
      case 1
      then show thesis using assms frm Some sub err by (auto simp: transfer_def)
    next
      case 2
      let ?m1 = "put_account f s' m"
      obtain w where w: "get_account ?m1 t = Some w"
        using Some by (cases "t = f") (auto simp: get_put_account)
      obtain w' r2 where add: "add_balance amt w = (w', r2)" by fastforce
      have eq: "(m', r) = (case (w', r2) of (_, Err e) \<Rightarrow> (?m1, Err e)
                           | (receiver', Ok _) \<Rightarrow> (put_account t receiver' ?m1, Ok ()))"
        using assms frm Some sub 2(1) w add by (auto simp: transfer_def Let_def)
      show thesis
        using add_balance_cases [OF add]
      proof (elim disjE exE conjE)
        fix e assume "r2 = Err e" "2 ^ 128 \<le> unat (balance w) + unat amt"
        then show thesis using ovf [of e s w] eq 2 frm w by simp
      next
        fix b assume "r2 = Ok ()" "w' = w \<lparr> balance := b \<rparr>" "unat b = unat (balance w) + unat amt"
        then show thesis using ok [of s w b] eq 2 frm w by simp
      qed
    qed
  qed
qed

lemma transfer_atomic:
  assumes inv: "am_inv m" and fits: "circulating m < 2 ^ 128"
    and tr: "transfer f t amt m = (m', r)"
  shows "am_inv m' \<and> circulating m' = circulating m \<and> (r \<noteq> Ok () \<longrightarrow> m' = m)"
  using tr
proof (cases rule: transfer_cases)
  case err
  then show ?thesis using inv by simp
next
  case (ovf e s w)
  have i: "am_inv m'" using ovf inv by (simp add: am_inv_put)
  have "circulating m' + unat (balance s) = circulating m + unat (balance s - amt)"
    unfolding circulating_def ovf(4)
    using am.tot_upd [OF ovf(2) inv, of "\<lambda>a. unat (balance a)"
        "s \<lparr> balance := balance s - amt \<rparr>"] by simp
  then have "circulating m' + unat amt = circulating m" using ovf(3) by linarith
  with ovf(5,6) fits have False using circulating_member [OF ovf(5)] by simp
  then show ?thesis ..
next
  case (ok s w b)
  have "circulating m' = circulating m"
    unfolding circulating_def ok(6)
    by (rule am.move_conserves [OF inv ok(2,4), where d = "unat amt"]) (use ok in auto)
  then show ?thesis using ok inv by (simp add: am_inv_put)
qed

lemma transfer_balances:
  assumes "transfer f t amt m = (m', Ok u)"
  shows "bal m' x + (if x = f then unat amt else 0) = bal m x + (if x = t then unat amt else 0)"
  using assms
proof (cases rule: transfer_cases)
  case (ok s w b)
  have "bal m' x = (if x = t then unat b else if x = f then unat (balance s - amt) else bal m x)"
    unfolding ok(6) bal_def get_balance_def get_put_account by simp
  moreover have "bal m f = unat (balance s)"
    using ok(2) by (simp add: bal_def get_balance_def)
  moreover have "unat (balance w) = (if t = f then unat (balance s - amt) else bal m t)"
    using ok(4) unfolding get_put_account bal_def get_balance_def by (cases "t = f") auto
  ultimately show ?thesis
    using ok(3,5) by (cases "x = t"; cases "x = f"; cases "t = f") simp_all
qed simp_all

lemma total_supply_exact: "circulating m < 2 ^ 128 \<Longrightarrow> unat (total_supply m) = circulating m"
proof -
  have "bt_sum (\<lambda>a. unat (balance a)) l < 2 ^ 128 \<Longrightarrow>
    unat (sum_list (map (\<lambda>(_, a). balance a) l)) = bt_sum (\<lambda>a. unat (balance a)) l"
    for l :: "(string, Account) btree"
    by (induction l) (auto simp: unat_add_exact)
  then show "circulating m < 2 ^ 128 \<Longrightarrow> unat (total_supply m) = circulating m"
    by (simp add: circulating_def total_supply_def)
qed

end
