(* ===== verification/Crypto_Env.thy ===== *)
theory Crypto_Env
  imports Prelude
begin

text \<open>
  The third-party functions the program calls, as a record that the definitions take as
  an argument: the hash functions of the crates \<open>sha2\<close>, \<open>sha3\<close> and \<open>ripemd\<close>,
  Base58 of \<open>bs58\<close>, the SegWit address decoder of \<open>bech32\<close>, ECDSA public-key recovery
  and verification of \<open>secp256k1\<close>, signature verification of \<open>ed25519_dalek\<close> and the
  torsion test of \<open>curve25519_dalek\<close>. The predicates below state documented behaviour of these crates that
  single theorems rely on; \<open>toy_crypto\<close> is a concrete instance that meets them.
\<close>

type_synonym rsig = "bytes \<times> nat"

record crypto =
  sha256 :: "bytes \<Rightarrow> bytes"
  ripemd160 :: "bytes \<Rightarrow> bytes"
  bs58_encode :: "bytes \<Rightarrow> string"
  bs58_decode :: "string \<Rightarrow> bytes option"
  segwit_decode :: "string \<Rightarrow> (string \<times> u8 \<times> bytes) option"
  recovery_id_from_i32 :: "nat \<Rightarrow> (nat, string) result"
  from_compact :: "bytes \<Rightarrow> nat \<Rightarrow> (rsig, string) result"
  recover_ecdsa :: "bytes \<Rightarrow> rsig \<Rightarrow> (bytes, string) result"
  verify_ecdsa :: "bytes \<Rightarrow> rsig \<Rightarrow> bytes \<Rightarrow> bool"
  ed25519_verify :: "bytes \<Rightarrow> bytes \<Rightarrow> bytes \<Rightarrow> bool"
  torsion_free_point :: "bytes \<Rightarrow> bool"
  keccak256 :: "bytes \<Rightarrow> bytes"

text \<open>\<open>Sha256::digest\<close> gives 32 bytes and \<open>Ripemd160::digest\<close> gives 20.\<close>

definition digest_sizes :: "'e crypto_scheme \<Rightarrow> bool" where
  "digest_sizes C \<longleftrightarrow> (\<forall>b. length (sha256 C b) = 32 \<and> length (ripemd160 C b) = 20)"

text \<open>\<open>bs58::decode\<close> inverts \<open>bs58::encode\<close>.\<close>

definition bs58_inverse :: "'e crypto_scheme \<Rightarrow> bool" where
  "bs58_inverse C \<longleftrightarrow> (\<forall>b. bs58_decode C (bs58_encode C b) = Some b)"

text \<open>\<open>bs58::decode\<close> accepts strings over the Bitcoin alphabet only.\<close>

definition base58_alphabet :: string where
  "base58_alphabet = ''123456789ABCDEFGHJKLMNPQRSTUVWXYZabcdefghijkmnopqrstuvwxyz''"

definition bs58_alphabet_only :: "'e crypto_scheme \<Rightarrow> bool" where
  "bs58_alphabet_only C \<longleftrightarrow>
     (\<forall>s b. bs58_decode C s = Some b \<longrightarrow> list_all (\<lambda>c. c \<in> set base58_alphabet) s)"

text \<open>
  A concrete instance for the witnesses: digests that pad or cut the input, a Base58
  stand-in that spells each byte as two letters of the alphabet, and a recovery that
  reads the public key off the signature.
\<close>

definition fit :: "nat \<Rightarrow> bytes \<Rightarrow> bytes" where
  "fit n b = take n (b @ replicate n 0)"

definition toy_char :: "nat \<Rightarrow> char" where
  "toy_char n = ''123456789ABCDEFG'' ! n"

definition toy_enc :: "bytes \<Rightarrow> string" where
  "toy_enc b = concat (map (\<lambda>x. [toy_char (unat x div 16), toy_char (unat x mod 16)]) b)"

definition toy_val :: "char \<Rightarrow> nat option" where
  "toy_val c = (let n = (of_char c :: nat) in
     if 49 \<le> n \<and> n \<le> 57 then Some (n - 49)
     else if 65 \<le> n \<and> n \<le> 71 then Some (n - 56) else None)"

fun toy_dec :: "string \<Rightarrow> bytes option" where
  "toy_dec [] = Some []"
| "toy_dec [c] = None"
| "toy_dec (c # d # s) =
     (case (toy_val c, toy_val d, toy_dec s) of
        (Some h, Some l, Some b) \<Rightarrow> Some (word_of_nat (16 * h + l) # b)
      | _ \<Rightarrow> None)"

definition toy_crypto :: crypto where
  "toy_crypto = \<lparr> sha256 = fit 32, ripemd160 = fit 20, bs58_encode = toy_enc,
     bs58_decode = toy_dec, segwit_decode = (\<lambda>_. None),
     recovery_id_from_i32 = (\<lambda>n. if n \<le> 3 then Ok n else Err ''invalid recovery id''),
     from_compact = (\<lambda>b r. Ok (b, r)), recover_ecdsa = (\<lambda>m s. Ok (fst s)),
     verify_ecdsa = (\<lambda>m s pk. pk = 4 # fst s), ed25519_verify = (\<lambda>pk m sig. sig = pk),
     torsion_free_point = (\<lambda>pk. length pk = 32), keccak256 = fit 32 \<rparr>"

lemma length_fit [simp]: "length (fit n b) = n"
  by (simp add: fit_def)

lemma toy_digest_sizes: "digest_sizes toy_crypto"
  by (simp add: digest_sizes_def toy_crypto_def)

lemma toy_val_char: "n < 16 \<Longrightarrow> toy_val (toy_char n) = Some n"
proof -
  assume "n < 16"
  then have "n \<in> set [0..<16]" by simp
  moreover have "list_all (\<lambda>n. toy_val (toy_char n) = Some n) [0..<16]" by code_simp
  ultimately show ?thesis by (simp only: list_all_iff)
qed

lemma toy_dec_enc: "toy_dec (toy_enc b) = Some b"
proof (induction b)
  case (Cons x b)
  have "unat x < 2 ^ 8" using unat_bound [of x] by simp
  then have "unat x div 16 < 16" by simp
  then show ?case
    using Cons by (simp add: toy_enc_def toy_val_char word_of_nat_eq_iff)
qed (simp add: toy_enc_def)

lemma toy_bs58_inverse: "bs58_inverse toy_crypto"
  by (simp add: bs58_inverse_def toy_crypto_def toy_dec_enc)

lemma toy_val_alphabet: "toy_val c = Some n \<Longrightarrow> c \<in> set base58_alphabet"
proof -
  assume "toy_val c = Some n"
  then have "of_char c \<in> set ([49..<58] @ [65..<72])"
    by (auto simp: toy_val_def Let_def split: if_splits)
  moreover have "list_all (\<lambda>n. char_of n \<in> set base58_alphabet) ([49..<58] @ [65..<72])"
    by code_simp
  ultimately have "(char_of (of_char c :: nat)) \<in> set base58_alphabet"
    unfolding list_all_iff by blast
  then show ?thesis by simp
qed

lemma toy_alphabet_only: "bs58_alphabet_only toy_crypto"
proof -
  have "toy_dec s = Some b \<Longrightarrow> list_all (\<lambda>c. c \<in> set base58_alphabet) s" for s b
    by (induction s arbitrary: b rule: toy_dec.induct)
      (auto dest: toy_val_alphabet split: option.splits)
  then show ?thesis by (auto simp: bs58_alphabet_only_def toy_crypto_def)
qed

end
