(* ===== verification/Codec.thy ===== *)
theory Codec
  imports Prelude
begin

text \<open>
  Little-endian and big-endian byte encodings of unsigned integers (Rust's
  \<open>to_le_bytes\<close>, \<open>from_le_bytes\<close>, \<open>to_be_bytes\<close>), and the interface
  \<open>prefix_codec\<close> of the self-delimiting encodings (Borsh fields, Bitcoin compact
  sizes): a decoder that reads one value off the front of a buffer and leaves the rest.
\<close>

section \<open>Fixed-width integers\<close>

fun le_of_nat :: "nat \<Rightarrow> nat \<Rightarrow> bytes" where
  "le_of_nat 0 x = []"
| "le_of_nat (Suc n) x = word_of_nat x # le_of_nat n (x div 256)"

fun nat_of_le :: "bytes \<Rightarrow> nat" where
  "nat_of_le [] = 0"
| "nat_of_le (b # bs) = unat b + 256 * nat_of_le bs"

definition to_le_bytes :: "nat \<Rightarrow> 'a::len word \<Rightarrow> bytes" where
  "to_le_bytes n w = le_of_nat n (unat w)"

definition from_le_bytes :: "bytes \<Rightarrow> 'a::len word" where
  "from_le_bytes bs = word_of_nat (nat_of_le bs)"

definition to_be_bytes :: "nat \<Rightarrow> 'a::len word \<Rightarrow> bytes" where
  "to_be_bytes n w = rev (to_le_bytes n w)"

lemma length_le_of_nat [simp]: "length (le_of_nat n x) = n"
  by (induction n arbitrary: x) auto

lemma length_to_le_bytes [simp]: "length (to_le_bytes n w) = n"
  by (simp add: to_le_bytes_def)

lemma unat_byte_of_nat: "unat (word_of_nat x :: u8) = x mod 256"
  by (simp add: unsigned_of_nat take_bit_eq_mod)

lemma nat_of_le_of_nat: "x < 256 ^ n \<Longrightarrow> nat_of_le (le_of_nat n x) = x"
proof (induction n arbitrary: x)
  case (Suc n)
  then have "x div 256 < 256 ^ n" by (simp add: less_mult_imp_div_less mult.commute)
  with Suc.IH show ?case by (simp add: unat_byte_of_nat)
qed simp

lemma nat_of_le_bound: "nat_of_le bs < 256 ^ length bs"
proof (induction bs)
  case (Cons b bs)
  have "unat b < 256" using unat_bound [of b] by simp
  with Cons show ?case by simp
qed simp

lemma le_of_nat_of_le: "length bs = n \<Longrightarrow> le_of_nat n (nat_of_le bs) = bs"
proof (induction bs arbitrary: n)
  case (Cons b bs)
  have "unat b < 256" using unat_bound [of b] by simp
  then have "(unat b + 256 * nat_of_le bs) div 256 = nat_of_le bs" by simp
  moreover have "(word_of_nat (unat b + 256 * nat_of_le bs) :: u8) = b"
    by (rule word_unat_eq_iff [THEN iffD2])
      (use \<open>unat b < 256\<close> in \<open>simp only: unat_byte_of_nat mod_mult_self2 mod_less\<close>)
  ultimately show ?case
    using Cons by (cases n) (simp_all del: of_nat_add add: of_nat_add [symmetric])
qed simp

lemma from_to_le_bytes:
  "LENGTH('a) \<le> 8 * n \<Longrightarrow> from_le_bytes (to_le_bytes n (w::'a::len word)) = w"
proof -
  assume "LENGTH('a) \<le> 8 * n"
  then have "unat w < 2 ^ (8 * n)"
    by (intro order_less_le_trans [OF unat_bound power_increasing]) simp_all
  then have "nat_of_le (le_of_nat n (unat w)) = unat w"
    using power_mult [of "2::nat" 8 n] by (intro nat_of_le_of_nat) simp
  then show ?thesis by (simp add: from_le_bytes_def to_le_bytes_def)
qed

lemma to_le_bytes_inj:
  "LENGTH('a) \<le> 8 * n \<Longrightarrow> to_le_bytes n (v::'a::len word) = to_le_bytes n w \<longleftrightarrow> v = w"
  by (rule iffI, drule arg_cong [where f = "from_le_bytes :: bytes \<Rightarrow> 'a word"])
    (simp_all add: from_to_le_bytes)

section \<open>Self-delimiting encodings\<close>

locale prefix_codec =
  fixes enc :: "'a \<Rightarrow> bytes"
    and dec :: "bytes \<Rightarrow> ('a \<times> bytes) option"
    and dom_ok :: "'a \<Rightarrow> bool"
  assumes dec_enc: "dom_ok x \<Longrightarrow> dec (enc x @ rest) = Some (x, rest)"
begin

lemma enc_unique:
  assumes "dom_ok x" "dom_ok y" "enc x @ r = enc y @ s"
  shows "x = y \<and> r = s"
proof -
  have "Some (x, r) = dec (enc y @ s)"
    unfolding assms(3) [symmetric] by (rule dec_enc [OF assms(1), symmetric])
  also have "\<dots> = Some (y, s)"
    by (rule dec_enc [OF assms(2)])
  finally show ?thesis by simp
qed

lemma enc_inj: "dom_ok x \<Longrightarrow> dom_ok y \<Longrightarrow> enc x = enc y \<Longrightarrow> x = y"
  by (rule enc_unique [of x y "[]" "[]", THEN conjunct1]) simp_all

lemma dec_exact: "dom_ok x \<Longrightarrow> dec (enc x) = Some (x, [])"
  by (rule dec_enc [of x "[]", unfolded append_Nil2])

end

definition take_exact :: "nat \<Rightarrow> bytes \<Rightarrow> (bytes \<times> bytes) option" where
  "take_exact n b = (if n \<le> length b then Some (take n b, drop n b) else None)"

definition read_le :: "nat \<Rightarrow> bytes \<Rightarrow> ('a::len word \<times> bytes) option" where
  "read_le n b = map_option (\<lambda>(x, r). (from_le_bytes x, r)) (take_exact n b)"

lemma take_exact_append [simp]: "length x = n \<Longrightarrow> take_exact n (x @ r) = Some (x, r)"
  by (simp add: take_exact_def)

lemma read_le_to_le:
  "LENGTH('a) \<le> 8 * n \<Longrightarrow> read_le n (to_le_bytes n (w::'a::len word) @ r) = Some (w, r)"
  by (simp add: read_le_def from_to_le_bytes)

interpretation u8c: prefix_codec "to_le_bytes 1 :: u8 \<Rightarrow> bytes" "read_le 1" "\<lambda>_. True"
  by unfold_locales (simp add: read_le_to_le)

interpretation u16c: prefix_codec "to_le_bytes 2 :: u16 \<Rightarrow> bytes" "read_le 2" "\<lambda>_. True"
  by unfold_locales (simp add: read_le_to_le)

interpretation u32c: prefix_codec "to_le_bytes 4 :: u32 \<Rightarrow> bytes" "read_le 4" "\<lambda>_. True"
  by unfold_locales (simp add: read_le_to_le)

interpretation u64c: prefix_codec "to_le_bytes 8 :: u64 \<Rightarrow> bytes" "read_le 8" "\<lambda>_. True"
  by unfold_locales (simp add: read_le_to_le)

interpretation u128c: prefix_codec "to_le_bytes 16 :: u128 \<Rightarrow> bytes" "read_le 16" "\<lambda>_. True"
  by unfold_locales (simp add: read_le_to_le)

section \<open>Borsh\<close>

text \<open>
  The Borsh encodings of the types that the program stores as raw bytes: \<open>bool\<close>,
  \<open>Option\<close>, \<open>Vec\<close> and \<open>String\<close>. A length is four little-endian bytes. Decoding a string
  checks that its bytes are UTF-8.
\<close>

definition borsh_bool :: "bool \<Rightarrow> bytes" where
  "borsh_bool b = [if b then 1 else 0]"

fun read_bool :: "bytes \<Rightarrow> (bool \<times> bytes) option" where
  "read_bool [] = None"
| "read_bool (x # r) = (if x = 0 then Some (False, r) else if x = 1 then Some (True, r) else None)"

fun borsh_option :: "('a \<Rightarrow> bytes) \<Rightarrow> 'a option \<Rightarrow> bytes" where
  "borsh_option enc None = [0]"
| "borsh_option enc (Some x) = 1 # enc x"

fun read_option :: "(bytes \<Rightarrow> ('a \<times> bytes) option) \<Rightarrow> bytes \<Rightarrow> ('a option \<times> bytes) option" where
  "read_option dec [] = None"
| "read_option dec (x # r) =
     (if x = 0 then Some (None, r)
      else if x = 1 then map_option (\<lambda>(v, r'). (Some v, r')) (dec r)
      else None)"

definition borsh_len :: "nat \<Rightarrow> bytes" where
  "borsh_len n = to_le_bytes 4 (word_of_nat n :: u32)"

definition borsh_vec :: "('a \<Rightarrow> bytes) \<Rightarrow> 'a list \<Rightarrow> bytes" where
  "borsh_vec enc xs = borsh_len (length xs) @ concat (map enc xs)"

fun read_many ::
  "(bytes \<Rightarrow> ('a \<times> bytes) option) \<Rightarrow> nat \<Rightarrow> bytes \<Rightarrow> ('a list \<times> bytes) option" where
  "read_many dec 0 b = Some ([], b)"
| "read_many dec (Suc n) b =
     (case dec b of
        None \<Rightarrow> None
      | Some (x, b') \<Rightarrow> map_option (\<lambda>(xs, r). (x # xs, r)) (read_many dec n b'))"

definition read_vec :: "(bytes \<Rightarrow> ('a \<times> bytes) option) \<Rightarrow> bytes \<Rightarrow> ('a list \<times> bytes) option" where
  "read_vec dec b =
     (case read_le 4 b of
        None \<Rightarrow> None
      | Some (n :: u32, b') \<Rightarrow> read_many dec (unat n) b')"

definition cont_byte :: "nat \<Rightarrow> bool" where
  "cont_byte b \<longleftrightarrow> 128 \<le> b \<and> b \<le> 191"

fun utf8_valid :: "nat list \<Rightarrow> bool" where
  "utf8_valid [] = True"
| "utf8_valid (b # bs) =
     (if b < 128 then utf8_valid bs
      else if 194 \<le> b \<and> b \<le> 223 then 1 \<le> length bs \<and> cont_byte (bs ! 0) \<and> utf8_valid (drop 1 bs)
      else if 224 \<le> b \<and> b \<le> 239 then
        2 \<le> length bs \<and> cont_byte (bs ! 0) \<and> cont_byte (bs ! 1)
        \<and> (b = 224 \<longrightarrow> 160 \<le> bs ! 0) \<and> (b = 237 \<longrightarrow> bs ! 0 \<le> 159) \<and> utf8_valid (drop 2 bs)
      else if 240 \<le> b \<and> b \<le> 244 then
        3 \<le> length bs \<and> cont_byte (bs ! 0) \<and> cont_byte (bs ! 1) \<and> cont_byte (bs ! 2)
        \<and> (b = 240 \<longrightarrow> 144 \<le> bs ! 0) \<and> (b = 244 \<longrightarrow> bs ! 0 \<le> 143) \<and> utf8_valid (drop 3 bs)
      else False)"

definition str_of :: "bytes \<Rightarrow> string" where
  "str_of b = map (\<lambda>x. char_of (unat x)) b"

definition is_str :: "string \<Rightarrow> bool" where
  "is_str s = utf8_valid (map of_char s)"

definition borsh_string :: "string \<Rightarrow> bytes" where
  "borsh_string s = borsh_len (length s) @ as_bytes s"

definition read_string :: "bytes \<Rightarrow> (string \<times> bytes) option" where
  "read_string b =
     (case read_le 4 b of
        None \<Rightarrow> None
      | Some (n :: u32, b') \<Rightarrow>
          (case take_exact (unat n) b' of
             None \<Rightarrow> None
           | Some (x, r) \<Rightarrow> if is_str (str_of x) then Some (str_of x, r) else None))"

text \<open>\<open>try_from_slice\<close>: decode and require that no byte is left.\<close>

definition try_from_slice :: "(bytes \<Rightarrow> ('a \<times> bytes) option) \<Rightarrow> bytes \<Rightarrow> 'a option" where
  "try_from_slice dec b = (case dec b of Some (x, []) \<Rightarrow> Some x | _ \<Rightarrow> None)"

lemma str_of_as_bytes [simp]: "str_of (as_bytes s) = s"
proof -
  have "char_of (unat (byte_of c)) = c" for c
  proof -
    have "unat (byte_of c) = of_char c" by (simp add: byte_of_def unat_of_nat)
    then show ?thesis by simp
  qed
  then show ?thesis by (simp add: str_of_def as_bytes_def o_def map_idI)
qed

lemma read_borsh_len:
  "n < 2 ^ 32 \<Longrightarrow> read_le 4 (borsh_len n @ r) = Some (word_of_nat n :: u32, r)"
  by (simp add: borsh_len_def read_le_to_le)

lemma prefix_codec_option:
  assumes "prefix_codec enc dec P"
  shows "prefix_codec (borsh_option enc) (read_option dec) (\<lambda>x. \<forall>y. x = Some y \<longrightarrow> P y)"
proof
  fix x :: "'a option" and rest assume "\<forall>y. x = Some y \<longrightarrow> P y"
  then show "read_option dec (borsh_option enc x @ rest) = Some (x, rest)"
    using prefix_codec.dec_enc [OF assms] by (cases x) simp_all
qed

lemma read_many_concat:
  assumes "prefix_codec enc dec P"
  shows "list_all P xs \<Longrightarrow> read_many dec (length xs) (concat (map enc xs) @ r) = Some (xs, r)"
proof (induction xs)
  case (Cons x xs)
  have "dec (enc x @ (concat (map enc xs) @ r)) = Some (x, concat (map enc xs) @ r)"
    by (rule prefix_codec.dec_enc [OF assms]) (use Cons in simp)
  then show ?case using Cons by simp
qed simp

lemma prefix_codec_vec:
  assumes "prefix_codec enc dec P"
  shows "prefix_codec (borsh_vec enc) (read_vec dec) (\<lambda>xs. length xs < 2 ^ 32 \<and> list_all P xs)"
proof
  fix xs :: "'a list" and rest assume xs: "length xs < 2 ^ 32 \<and> list_all P xs"
  then have "unat (word_of_nat (length xs) :: u32) = length xs" by (simp add: unat_word_of_nat)
  then show "read_vec dec (borsh_vec enc xs @ rest) = Some (xs, rest)"
    using xs read_many_concat [OF assms]
    by (simp add: read_vec_def borsh_vec_def read_borsh_len)
qed

interpretation bool_codec: prefix_codec borsh_bool read_bool "\<lambda>_. True"
  by unfold_locales (simp add: borsh_bool_def)

interpretation string_codec: prefix_codec borsh_string read_string
  "\<lambda>s. length s < 2 ^ 32 \<and> is_str s"
proof
  fix s rest assume s: "length s < 2 ^ 32 \<and> is_str s"
  then have "unat (word_of_nat (length s) :: u32) = length s" by (simp add: unat_word_of_nat)
  then show "read_string (borsh_string s @ rest) = Some (s, rest)"
    using s by (simp add: read_string_def borsh_string_def read_borsh_len)
qed

interpretation strings_codec: prefix_codec "borsh_vec borsh_string" "read_vec read_string"
  "\<lambda>xs. length xs < 2 ^ 32 \<and> list_all (\<lambda>s. length s < 2 ^ 32 \<and> is_str s) xs"
  by (rule prefix_codec_vec) (rule string_codec.prefix_codec_axioms)

lemma try_from_slice_exact:
  assumes "prefix_codec enc dec P" "P x"
  shows "try_from_slice dec (enc x) = Some x"
  using prefix_codec.dec_exact [OF assms] by (simp add: try_from_slice_def)

end
