(* ===== verification/Tools_Transaction.thy ===== *)
theory Tools_Transaction
  imports Account_Manager Crypto_Env Codec
begin

text \<open>
  Signature recovery (\<open>bitinfinity-tools/src/signature_recovery.rs\<close>) and transaction
  processing (\<open>bitinfinity-tools/src/transaction.rs\<close>) over the account store. Hashing,
  Base58 and ECDSA recovery are fields of the \<open>crypto\<close> argument; the JSON printer of
  a transaction (\<open>serde_json\<close>) is the argument \<open>to_json\<close>. A secp256k1 public key is
  its 64 bytes x, y, as \<open>recover_ecdsa\<close> returns it.
\<close>

section \<open>Signature recovery\<close>

record RecoveredSignature =
  rs_public_key :: bytes
  bitcoin_address :: string

text \<open>\<open>PublicKey::serialize\<close>: the compressed form, 02 or 03 and the x coordinate.\<close>

definition compress_pubkey :: "bytes \<Rightarrow> bytes" where
  "compress_pubkey pk = (if pk ! 63 AND 1 = 0 then 2 else 3) # take 32 pk"

definition derive_bitcoin_address :: "'e crypto_scheme \<Rightarrow> bytes \<Rightarrow> (string, string) result" where
  "derive_bitcoin_address C pk =
     (let compressed = compress_pubkey pk;
          pubkey_hash = ripemd160 C (sha256 C compressed);
          versioned = 0 # pubkey_hash;
          hash2 = sha256 C (sha256 C versioned)
      in Ok (bs58_encode C (versioned @ take 4 hash2)))"

definition recover_signature ::
  "'e crypto_scheme \<Rightarrow> bytes \<Rightarrow> bytes \<Rightarrow> (RecoveredSignature, string) result" where
  "recover_signature C message_hash signature =
     (let recovery_byte = signature ! 64; signature_bytes = take 64 signature in
      result_bind (map_err (\<lambda>_. ''Invalid recovery byte'') (recovery_id_from_i32 C (unat recovery_byte)))
        (\<lambda>recovery_id.
      result_bind (map_err (\<lambda>e. ''Failed to parse signature: '' @ e)
                     (from_compact C signature_bytes recovery_id))
        (\<lambda>recoverable_sig.
      result_bind (map_err (\<lambda>e. ''Failed to recover public key: '' @ e)
                     (recover_ecdsa C message_hash recoverable_sig))
        (\<lambda>pk.
      result_bind (map_err (\<lambda>e. ''Failed to derive address: '' @ e) (derive_bitcoin_address C pk))
        (\<lambda>addr. Ok \<lparr> rs_public_key = pk, bitcoin_address = addr \<rparr>)))))"

definition verify_address_match :: "RecoveredSignature \<Rightarrow> string \<Rightarrow> bool" where
  "verify_address_match recovered claimed_sender = (bitcoin_address recovered = claimed_sender)"

record SignatureValidation =
  is_valid :: bool
  signer_address :: "string option"
  sv_error :: "string option"

definition validate_transaction_signature ::
  "'e crypto_scheme \<Rightarrow> bytes \<Rightarrow> bytes \<Rightarrow> string \<Rightarrow> SignatureValidation" where
  "validate_transaction_signature C message_hash signature claimed_sender =
     (case recover_signature C message_hash signature of
        Ok recovered \<Rightarrow>
          (let addr = bitcoin_address recovered in
           if verify_address_match recovered claimed_sender
           then \<lparr> is_valid = True, signer_address = Some addr, sv_error = None \<rparr>
           else \<lparr> is_valid = False, signer_address = Some addr,
                  sv_error = Some (''Signature valid but address mismatch: recovered '' @ addr
                                   @ '', claimed '' @ claimed_sender) \<rparr>)
      | Err e \<Rightarrow> \<lparr> is_valid = False, signer_address = None, sv_error = Some e \<rparr>)"

section \<open>Transactions\<close>

record Transaction =
  tx_from :: string
  tx_to :: string
  tx_amount :: u128
  tx_nonce :: u64
  tx_gas_price :: u64
  tx_gas_limit :: u64
  tx_signature :: bytes

definition tx_hash_bytes :: "'e crypto_scheme \<Rightarrow> Transaction \<Rightarrow> bytes" where
  "tx_hash_bytes C tx =
     take 32 (sha256 C (as_bytes (tx_from tx) @ as_bytes (tx_to tx)
                        @ to_le_bytes 16 (tx_amount tx) @ to_le_bytes 8 (tx_nonce tx)))"

definition validate_signature :: "'e crypto_scheme \<Rightarrow> Transaction \<Rightarrow> SignatureValidation" where
  "validate_signature C tx =
     (if length (tx_signature tx) \<noteq> 65
      then \<lparr> is_valid = False, signer_address = None,
             sv_error = Some (''Invalid signature length: '' @ fmt_dec (length (tx_signature tx))) \<rparr>
      else validate_transaction_signature C (tx_hash_bytes C tx) (tx_signature tx) (tx_from tx))"

datatype TransactionStatus = Success | Failed

record TransactionReceipt =
  transaction_hash :: string
  status :: TransactionStatus
  tr_error :: "string option"
  gas_used :: u64

definition receipt_hash ::
  "'e crypto_scheme \<Rightarrow> (Transaction \<Rightarrow> string) \<Rightarrow> Transaction \<Rightarrow> string" where
  "receipt_hash C to_json tx =
     ''0x'' @ fmt_hex (unat (from_le_bytes (take 8 (sha256 C (as_bytes (to_json tx)))) :: u64))"

definition execute_transaction ::
  "'e crypto_scheme \<Rightarrow> (Transaction \<Rightarrow> string) \<Rightarrow> Transaction \<Rightarrow> AccountManager
     \<Rightarrow> AccountManager \<times> TransactionReceipt" where
  "execute_transaction C to_json tx accounts =
     (let h = receipt_hash C to_json tx; sig_validation = validate_signature C tx in
      if \<not> is_valid sig_validation
      then (accounts, \<lparr> transaction_hash = h, status = Failed,
                        tr_error = sv_error sig_validation, gas_used = 0 \<rparr>)
      else if get_account accounts (tx_from tx) = None
      then (accounts, \<lparr> transaction_hash = h, status = Failed,
                        tr_error = Some (''Account '' @ tx_from tx @ '' not found''), gas_used = 0 \<rparr>)
      else (case execute_transfer (tx_from tx) (tx_to tx) (tx_amount tx) accounts of
              (accounts', Ok _) \<Rightarrow>
                (accounts', \<lparr> transaction_hash = h, status = Success, tr_error = None,
                              gas_used = 21000 \<rparr>)
            | (accounts', Err e) \<Rightarrow>
                (accounts', \<lparr> transaction_hash = h, status = Failed, tr_error = Some e,
                              gas_used = 21000 \<rparr>)))"

fun execute_block ::
  "'e crypto_scheme \<Rightarrow> (Transaction \<Rightarrow> string) \<Rightarrow> Transaction list \<Rightarrow> AccountManager
     \<Rightarrow> AccountManager \<times> TransactionReceipt list" where
  "execute_block C to_json [] accounts = (accounts, [])"
| "execute_block C to_json (tx # txs) accounts =
     (let (accounts1, r) = execute_transaction C to_json tx accounts;
          (accounts2, rs) = execute_block C to_json txs accounts1
      in (accounts2, r # rs))"

section \<open>What a block does to the accounts\<close>

lemma execute_transfer_atomic:
  assumes "am_inv m" "circulating m < 2 ^ 128" "execute_transfer f t amt m = (m', r)"
  shows "am_inv m' \<and> circulating m' = circulating m \<and> (r \<noteq> Ok () \<longrightarrow> m' = m)"
proof -
  obtain m1 r1 where tr: "transfer f t amt m = (m1, r1)" by fastforce
  note a = transfer_atomic [OF assms(1,2) tr]
  show ?thesis
  proof (cases r1)
    case (Err e)
    then show ?thesis using a assms(3) tr by (auto simp: execute_transfer_def)
  next
    case (Ok u)
    show ?thesis
    proof (cases "get_account m1 f")
      case None
      then show ?thesis using a assms(3) tr Ok by (auto simp: execute_transfer_def)
    next
      case (Some acc)
      then have "m' = put_account f (increment_nonce acc) m1" "r = Ok ()"
        using assms(3) tr Ok by (auto simp: execute_transfer_def)
      moreover have "circulating (put_account f (increment_nonce acc) m1) = circulating m1"
        unfolding circulating_def
        by (rule am.same_value_conserves) (use a Some in \<open>auto simp: increment_nonce_def\<close>)
      ultimately show ?thesis using a by (simp add: am_inv_put)
    qed
  qed
qed

lemma execute_transaction_atomic:
  assumes "am_inv m" "circulating m < 2 ^ 128" "execute_transaction C j tx m = (m', r)"
  shows "am_inv m' \<and> circulating m' = circulating m \<and> (status r = Failed \<longrightarrow> m' = m)"
proof -
  obtain m1 r1 where ex: "execute_transfer (tx_from tx) (tx_to tx) (tx_amount tx) m = (m1, r1)"
    by fastforce
  show ?thesis
    using execute_transfer_atomic [OF assms(1,2) ex] assms(1,3) ex
    by (cases r1) (auto simp: execute_transaction_def Let_def split: if_splits)
qed

lemma execute_block_total:
  "am_inv m \<Longrightarrow> circulating m < 2 ^ 128 \<Longrightarrow> execute_block C j txs m = (m', rs) \<Longrightarrow>
     am_inv m' \<and> circulating m' = circulating m \<and> length rs = length txs"
proof (induction txs arbitrary: m m' rs)
  case (Cons tx txs)
  obtain m1 r where 1: "execute_transaction C j tx m = (m1, r)" by fastforce
  obtain m2 rs' where 2: "execute_block C j txs m1 = (m2, rs')" by fastforce
  show ?case
    using execute_transaction_atomic [OF Cons.prems(1,2) 1] Cons.IH [OF _ _ 2] Cons.prems 1 2
    by auto
qed simp

lemma transfer_frame:
  assumes "transfer f t amt m = (m', r)" "x \<noteq> f" "x \<noteq> t"
  shows "get_account m' x = get_account m x"
  using assms(1) by (cases rule: transfer_cases) (use assms in \<open>auto simp: get_put_account\<close>)

lemma execute_transfer_frame:
  assumes "execute_transfer f t amt m = (m', r)" "x \<noteq> f" "x \<noteq> t"
  shows "get_account m' x = get_account m x"
proof -
  obtain m1 r1 where tr: "transfer f t amt m = (m1, r1)" by fastforce
  have "get_account m1 x = get_account m x" by (rule transfer_frame [OF tr assms(2,3)])
  then show ?thesis
    using assms tr
    by (cases r1) (auto simp: execute_transfer_def get_put_account split: option.splits)
qed

lemma validate_signature_sound:
  assumes "is_valid (validate_signature C tx)"
  shows "\<exists>rs. length (tx_signature tx) = 65 \<and>
    recover_signature C (tx_hash_bytes C tx) (tx_signature tx) = Ok rs \<and>
    derive_bitcoin_address C (rs_public_key rs) = Ok (tx_from tx)"
  using assms
  by (auto simp: validate_signature_def validate_transaction_signature_def Let_def
      verify_address_match_def recover_signature_def result_simps
      split: if_splits result.splits)

lemma transfer_ok_accounts:
  assumes "transfer f t amt m = (k, Ok u)"
  shows "\<exists>a. get_account k f = Some a" "\<exists>b. get_account k t = Some b"
proof -
  show "\<exists>a. get_account k f = Some a"
    using assms by (cases rule: transfer_cases) (simp_all add: get_put_account)
  show "\<exists>b. get_account k t = Some b"
    using assms by (cases rule: transfer_cases) (simp_all add: get_put_account)
qed

lemma bal_put_increment:
  "get_account k f = Some acc \<Longrightarrow> bal (put_account f (increment_nonce acc) k) x = bal k x"
  by (simp add: bal_def get_balance_def get_put_account increment_nonce_def)

lemma execute_transfer_success:
  "execute_transfer f t amt m = (m', Ok u) \<longleftrightarrow>
     (\<exists>m1 acc. transfer f t amt m = (m1, Ok ()) \<and> get_account m1 f = Some acc \<and>
        m' = put_account f (increment_nonce acc) m1)"
proof -
  obtain m1 r1 where tr: "transfer f t amt m = (m1, r1)" by fastforce
  then have "r1 = Ok () \<Longrightarrow> \<exists>acc. get_account m1 f = Some acc"
    using transfer_ok_accounts by blast
  then show ?thesis
    using tr by (cases r1) (auto simp: execute_transfer_def split: option.splits)
qed

lemma transfer_enough:
  assumes "get_account m f = Some s" "get_account m t = Some w" "f \<noteq> t"
    and "unat amt \<le> unat (balance s)" "unat (balance w) + unat amt < 2 ^ 128"
  shows "\<exists>m'. transfer f t amt m = (m', Ok ())"
proof -
  have "\<not> balance s < amt" using assms(4) by (simp add: word_less_nat_alt)
  moreover have "\<exists>b. checked_add (balance w) amt = Some b"
    using assms(5) by (simp add: checked_add_def)
  ultimately show ?thesis
    using assms(1-3)
    by (auto simp: transfer_def subtract_balance_def add_balance_def get_put_account Let_def)
qed

section \<open>Properties\<close>

text \<open>
  The two-account store and the signed transfer that the witnesses below run. The
  Base58 stand-in spells every payload \<open>alice\<close>.
\<close>

definition wit_crypto :: crypto where
  "wit_crypto = toy_crypto \<lparr> bs58_encode := (\<lambda>_. ''alice'') \<rparr>"

definition wit_tx :: Transaction where
  "wit_tx = \<lparr> tx_from = ''alice'', tx_to = ''bob'', tx_amount = 30, tx_nonce = 0,
     tx_gas_price = 1, tx_gas_limit = 21000, tx_signature = replicate 65 1 \<rparr>"

definition wit_store :: AccountManager where
  "wit_store = \<lparr> am_accounts = [(''alice'', Account_new ''alice'' 100), (''bob'', Account_new ''bob'' 5)] \<rparr>"

lemma wit_store_ok: "am_inv wit_store \<and> circulating wit_store < 2 ^ 128"
  by (simp add: am_inv_def bt_inv_def wit_store_def circulating_def Account_new_def)

lemma wit_signature: "is_valid (validate_signature wit_crypto wit_tx)"
  by (simp add: validate_signature_def validate_transaction_signature_def recover_signature_def
      derive_bitcoin_address_def verify_address_match_def wit_tx_def wit_crypto_def toy_crypto_def
      Let_def)

lemma wit_transfer:
  "execute_transfer ''alice'' ''bob'' 30 wit_store =
     (\<lparr> am_accounts = [(''alice'', (Account_new ''alice'' 70)\<lparr> acc_nonce := 1 \<rparr>), (''bob'', Account_new ''bob'' 35)] \<rparr>, Ok ())"
  by (simp add: execute_transfer_def transfer_def wit_store_def get_account_def put_account_def
      subtract_balance_def add_balance_def checked_add_def Account_new_def increment_nonce_def)

lemma wit_execute:
  "execute_transaction wit_crypto (\<lambda>_. ''{}'') wit_tx wit_store =
     (fst (execute_transfer ''alice'' ''bob'' 30 wit_store),
      \<lparr> transaction_hash = receipt_hash wit_crypto (\<lambda>_. ''{}'') wit_tx, status = Success,
        tr_error = None, gas_used = 21000 \<rparr>)"
  unfolding execute_transaction_def Let_def
  using wit_signature
  by (simp add: wit_tx_def wit_transfer)
    (simp add: wit_store_def get_account_def)

text \<open>
  C16: Running a block of transactions on a well-formed account store whose balances sum to
  less than \<open>2^128\<close> keeps the store well-formed, keeps \<open>total_supply\<close> exactly (no
  balance is created, lost or wrapped), and yields one receipt per transaction.
\<close>

theorem execute_block_conserves_supply:
  assumes "am_inv m" "circulating m < 2 ^ 128"
    and "execute_block C to_json txs m = (m', receipts)"
  shows "am_inv m' \<and> total_supply m' = total_supply m
    \<and> unat (total_supply m') = circulating m \<and> length receipts = length txs"
  using execute_block_total [OF assms] assms(2)
    total_supply_exact [of m] total_supply_exact [of m']
  by (simp add: word_unat_eq_iff)

theorem execute_block_conserves_supply_witness:
  "total_supply (fst (execute_block wit_crypto (\<lambda>_. ''{}'') [wit_tx] wit_store))
     = total_supply wit_store
   \<and> status (snd (execute_transaction wit_crypto (\<lambda>_. ''{}'') wit_tx wit_store)) = Success"
  using execute_block_conserves_supply [of wit_store wit_crypto "\<lambda>_. ''{}''" "[wit_tx]"
      "fst (execute_block wit_crypto (\<lambda>_. ''{}'') [wit_tx] wit_store)"
      "snd (execute_block wit_crypto (\<lambda>_. ''{}'') [wit_tx] wit_store)"] wit_store_ok
  by (simp only: prod.collapse wit_execute TransactionReceipt.simps snd_conv)

text \<open>
  C17: Only a validly signed transaction changes the account store. If executing a
  transaction changes the store, its 65-byte signature recovers, over the transaction's
  hash, a public key whose derived Bitcoin address is the sender's; its receipt says
  \<open>Success\<close>; the sender pays and the receiver gets exactly the amount; and no account
  other than those two changes.
\<close>

theorem execute_transaction_authentic:
  assumes "am_inv m" "circulating m < 2 ^ 128"
    and "execute_transaction C to_json tx m = (m', r)" "m' \<noteq> m"
  shows "status r = Success
    \<and> (\<exists>rs. recover_signature C (tx_hash_bytes C tx) (tx_signature tx) = Ok rs
            \<and> derive_bitcoin_address C (rs_public_key rs) = Ok (tx_from tx))
    \<and> (\<forall>x. bal m' x + (if x = tx_from tx then unat (tx_amount tx) else 0)
             = bal m x + (if x = tx_to tx then unat (tx_amount tx) else 0))
    \<and> (\<forall>x. x \<noteq> tx_from tx \<and> x \<noteq> tx_to tx \<longrightarrow> get_account m' x = get_account m x)"
proof -
  obtain m1 r1 where ex: "execute_transfer (tx_from tx) (tx_to tx) (tx_amount tx) m = (m1, r1)"
    by fastforce
  have valid: "is_valid (validate_signature C tx)" and m1: "m' = m1"
    using assms(3,4) ex
    by (cases r1; auto simp: execute_transaction_def Let_def split: if_splits)+
  have ok: "r1 = Ok ()"
    using execute_transfer_atomic [OF assms(1,2) ex] assms(4) m1 by auto
  have st: "status r = Success"
    using assms(3,4) ex ok valid by (auto simp: execute_transaction_def Let_def split: if_splits)
  obtain m2 acc where tr: "transfer (tx_from tx) (tx_to tx) (tx_amount tx) m = (m2, Ok ())"
    and acc: "get_account m2 (tx_from tx) = Some acc"
    and m': "m' = put_account (tx_from tx) (increment_nonce acc) m2"
    using ex ok m1 by (auto simp: execute_transfer_success)
  have "bal m' x = bal m2 x" for x
    using acc by (simp add: m' bal_put_increment)
  with st validate_signature_sound [OF valid] transfer_balances [OF tr]
    execute_transfer_frame [OF ex] m1
  show ?thesis by auto
qed

theorem execute_transaction_authentic_witness:
  "bal (fst (execute_transaction wit_crypto (\<lambda>_. ''{}'') wit_tx wit_store)) ''bob'' = 35"
proof -
  let ?E = "execute_transaction wit_crypto (\<lambda>_. ''{}'') wit_tx wit_store"
  have "fst ?E \<noteq> wit_store"
    by (simp add: wit_execute wit_transfer, simp add: wit_store_def Account_new_def)
  with wit_store_ok
  have "\<forall>x. bal (fst ?E) x + (if x = tx_from wit_tx then unat (tx_amount wit_tx) else 0)
             = bal wit_store x + (if x = tx_to wit_tx then unat (tx_amount wit_tx) else 0)"
    using execute_transaction_authentic [of wit_store wit_crypto "\<lambda>_. ''{}''" wit_tx
        "fst ?E" "snd ?E"] by simp
  from spec [OF this, of "''bob''"] show ?thesis
    by (simp add: wit_tx_def, simp add: bal_def get_balance_def get_account_def wit_store_def
        Account_new_def)
qed

text \<open>
  C27: A transaction can be replayed. \<open>execute_transaction\<close> never compares the
  transaction's nonce with the account's, so the very transaction that was executed
  succeeds again, moving the amount a second time, whenever the sender still has the funds
  and the receiver has room for them.
\<close>

theorem execute_transaction_replay:
  assumes "execute_transaction C to_json tx m = (m1, r1)" "status r1 = Success"
    and "tx_from tx \<noteq> tx_to tx"
    and "unat (tx_amount tx) \<le> bal m1 (tx_from tx)"
    and "bal m1 (tx_to tx) + unat (tx_amount tx) < 2 ^ 128"
  shows "\<exists>m2 r2. execute_transaction C to_json tx m1 = (m2, r2) \<and> status r2 = Success
    \<and> bal m2 (tx_to tx) = bal m (tx_to tx) + 2 * unat (tx_amount tx)"
proof -
  obtain m1' q where ex: "execute_transfer (tx_from tx) (tx_to tx) (tx_amount tx) m = (m1', q)"
    by fastforce
  have valid: "is_valid (validate_signature C tx)" and q: "q = Ok ()" "m1' = m1"
    using assms(1,2) ex
    by (cases q; auto simp: execute_transaction_def Let_def split: if_splits)+
  obtain k acc where tr: "transfer (tx_from tx) (tx_to tx) (tx_amount tx) m = (k, Ok ())"
    and acc: "get_account k (tx_from tx) = Some acc"
    and m1: "m1 = put_account (tx_from tx) (increment_nonce acc) k"
    using ex q by (auto simp: execute_transfer_success)
  have t1: "bal m1 (tx_to tx) = bal m (tx_to tx) + unat (tx_amount tx)"
    using transfer_balances [OF tr, of "tx_to tx"] assms(3) acc by (simp add: m1 bal_put_increment)
  obtain w where w: "get_account m1 (tx_to tx) = Some w"
    using transfer_ok_accounts(2) [OF tr] assms(3) by (auto simp: m1 get_put_account)
  obtain s where s: "get_account m1 (tx_from tx) = Some s" by (simp add: m1 get_put_account)
  obtain k2 where tr2: "transfer (tx_from tx) (tx_to tx) (tx_amount tx) m1 = (k2, Ok ())"
    using transfer_enough [OF s w assms(3)] assms(4,5) s w
    by (auto simp: bal_def get_balance_def)
  obtain acc2 where acc2: "get_account k2 (tx_from tx) = Some acc2"
    using transfer_ok_accounts(1) [OF tr2] by blast
  have "execute_transaction C to_json tx m1 =
      (put_account (tx_from tx) (increment_nonce acc2) k2,
       \<lparr> transaction_hash = receipt_hash C to_json tx, status = Success, tr_error = None,
         gas_used = 21000 \<rparr>)"
    using valid s tr2 acc2 by (simp add: execute_transaction_def Let_def execute_transfer_def)
  moreover have "bal k2 (tx_to tx) = bal m1 (tx_to tx) + unat (tx_amount tx)"
    using transfer_balances [OF tr2, of "tx_to tx"] assms(3) by simp
  ultimately show ?thesis
    using t1 acc2 by (simp add: bal_put_increment)
qed

theorem execute_transaction_replay_witness:
  "\<exists>m2 r2. execute_transaction wit_crypto (\<lambda>_. ''{}'') wit_tx
     (fst (execute_transfer ''alice'' ''bob'' 30 wit_store)) = (m2, r2)
   \<and> status r2 = Success \<and> bal m2 ''bob'' = 65"
  using execute_transaction_replay [OF wit_execute] wit_transfer
  by (simp add: wit_tx_def, simp add: bal_def get_balance_def get_account_def wit_store_def
      Account_new_def)

end
