(* ===== verification/Runtime_Types.thy ===== *)
theory Runtime_Types
  imports BTree_Map Crypto_Env
begin

text \<open>
  The data of the NEAR runtime that the chain's Bitcoin support extends: accounts
  (\<open>primitives-core/src/account.rs\<close>), access keys, actions (\<open>primitives/src/action\<close>) and
  the error types (\<open>primitives/src/errors.rs\<close>) that the modelled code returns. A
  \<open>Balance\<close> is a u128, a \<open>Gas\<close> a u64, an account identifier a string, a hash its bytes.
\<close>

type_synonym Balance = u128
type_synonym Gas = u64
type_synonym Nonce = u64
type_synonym NonceIndex = u16
type_synonym EpochHeight = u64
type_synonym BlockHeight = u64
type_synonym ProtocolVersion = u32
type_synonym AccountId = string
type_synonym CryptoHash = bytes
type_synonym StorageUsage = u64

section \<open>Keys and signatures\<close>

datatype PublicKey = ED25519 bytes | SECP256K1 bytes
datatype Signature = SigED25519 bytes | SigSECP256K1 bytes

fun pk_tag :: "PublicKey \<Rightarrow> nat" where
  "pk_tag (ED25519 b) = 0"
| "pk_tag (SECP256K1 b) = 1"

fun pk_bytes :: "PublicKey \<Rightarrow> bytes" where
  "pk_bytes (ED25519 b) = b"
| "pk_bytes (SECP256K1 b) = b"

text \<open>Keys are ordered by kind and then by their bytes, the order of their trie keys.\<close>

lemma pk_ext: "pk_tag a = pk_tag b \<Longrightarrow> pk_bytes a = pk_bytes b \<Longrightarrow> a = b"
  by (cases a; cases b) auto

instantiation PublicKey :: linorder
begin

definition less_eq_PublicKey :: "PublicKey \<Rightarrow> PublicKey \<Rightarrow> bool" where
  "less_eq_PublicKey a b \<longleftrightarrow>
     pk_tag a < pk_tag b \<or> (pk_tag a = pk_tag b \<and> pk_bytes a \<le> pk_bytes b)"

definition less_PublicKey :: "PublicKey \<Rightarrow> PublicKey \<Rightarrow> bool" where
  "less_PublicKey a b \<longleftrightarrow>
     pk_tag a < pk_tag b \<or> (pk_tag a = pk_tag b \<and> pk_bytes a < pk_bytes b)"

instance
  by standard (auto simp: less_eq_PublicKey_def less_PublicKey_def intro: pk_ext)

end

section \<open>Accounts\<close>

datatype AccountContract =
    NoContract
  | Local CryptoHash
  | Global CryptoHash
  | GlobalByAccount AccountId

definition default_hash :: CryptoHash where
  "default_hash = replicate 32 0"

fun local_code :: "AccountContract \<Rightarrow> CryptoHash option" where
  "local_code (Local h) = Some h"
| "local_code _ = None"

definition from_local_code_hash :: "CryptoHash \<Rightarrow> AccountContract" where
  "from_local_code_hash h = (if h = default_hash then NoContract else Local h)"

fun identifier_storage_usage :: "AccountContract \<Rightarrow> u64" where
  "identifier_storage_usage NoContract = 0"
| "identifier_storage_usage (Local _) = 0"
| "identifier_storage_usage (Global _) = 32"
| "identifier_storage_usage (GlobalByAccount aid) = word_of_nat (length aid)"

record AccountV1 =
  v1_amount :: Balance
  v1_locked :: Balance
  v1_code_hash :: CryptoHash
  v1_storage_usage :: StorageUsage

record AccountV2 =
  v2_amount :: Balance
  v2_locked :: Balance
  v2_storage_usage :: StorageUsage
  v2_contract :: AccountContract

datatype Account = V1 AccountV1 | V2 AccountV2

definition to_v2 :: "AccountV1 \<Rightarrow> AccountV2" where
  "to_v2 a = \<lparr> v2_amount = v1_amount a, v2_locked = v1_locked a,
     v2_storage_usage = v1_storage_usage a,
     v2_contract = from_local_code_hash (v1_code_hash a) \<rparr>"

definition MAX_ACCOUNT_DELETION_STORAGE_USAGE :: u64 where
  "MAX_ACCOUNT_DELETION_STORAGE_USAGE = 10000"

fun account_new :: "Balance \<Rightarrow> Balance \<Rightarrow> AccountContract \<Rightarrow> StorageUsage \<Rightarrow> Account" where
  "account_new am lo NoContract su =
     V1 \<lparr> v1_amount = am, v1_locked = lo, v1_code_hash = default_hash, v1_storage_usage = su \<rparr>"
| "account_new am lo (Local h) su =
     V1 \<lparr> v1_amount = am, v1_locked = lo, v1_code_hash = h, v1_storage_usage = su \<rparr>"
| "account_new am lo c su =
     V2 \<lparr> v2_amount = am, v2_locked = lo, v2_storage_usage = su, v2_contract = c \<rparr>"

fun amount :: "Account \<Rightarrow> Balance" where
  "amount (V1 a) = v1_amount a"
| "amount (V2 a) = v2_amount a"

fun locked :: "Account \<Rightarrow> Balance" where
  "locked (V1 a) = v1_locked a"
| "locked (V2 a) = v2_locked a"

fun contract :: "Account \<Rightarrow> AccountContract" where
  "contract (V1 a) = from_local_code_hash (v1_code_hash a)"
| "contract (V2 a) = v2_contract a"

fun storage_usage :: "Account \<Rightarrow> StorageUsage" where
  "storage_usage (V1 a) = v1_storage_usage a"
| "storage_usage (V2 a) = v2_storage_usage a"

fun local_contract_hash :: "Account \<Rightarrow> CryptoHash option" where
  "local_contract_hash (V1 a) = local_code (from_local_code_hash (v1_code_hash a))"
| "local_contract_hash (V2 a) = local_code (v2_contract a)"

fun set_amount :: "Balance \<Rightarrow> Account \<Rightarrow> Account" where
  "set_amount x (V1 a) = V1 (a \<lparr> v1_amount := x \<rparr>)"
| "set_amount x (V2 a) = V2 (a \<lparr> v2_amount := x \<rparr>)"

fun set_locked :: "Balance \<Rightarrow> Account \<Rightarrow> Account" where
  "set_locked x (V1 a) = V1 (a \<lparr> v1_locked := x \<rparr>)"
| "set_locked x (V2 a) = V2 (a \<lparr> v2_locked := x \<rparr>)"

fun set_contract :: "AccountContract \<Rightarrow> Account \<Rightarrow> Account" where
  "set_contract c (V1 a) =
     (case c of
        NoContract \<Rightarrow> V1 (a \<lparr> v1_code_hash := default_hash \<rparr>)
      | Local h \<Rightarrow> V1 (a \<lparr> v1_code_hash := h \<rparr>)
      | _ \<Rightarrow> V2 ((to_v2 a) \<lparr> v2_contract := c \<rparr>))"
| "set_contract c (V2 a) = V2 (a \<lparr> v2_contract := c \<rparr>)"

fun set_storage_usage :: "StorageUsage \<Rightarrow> Account \<Rightarrow> Account" where
  "set_storage_usage x (V1 a) = V1 (a \<lparr> v1_storage_usage := x \<rparr>)"
| "set_storage_usage x (V2 a) = V2 (a \<lparr> v2_storage_usage := x \<rparr>)"

lemma amount_updates [simp]:
  "amount (set_amount x a) = x" "amount (set_locked x a) = amount a"
  "amount (set_storage_usage u a) = amount a" "amount (set_contract c a) = amount a"
  by (cases a; cases c; simp add: to_v2_def)+

lemma locked_updates [simp]:
  "locked (set_amount x a) = locked a" "locked (set_locked x a) = x"
  "locked (set_storage_usage u a) = locked a" "locked (set_contract c a) = locked a"
  by (cases a; cases c; simp add: to_v2_def)+

lemma storage_usage_updates [simp]:
  "storage_usage (set_amount x a) = storage_usage a"
  "storage_usage (set_locked x a) = storage_usage a"
  "storage_usage (set_storage_usage u a) = u" "storage_usage (set_contract c a) = storage_usage a"
  by (cases a; cases c; simp add: to_v2_def)+

lemma contract_updates [simp]:
  "contract (set_amount x a) = contract a" "contract (set_locked x a) = contract a"
  "contract (set_storage_usage u a) = contract a"
  by (cases a; simp)+

lemma account_new_fields [simp]:
  "amount (account_new am lo c su) = am" "locked (account_new am lo c su) = lo"
  "storage_usage (account_new am lo c su) = su"
  by (cases c; simp)+

section \<open>Access keys\<close>

record GasKeyInfo =
  gk_balance :: Balance
  num_nonces :: NonceIndex

record FunctionCallPermission =
  allowance :: "Balance option"
  fcp_receiver_id :: string
  method_names :: "string list"

datatype AccessKeyPermission =
    FunctionCallPerm FunctionCallPermission
  | FullAccess
  | GasKeyFunctionCall GasKeyInfo FunctionCallPermission
  | GasKeyFullAccess GasKeyInfo

record AccessKey =
  ak_nonce :: Nonce
  permission :: AccessKeyPermission

definition ACCESS_KEY_NONCE_RANGE_MULTIPLIER :: u64 where
  "ACCESS_KEY_NONCE_RANGE_MULTIPLIER = 1000000"

definition MAX_BALANCE_TO_BURN :: Balance where
  "MAX_BALANCE_TO_BURN = 10 ^ 24"

definition MAX_NONCES_FOR_GAS_KEY :: NonceIndex where
  "MAX_NONCES_FOR_GAS_KEY = 1024"

definition full_access :: AccessKey where
  "full_access = \<lparr> ak_nonce = 0, permission = FullAccess \<rparr>"

fun permission_gas_key :: "AccessKeyPermission \<Rightarrow> GasKeyInfo option" where
  "permission_gas_key (GasKeyFunctionCall g _) = Some g"
| "permission_gas_key (GasKeyFullAccess g) = Some g"
| "permission_gas_key _ = None"

definition gas_key_info :: "AccessKey \<Rightarrow> GasKeyInfo option" where
  "gas_key_info k = permission_gas_key (permission k)"

fun permission_set_gas_key :: "GasKeyInfo \<Rightarrow> AccessKeyPermission \<Rightarrow> AccessKeyPermission" where
  "permission_set_gas_key g (GasKeyFunctionCall _ p) = GasKeyFunctionCall g p"
| "permission_set_gas_key g (GasKeyFullAccess _) = GasKeyFullAccess g"
| "permission_set_gas_key g p = p"

definition set_gas_key_info :: "GasKeyInfo \<Rightarrow> AccessKey \<Rightarrow> AccessKey" where
  "set_gas_key_info g k = k \<lparr> permission := permission_set_gas_key g (permission k) \<rparr>"

fun function_call_permission :: "AccessKeyPermission \<Rightarrow> FunctionCallPermission option" where
  "function_call_permission (FunctionCallPerm p) = Some p"
| "function_call_permission (GasKeyFunctionCall _ p) = Some p"
| "function_call_permission _ = None"

fun set_function_call_permission ::
  "FunctionCallPermission \<Rightarrow> AccessKeyPermission \<Rightarrow> AccessKeyPermission" where
  "set_function_call_permission p (FunctionCallPerm _) = FunctionCallPerm p"
| "set_function_call_permission p (GasKeyFunctionCall g _) = GasKeyFunctionCall g p"
| "set_function_call_permission p q = q"

lemma gas_key_info_set [simp]:
  "gas_key_info k = Some g \<Longrightarrow> gas_key_info (set_gas_key_info g' k) = Some g'"
  by (cases "permission k") (simp_all add: gas_key_info_def set_gas_key_info_def)

lemma gas_key_nonce_set [simp]: "ak_nonce (set_gas_key_info g k) = ak_nonce k"
  by (simp add: set_gas_key_info_def)

section \<open>Actions\<close>

datatype GlobalContractDeployMode = ModeCodeHash | ModeAccountId
datatype GlobalContractIdentifier = IdCodeHash CryptoHash | IdAccountId AccountId

record FunctionCallAction =
  method_name :: string
  fc_args :: bytes
  fc_gas :: Gas
  fc_deposit :: Balance

record DeterministicAccountStateInit =
  si_code :: GlobalContractIdentifier
  si_data :: "(bytes, bytes) btree"

definition len_bytes :: "DeterministicAccountStateInit \<Rightarrow> nat" where
  "len_bytes si = sum_list (map (\<lambda>(k, v). length k + length v) (si_data si))"

datatype Action =
    CreateAccount
  | DeployContract bytes
  | FunctionCall FunctionCallAction
  | Transfer Balance
  | Stake Balance PublicKey
  | AddKey PublicKey AccessKey
  | DeleteKey PublicKey
  | DeleteAccount AccountId
  | Delegate DelegateAction Signature
  | DeployGlobalContract bytes GlobalContractDeployMode
  | UseGlobalContract GlobalContractIdentifier
  | DeterministicStateInit DeterministicAccountStateInit Balance
  | TransferToGasKey PublicKey Balance
  | WithdrawFromGasKey PublicKey Balance
and DelegateAction =
    DelegateAction (da_sender_id: AccountId) (da_receiver_id: AccountId)
      (da_actions: "Action list") (da_nonce: Nonce) (da_max_block_height: BlockHeight)
      (da_public_key: PublicKey)

fun get_prepaid_gas :: "Action \<Rightarrow> Gas" where
  "get_prepaid_gas (FunctionCall a) = fc_gas a"
| "get_prepaid_gas _ = 0"

fun get_deposit_balance :: "Action \<Rightarrow> Balance" where
  "get_deposit_balance (FunctionCall a) = fc_deposit a"
| "get_deposit_balance (Transfer d) = d"
| "get_deposit_balance (DeterministicStateInit _ d) = d"
| "get_deposit_balance (TransferToGasKey _ d) = d"
| "get_deposit_balance _ = 0"

text \<open>
  The list of a \<open>DelegateAction\<close> has the type \<open>NonDelegateAction\<close> in the code, which no
  delegate action can inhabit.
\<close>

fun non_delegate :: "Action \<Rightarrow> bool" where
  "non_delegate (Delegate _ _) = False"
| "non_delegate _ = True"

section \<open>Errors\<close>

datatype StorageError =
    StorageInternalError
  | MissingTrieValue
  | UnexpectedTrieValue
  | StorageInconsistentState string
  | FlatStorageBlockNotSupported string
  | MemTrieLoadingError string

datatype InvalidAccessKeyError =
    AccessKeyNotFound AccountId PublicKey
  | ReceiverMismatch AccountId string
  | MethodNameMismatch string
  | RequiresFullAccess
  | NotEnoughAllowance AccountId PublicKey Balance Balance
  | DepositWithFunctionCall

datatype ActionsValidationError =
    DeleteActionMustBeFinal
  | TotalPrepaidGasExceeded Gas Gas
  | TotalNumberOfActionsExceeded u64 u64
  | AddKeyMethodNamesNumberOfBytesExceeded u64 u64
  | AddKeyMethodNameLengthExceeded u64 u64
  | IntegerOverflow
  | InvalidAccountId string
  | ContractSizeExceeded u64 u64
  | FunctionCallMethodNameLengthExceeded u64 u64
  | FunctionCallArgumentsLengthExceeded u64 u64
  | UnsuitableStakingKey PublicKey
  | FunctionCallZeroAttachedGas
  | DelegateActionMustBeOnlyOne
  | UnsupportedProtocolFeature string ProtocolVersion
  | InvalidDeterministicStateInitReceiver AccountId AccountId
  | DeterministicStateInitKeyLengthExceeded u64 u64
  | DeterministicStateInitValueLengthExceeded u64 u64
  | GasKeyInvalidNumNonces NonceIndex NonceIndex
  | AddGasKeyWithNonZeroBalance Balance
  | GasKeyFunctionCallAllowanceNotAllowed

datatype DepositCostFailureReason =
    DepositNotEnoughBalance
  | DepositLackBalanceForState

datatype InvalidTxError =
    InvalidAccessKey InvalidAccessKeyError
  | InvalidSignerId string
  | SignerDoesNotExist AccountId
  | InvalidNonce Nonce Nonce
  | NonceTooLarge Nonce Nonce
  | InvalidReceiverId string
  | InvalidSignature
  | NotEnoughBalance AccountId Balance Balance
  | LackBalanceForState AccountId Balance
  | CostOverflow
  | InvalidChain
  | Expired
  | ActionsValidation ActionsValidationError
  | TransactionSizeExceeded u64 u64
  | InvalidTransactionVersion
  | TxStorageError StorageError
  | InvalidNonceIndex "NonceIndex option" NonceIndex
  | NotEnoughGasKeyBalance AccountId Balance Balance
  | NotEnoughBalanceForDeposit AccountId Balance Balance DepositCostFailureReason

end
