(* ===== verification/Tx_Types.thy ===== *)
theory Tx_Types
  imports Runtime_Types
begin

text \<open>
  Transactions as \<open>core/primitives/src/transaction.rs\<close> has them: the two versions, the
  nonce with its optional gas-key index, and the signed transaction with its cached hash and
  size; and the protocol features of \<open>core/primitives-core/src/version.rs\<close> that the
  runtime asks for.
\<close>

section \<open>Protocol features\<close>

datatype ProtocolFeature =
    DeterministicAccountIds
  | InvalidTxGenerateOutcomes
  | FixAccessKeyAllowanceCharging
  | IncludeDeployGlobalContractOutcomeBurntStorage
  | FixDeterministicAccountIdCreation
  | ExcludeExistingCodeFromWitnessForCodeLen
  | GlobalContractDistributionNonce
  | InstantPromiseYield
  | YieldResumeImprovements
  | GasKeys

fun feature_protocol_version :: "ProtocolFeature \<Rightarrow> ProtocolVersion" where
  "feature_protocol_version DeterministicAccountIds = 82"
| "feature_protocol_version InvalidTxGenerateOutcomes = 83"
| "feature_protocol_version FixAccessKeyAllowanceCharging = 83"
| "feature_protocol_version IncludeDeployGlobalContractOutcomeBurntStorage = 83"
| "feature_protocol_version FixDeterministicAccountIdCreation = 83"
| "feature_protocol_version ExcludeExistingCodeFromWitnessForCodeLen = 83"
| "feature_protocol_version GlobalContractDistributionNonce = 83"
| "feature_protocol_version InstantPromiseYield = 83"
| "feature_protocol_version YieldResumeImprovements = 83"
| "feature_protocol_version GasKeys = 149"

definition feature_enabled :: "ProtocolFeature \<Rightarrow> ProtocolVersion \<Rightarrow> bool" where
  "feature_enabled f pv \<longleftrightarrow> feature_protocol_version f \<le> pv"

section \<open>Transactions\<close>

datatype TransactionNonce =
    PlainNonce Nonce
  | GasKeyNonce Nonce NonceIndex

fun nonce_of :: "TransactionNonce \<Rightarrow> Nonce" where
  "nonce_of (PlainNonce n) = n"
| "nonce_of (GasKeyNonce n _) = n"

fun nonce_index_of :: "TransactionNonce \<Rightarrow> NonceIndex option" where
  "nonce_index_of (PlainNonce _) = None"
| "nonce_index_of (GasKeyNonce _ i) = Some i"

record TransactionV0 =
  v0_signer_id :: AccountId
  v0_public_key :: PublicKey
  v0_nonce :: Nonce
  v0_receiver_id :: AccountId
  v0_block_hash :: CryptoHash
  v0_actions :: "Action list"

record TransactionV1 =
  v1_signer_id :: AccountId
  v1_public_key :: PublicKey
  v1_nonce :: TransactionNonce
  v1_receiver_id :: AccountId
  v1_block_hash :: CryptoHash
  v1_actions :: "Action list"

datatype Transaction = TxV0 TransactionV0 | TxV1 TransactionV1

fun tx_signer_id :: "Transaction \<Rightarrow> AccountId" where
  "tx_signer_id (TxV0 t) = v0_signer_id t"
| "tx_signer_id (TxV1 t) = v1_signer_id t"

fun tx_receiver_id :: "Transaction \<Rightarrow> AccountId" where
  "tx_receiver_id (TxV0 t) = v0_receiver_id t"
| "tx_receiver_id (TxV1 t) = v1_receiver_id t"

fun tx_public_key :: "Transaction \<Rightarrow> PublicKey" where
  "tx_public_key (TxV0 t) = v0_public_key t"
| "tx_public_key (TxV1 t) = v1_public_key t"

fun tx_nonce :: "Transaction \<Rightarrow> TransactionNonce" where
  "tx_nonce (TxV0 t) = PlainNonce (v0_nonce t)"
| "tx_nonce (TxV1 t) = v1_nonce t"

fun tx_actions :: "Transaction \<Rightarrow> Action list" where
  "tx_actions (TxV0 t) = v0_actions t"
| "tx_actions (TxV1 t) = v1_actions t"

fun is_v1 :: "Transaction \<Rightarrow> bool" where
  "is_v1 (TxV0 _) = False"
| "is_v1 (TxV1 _) = True"

text \<open>
  A signed transaction caches the hash and the size of its Borsh encoding, which
  \<open>SignedTransaction::init\<close> fills in.
\<close>

record SignedTransaction =
  st_transaction :: Transaction
  st_signature :: Signature
  st_hash :: CryptoHash
  st_size :: u64

end
