(* ===== verification/Account_Id.thy ===== *)
theory Account_Id
  imports Crypto_Env "HOL-Library.Sublist"
begin

text \<open>
  Account identifiers of \<open>near-account-id/src\<close>: validation, the account kinds
  (named, NEAR, Ethereum and Bitcoin implicit, deterministic), and the sub-account
  relation. Base58, SHA-256 and the SegWit decoder are fields of the \<open>crypto\<close>
  argument. A \<open>panic!\<close> of the \<open>const\<close> validator is an \<open>Err\<close> with its message.
\<close>

section \<open>Validation\<close>

datatype ParseErrorKind = TooLong | TooShort | RedundantSeparator | InvalidChar

record ParseAccountError =
  pe_kind :: ParseErrorKind
  pe_char :: "(nat \<times> nat) option"

definition MIN_LEN :: nat where "MIN_LEN = 2"
definition MAX_LEN :: nat where "MAX_LEN = 64"

definition lower_alnum :: "nat \<Rightarrow> bool" where
  "lower_alnum c \<longleftrightarrow> (97 \<le> c \<and> c \<le> 122) \<or> (48 \<le> c \<and> c \<le> 57)"

definition separator :: "nat \<Rightarrow> bool" where
  "separator c \<longleftrightarrow> c = 45 \<or> c = 95 \<or> c = 46"

definition lower_hex :: "nat \<Rightarrow> bool" where
  "lower_hex c \<longleftrightarrow> (97 \<le> c \<and> c \<le> 102) \<or> (48 \<le> c \<and> c \<le> 57)"

fun validate_format_const :: "string \<Rightarrow> nat \<Rightarrow> bool \<Rightarrow> (unit, string) result" where
  "validate_format_const [] idx sep =
     (if sep then Err ''NEAR Account ID cannot end with char separator (-, _, .)'' else Ok ())"
| "validate_format_const (c # ids) idx sep =
     (if lower_alnum (of_char c) then validate_format_const ids (idx + 1) False
      else if separator (of_char c) then
        (if sep then Err ''NEAR Account ID cannot contain redundant separator (-, _, .)''
         else if idx = 0 then Err ''NEAR Account ID cannot start with char separator (-, _, .)''
         else validate_format_const ids (idx + 1) True)
      else Err ''NEAR Account ID cannot contain invalid chars (only a-z, 0-9, -, _, and . are allowed)'')"

definition validate_const :: "string \<Rightarrow> (unit, string) result" where
  "validate_const account_id =
     (if length account_id < MIN_LEN then Err ''NEAR Account ID is too short''
      else if length account_id > MAX_LEN then Err ''NEAR Account ID is too long''
      else validate_format_const account_id 0 False)"

definition starts_with :: "string \<Rightarrow> string \<Rightarrow> bool" where
  "starts_with s p = (take (length p) s = p)"

definition is_legacy_lowercased_bitcoin :: "string \<Rightarrow> bool" where
  "is_legacy_lowercased_bitcoin account_id =
     (let len = length account_id;
          plain = list_all (\<lambda>c. lower_alnum (of_char c)) account_id;
          first = (case account_id of [] \<Rightarrow> None | c # _ \<Rightarrow> Some c)
      in if starts_with account_id ''bc1q'' \<and> 42 \<le> len \<and> len \<le> 62 then plain
         else if starts_with account_id ''bc1p'' \<and> len = 62 then plain
         else if first = Some CHR ''1'' \<and> 25 \<le> len \<and> len \<le> 34 then plain
         else if first = Some CHR ''3'' \<and> 33 \<le> len \<and> len \<le> 34 then plain
         else False)"

definition has_valid_base58check_address :: "'e crypto_scheme \<Rightarrow> string \<Rightarrow> bool" where
  "has_valid_base58check_address C account_id =
     (if \<not> (26 \<le> length account_id \<and> length account_id \<le> 35) then False
      else case bs58_decode C account_id of
             None \<Rightarrow> False
           | Some decoded \<Rightarrow>
               if length decoded \<noteq> 25 then False
               else let payload = take 21 decoded; checksum = take 4 (drop 21 decoded);
                        hash2 = sha256 C (sha256 C payload)
                    in if checksum \<noteq> take 4 hash2 then False
                       else payload ! 0 \<in> {0x00, 0x05, 0x6f, 0xc4})"

definition has_valid_segwit_address :: "'e crypto_scheme \<Rightarrow> string \<Rightarrow> bool" where
  "has_valid_segwit_address C account_id =
     (case segwit_decode C account_id of
        Some (hrp, _, _) \<Rightarrow> hrp = ''bc'' \<or> hrp = ''tb'' \<or> hrp = ''bcrt''
      | None \<Rightarrow> False)"

definition is_bitcoin_implicit :: "'e crypto_scheme \<Rightarrow> string \<Rightarrow> bool" where
  "is_bitcoin_implicit C account_id \<longleftrightarrow>
     has_valid_base58check_address C account_id \<or> has_valid_segwit_address C account_id
     \<or> is_legacy_lowercased_bitcoin account_id"

text \<open>
  The loop of \<open>validate\<close> over \<open>chars().enumerate()\<close>; \<open>this\<close> is the last
  character read, for the error.
\<close>

fun validate_chars ::
  "nat list \<Rightarrow> nat \<Rightarrow> bool \<Rightarrow> (nat \<times> nat) option \<Rightarrow> (unit, ParseAccountError) result" where
  "validate_chars [] i last_char_is_separator this =
     (if last_char_is_separator
      then Err \<lparr> pe_kind = RedundantSeparator, pe_char = this \<rparr> else Ok ())"
| "validate_chars (c # cs) i last_char_is_separator this =
     (let this = Some (i, c) in
      if lower_alnum c then validate_chars cs (i + 1) False this
      else if separator c then
        (if last_char_is_separator
         then Err \<lparr> pe_kind = RedundantSeparator, pe_char = this \<rparr>
         else validate_chars cs (i + 1) True this)
      else Err \<lparr> pe_kind = InvalidChar, pe_char = this \<rparr>)"

definition validate :: "'e crypto_scheme \<Rightarrow> string \<Rightarrow> (unit, ParseAccountError) result" where
  "validate C account_id =
     (if length account_id < MIN_LEN then Err \<lparr> pe_kind = TooShort, pe_char = None \<rparr>
      else if length account_id > MAX_LEN then Err \<lparr> pe_kind = TooLong, pe_char = None \<rparr>
      else if is_bitcoin_implicit C account_id then Ok ()
      else validate_chars (str_chars account_id) 0 True None)"

section \<open>Kinds of accounts\<close>

definition is_eth_implicit :: "string \<Rightarrow> bool" where
  "is_eth_implicit s \<longleftrightarrow> length s = 42 \<and> starts_with s ''0x''
     \<and> list_all (\<lambda>c. lower_hex (of_char c)) (drop 2 s)"

definition is_near_deterministic :: "string \<Rightarrow> bool" where
  "is_near_deterministic s \<longleftrightarrow> length s = 42 \<and> starts_with s ''0s''
     \<and> list_all (\<lambda>c. lower_hex (of_char c)) (drop 2 s)"

definition is_near_implicit :: "string \<Rightarrow> bool" where
  "is_near_implicit s \<longleftrightarrow> length s = 64 \<and> list_all (\<lambda>c. lower_hex (of_char c)) s"

datatype AccountType =
    NamedAccount | NearImplicitAccount | EthImplicitAccount
  | NearDeterministicAccount | BtcImplicitAccount

fun is_implicit :: "AccountType \<Rightarrow> bool" where
  "is_implicit NearImplicitAccount = True"
| "is_implicit EthImplicitAccount = True"
| "is_implicit NearDeterministicAccount = True"
| "is_implicit BtcImplicitAccount = True"
| "is_implicit NamedAccount = False"

definition get_account_type :: "'e crypto_scheme \<Rightarrow> string \<Rightarrow> AccountType" where
  "get_account_type C s =
     (if is_bitcoin_implicit C s then BtcImplicitAccount
      else if is_eth_implicit s then EthImplicitAccount
      else if is_near_implicit s then NearImplicitAccount
      else if is_near_deterministic s then NearDeterministicAccount
      else NamedAccount)"

definition is_system :: "string \<Rightarrow> bool" where
  "is_system s \<longleftrightarrow> s = ''system''"

definition is_top_level :: "string \<Rightarrow> bool" where
  "is_top_level s \<longleftrightarrow> \<not> is_system s \<and> CHR ''.'' \<notin> set s"

definition strip_suffix :: "string \<Rightarrow> string \<Rightarrow> string option" where
  "strip_suffix s p = (if suffix p s then Some (take (length s - length p) s) else None)"

definition is_sub_account_of :: "string \<Rightarrow> string \<Rightarrow> bool" where
  "is_sub_account_of s parent =
     (case strip_suffix s parent of
        None \<Rightarrow> False
      | Some a \<Rightarrow> (case strip_suffix a ''.'' of
                     None \<Rightarrow> False
                   | Some b \<Rightarrow> CHR ''.'' \<notin> set b))"

fun split_once :: "char \<Rightarrow> string \<Rightarrow> (string \<times> string) option" where
  "split_once d [] = None"
| "split_once d (c # s) =
     (if c = d then Some ([], s)
      else map_option (\<lambda>(a, b). (c # a, b)) (split_once d s))"

definition get_parent_account_id :: "string \<Rightarrow> string option" where
  "get_parent_account_id s = map_option snd (split_once CHR ''.'' s)"

definition account_id_new :: "'e crypto_scheme \<Rightarrow> string \<Rightarrow> (string, ParseAccountError) result" where
  "account_id_new C s = result_bind (validate C s) (\<lambda>_. Ok s)"

section \<open>The grammar of account identifiers\<close>

text \<open>
  The regular expression that \<open>validate\<close> documents,
  \<open>(([a-z\d]+[-_])*[a-z\d]+\.)*([a-z\d]+[-_])*[a-z\d]+\<close>, as inductive definitions:
  an identifier is dot-separated parts, a part is segments joined by dashes or
  underscores, and a segment is one or more lower-case letters or digits.
\<close>

definition segment :: "string \<Rightarrow> bool" where
  "segment w \<longleftrightarrow> w \<noteq> [] \<and> list_all (\<lambda>c. lower_alnum (of_char c)) w"

inductive part :: "string \<Rightarrow> bool" where
  one: "segment w \<Longrightarrow> part w"
| more: "segment w \<Longrightarrow> c \<in> {CHR ''-'', CHR ''_''} \<Longrightarrow> part p \<Longrightarrow> part (w @ c # p)"

inductive account_re :: "string \<Rightarrow> bool" where
  last: "part p \<Longrightarrow> account_re p"
| dot: "part p \<Longrightarrow> account_re r \<Longrightarrow> account_re (p @ CHR ''.'' # r)"

text \<open>The separator automaton that both validators run, on bytes.\<close>

fun ok_from :: "bool \<Rightarrow> string \<Rightarrow> bool" where
  "ok_from sep [] = (\<not> sep)"
| "ok_from sep (c # s) =
     (if lower_alnum (of_char c) then ok_from False s
      else separator (of_char c) \<and> \<not> sep \<and> ok_from True s)"

lemma ok_from_segment: "segment w \<Longrightarrow> ok_from b (w @ s) = ok_from False s"
proof (induction w arbitrary: b)
  case (Cons c w)
  then show ?case by (cases w) (auto simp: segment_def)
qed (simp add: segment_def)

lemma separator_codes [simp]:
  "separator 46" "\<not> lower_alnum 46" "separator 45" "\<not> lower_alnum 45"
  "separator 95" "\<not> lower_alnum 95"
  by (simp_all add: separator_def lower_alnum_def)

lemma separator_cases:
  assumes "separator (of_char c)"
  obtains "c = CHR ''.''" | "c \<in> {CHR ''-'', CHR ''_''}"
proof -
  have "of_char c \<in> {of_char CHR ''-'', of_char CHR ''_'', of_char CHR ''.'' :: nat}"
    using assms by (auto simp: separator_def)
  then have "c = CHR ''-'' \<or> c = CHR ''_'' \<or> c = CHR ''.''"
    unfolding insert_iff empty_iff of_char_eq_iff by blast
  then show thesis using that by blast
qed

lemma ok_from_part: "part p \<Longrightarrow> ok_from True (p @ s) = ok_from False s"
  by (induction rule: part.induct) (auto simp: ok_from_segment)

lemma account_re_ok: "account_re s \<Longrightarrow> ok_from True s"
proof (induction rule: account_re.induct)
  case (last p)
  then show ?case using ok_from_part [of p "[]"] by simp
next
  case (dot p r)
  then show ?case by (simp add: ok_from_part)
qed

lemma segment_Cons: "lower_alnum (of_char x) \<Longrightarrow> segment w \<Longrightarrow> segment (x # w)"
  by (simp add: segment_def)

lemma part_Cons: "part p \<Longrightarrow> lower_alnum (of_char x) \<Longrightarrow> part (x # p)"
  by (induction rule: part.induct) (metis segment_Cons append_Cons part.intros)+

lemma account_re_Cons: "account_re s \<Longrightarrow> lower_alnum (of_char x) \<Longrightarrow> account_re (x # s)"
  by (induction rule: account_re.induct) (metis part_Cons append_Cons account_re.intros)+

lemma part_dash:
  "part p \<Longrightarrow> lower_alnum (of_char x) \<Longrightarrow> c \<in> {CHR ''-'', CHR ''_''} \<Longrightarrow> part (x # c # p)"
  using part.more [of "[x]" c p] by (simp add: segment_def)

lemma account_re_sep:
  assumes "account_re r" "lower_alnum (of_char x)" "separator (of_char c)"
  shows "account_re (x # c # r)"
  using assms(3)
proof (cases rule: separator_cases)
  case 1
  then show ?thesis
    using account_re.dot [of "[x]" r] assms by (simp add: part.one segment_def)
next
  case 2
  show ?thesis using assms(1)
  proof (cases rule: account_re.cases)
    case last
    then show ?thesis using part_dash 2 assms account_re.last by blast
  next
    case (dot p r')
    then show ?thesis
      using account_re.dot [OF part_dash [OF dot(2) assms(2) 2] dot(3)] by simp
  qed
qed

lemma ok_account_re: "lower_alnum (of_char x) \<Longrightarrow> ok_from False s \<Longrightarrow> account_re (x # s)"
proof (induction s arbitrary: x rule: length_induct)
  case (1 s)
  have unit: "account_re [x]"
    using 1 by (simp add: account_re.last part.one segment_def)
  show ?case
  proof (cases s)
    case Nil
    then show ?thesis using unit by simp
  next
    case (Cons c s1)
    show ?thesis
    proof (cases "lower_alnum (of_char c)")
      case True
      then have "account_re (c # s1)" using 1 Cons by simp
      then show ?thesis using account_re_Cons 1 Cons by simp
    next
      case False
      then have c: "separator (of_char c)" "ok_from True s1" using 1 Cons by auto
      then obtain y s2 where y: "s1 = y # s2" "lower_alnum (of_char y)" "ok_from False s2"
        by (cases s1) (auto split: if_splits)
      then have "account_re (y # s2)" using 1 Cons by simp
      then show ?thesis using account_re_sep c 1 Cons y by simp
    qed
  qed
qed

lemma account_re_iff: "account_re s \<longleftrightarrow> ok_from True s"
proof
  assume "ok_from True s"
  then show "account_re s"
    by (cases s) (auto intro: ok_account_re split: if_splits)
qed (rule account_re_ok)

lemma ok_from_ascii: "ok_from b s \<Longrightarrow> list_all is_ascii s"
  by (induction s arbitrary: b)
    (auto simp: is_ascii_def lower_alnum_def separator_def split: if_splits)

lemma validate_chars_ascii:
  "list_all is_ascii s \<Longrightarrow> validate_chars (map of_char s) i b t = Ok () \<longleftrightarrow> ok_from b s"
  by (induction s arbitrary: i b t) (auto simp: Let_def)

lemma validate_chars_Ok_ascii: "validate_chars (str_chars s) i b t = Ok () \<Longrightarrow> list_all is_ascii s"
proof (induction s arbitrary: i b t)
  case (Cons c s)
  show ?case
  proof (cases "is_ascii c")
    case True
    then have "str_chars (c # s) = of_char c # str_chars s" by (simp add: is_ascii_def)
    then show ?thesis
      using Cons True by (auto simp: Let_def split: if_splits)
  next
    case False
    then obtain n ns where "str_chars (c # s) = n # ns" "128 \<le> n"
      using str_chars_non_ascii by blast
    then have "validate_chars (str_chars (c # s)) i b t \<noteq> Ok ()"
      by (simp add: Let_def lower_alnum_def separator_def)
    then show ?thesis using Cons.prems by contradiction
  qed
qed simp

lemma validate_chars_iff: "validate_chars (str_chars s) 0 True None = Ok () \<longleftrightarrow> account_re s"
  unfolding account_re_iff
  by (metis ok_from_ascii str_chars_ascii validate_chars_Ok_ascii validate_chars_ascii)

lemma validate_format_const_iff:
  "0 < i \<Longrightarrow> validate_format_const s i b = Ok () \<longleftrightarrow> ok_from b s"
  by (induction s arbitrary: i b) auto

lemma validate_const_iff:
  "validate_const s = Ok () \<longleftrightarrow> MIN_LEN \<le> length s \<and> length s \<le> MAX_LEN \<and> account_re s"
  by (cases s) (auto simp: validate_const_def account_re_iff validate_format_const_iff MIN_LEN_def Suc_le_eq)

section \<open>Kinds and parents\<close>

text \<open>
  What BIP-173 and BIP-350 say of a decoded SegWit address: the string is the
  human-readable part (in either case), the separator \<open>1\<close>, one character for the
  witness version, the program in groups of five bits, and six checksum characters.
\<close>

definition segwit_shape :: "'e crypto_scheme \<Rightarrow> bool" where
  "segwit_shape C \<longleftrightarrow>
     (\<forall>s hrp v p. segwit_decode C s = Some (hrp, v, p) \<longrightarrow>
        starts_with (to_lowercase s) (hrp @ ''1'')
        \<and> length s = length hrp + 8 + (8 * length p + 4) div 5)"

lemma bitcoin_implicit_no_zero_head:
  assumes "bs58_alphabet_only C" "segwit_shape C" "is_bitcoin_implicit C (CHR ''0'' # s)"
  shows False
  using assms(3) unfolding is_bitcoin_implicit_def
proof (elim disjE)
  assume "has_valid_base58check_address C (CHR ''0'' # s)"
  then obtain d where "bs58_decode C (CHR ''0'' # s) = Some d"
    by (auto simp: has_valid_base58check_address_def split: if_splits option.splits)
  then have "list_all (\<lambda>c. c \<in> set base58_alphabet) (CHR ''0'' # s)"
    using assms(1) unfolding bs58_alphabet_only_def by blast
  then show False by (simp add: base58_alphabet_def)
next
  assume "has_valid_segwit_address C (CHR ''0'' # s)"
  then obtain hrp v q where d: "segwit_decode C (CHR ''0'' # s) = Some (hrp, v, q)"
    and h: "hrp = ''bc'' \<or> hrp = ''tb'' \<or> hrp = ''bcrt''"
    by (auto simp: has_valid_segwit_address_def split: option.splits)
  have "starts_with (to_lowercase (CHR ''0'' # s)) (hrp @ ''1'')"
    using assms(2) d unfolding segwit_shape_def by blast
  then show False
    using h by (auto simp: starts_with_def to_lowercase_def char_lower_def)
next
  assume "is_legacy_lowercased_bitcoin (CHR ''0'' # s)"
  then show False
    by (simp add: is_legacy_lowercased_bitcoin_def starts_with_def Let_def split: if_splits)
qed

lemma hex_not_segwit:
  assumes "segwit_shape C" "is_near_implicit s" "has_valid_segwit_address C s"
  shows False
proof -
  obtain hrp v q where d: "segwit_decode C s = Some (hrp, v, q)"
    and h: "hrp = ''bc'' \<or> hrp = ''tb'' \<or> hrp = ''bcrt''"
    using assms(3) by (auto simp: has_valid_segwit_address_def split: option.splits)
  have sh: "starts_with (to_lowercase s) (hrp @ ''1'')"
    and len: "64 = length hrp + 8 + (8 * length q + 4) div 5"
    using assms(1,2) d by (auto simp: segwit_shape_def is_near_implicit_def)
  have "\<not> (8 * length q + 4) div 5 = 54" by presburger
  then have "hrp \<noteq> ''bc''" "hrp \<noteq> ''tb''" using len by auto
  then have r: "hrp = ''bcrt''" using h by blast
  obtain a b c t where s: "s = a # b # c # t"
    using assms(2) by (cases s; cases "tl s"; cases "tl (tl s)") (auto simp: is_near_implicit_def)
  have "char_lower c = CHR ''r''"
    using sh by (simp add: r s starts_with_def to_lowercase_def)
  moreover have "lower_hex (of_char c)"
    using assms(2) by (simp add: s is_near_implicit_def)
  ultimately show False
    by (auto simp: char_lower_def lower_hex_def Let_def split: if_splits)
qed

lemma near_implicit_not_bitcoin:
  assumes "segwit_shape C" "is_near_implicit s"
  shows "\<not> is_bitcoin_implicit C s"
proof -
  have "length s = 64" using assms(2) by (simp add: is_near_implicit_def)
  then have "\<not> has_valid_base58check_address C s" "\<not> is_legacy_lowercased_bitcoin s"
    by (auto simp: has_valid_base58check_address_def is_legacy_lowercased_bitcoin_def Let_def)
  then show ?thesis using hex_not_segwit assms by (auto simp: is_bitcoin_implicit_def)
qed

lemma zero_prefix_not_bitcoin:
  assumes "bs58_alphabet_only C" "segwit_shape C" "starts_with s [CHR ''0'', x]"
  shows "\<not> is_bitcoin_implicit C s"
  using assms bitcoin_implicit_no_zero_head by (cases s) (auto simp: starts_with_def)

lemma eth_not_deterministic: "is_eth_implicit s \<Longrightarrow> \<not> is_near_deterministic s"
  by (auto simp: is_eth_implicit_def is_near_deterministic_def starts_with_def)

lemma split_once_Some:
  "split_once d s = Some (a, b) \<longleftrightarrow> s = a @ d # b \<and> d \<notin> set a"
proof (induction s arbitrary: a)
  case IH: (Cons c s)
  show ?case
  proof (cases a)
    case Nil
    then show ?thesis by (auto split: option.splits)
  next
    case (Cons x a')
    have "split_once d (c # s) = Some (x # a', b) \<longleftrightarrow>
        c \<noteq> d \<and> x = c \<and> split_once d s = Some (a', b)"
      by auto
    then show ?thesis using IH.IH [of a'] Cons by auto
  qed
qed simp

lemma get_parent_Some:
  "get_parent_account_id s = Some p \<longleftrightarrow> (\<exists>a. s = a @ CHR ''.'' # p \<and> CHR ''.'' \<notin> set a)"
  by (auto simp: get_parent_account_id_def split_once_Some)

lemma strip_suffix_Some: "strip_suffix s p = Some a \<longleftrightarrow> s = a @ p"
  by (auto simp: strip_suffix_def suffix_def)

lemma is_sub_account_of_iff:
  "is_sub_account_of s p \<longleftrightarrow> (\<exists>a. s = a @ CHR ''.'' # p \<and> CHR ''.'' \<notin> set a)"
proof -
  have "is_sub_account_of s p \<longleftrightarrow>
    (\<exists>a. strip_suffix s p = Some a \<and> (\<exists>b. strip_suffix a ''.'' = Some b \<and> CHR ''.'' \<notin> set b))"
    by (auto simp: is_sub_account_of_def split: option.splits)
  then show ?thesis by (auto simp: strip_suffix_Some)
qed

lemma ok_from_split: "ok_from b (a @ CHR ''.'' # p) \<Longrightarrow> ok_from True p"
  by (induction a arbitrary: b) (auto split: if_splits)

section \<open>Properties\<close>

text \<open>
  C22: \<open>validate\<close> accepts exactly the strings of 2 to 64 bytes that are Bitcoin
  addresses or words of the documented regular expression; the separator automaton over
  the decoded characters is equivalent to the grammar, non-ASCII input included.
\<close>

theorem validate_iff_grammar:
  "validate C s = Ok () \<longleftrightarrow>
     MIN_LEN \<le> length s \<and> length s \<le> MAX_LEN \<and> (is_bitcoin_implicit C s \<or> account_re s)"
  by (auto simp: validate_def validate_chars_iff)

text \<open>
  C25: The \<open>const\<close> validator behind \<open>new_or_panic\<close> accepts exactly those valid account
  identifiers that are words of the NEAR grammar: it agrees with \<open>validate\<close> on them and
  panics on every other identifier \<open>validate\<close> accepts, such as a mixed-case Bitcoin
  address.
\<close>

theorem validate_const_stricter:
  "validate_const s = Ok () \<longleftrightarrow> validate C s = Ok () \<and> account_re s"
  by (auto simp: validate_const_iff validate_def validate_chars_iff)

text \<open>
  C23: The four implicit kinds are told apart by their own shape alone. With Base58 and
  SegWit decoders that accept only strings of their documented form, the Bitcoin test, which
  \<open>get_account_type\<close> makes first, never captures an Ethereum, NEAR or deterministic
  implicit account, so each kind is reported exactly for the strings of its shape.
\<close>

theorem account_types_disjoint:
  assumes "bs58_alphabet_only C" "segwit_shape C"
  shows "(get_account_type C s = EthImplicitAccount \<longleftrightarrow> is_eth_implicit s)
    \<and> (get_account_type C s = NearImplicitAccount \<longleftrightarrow> is_near_implicit s)
    \<and> (get_account_type C s = NearDeterministicAccount \<longleftrightarrow> is_near_deterministic s)
    \<and> (get_account_type C s = BtcImplicitAccount \<longleftrightarrow> is_bitcoin_implicit C s)"
proof -
  have "is_eth_implicit s \<or> is_near_deterministic s \<Longrightarrow> \<not> is_bitcoin_implicit C s"
    using zero_prefix_not_bitcoin [OF assms, of s]
    by (auto simp: is_eth_implicit_def is_near_deterministic_def)
  moreover have "is_near_implicit s \<Longrightarrow> \<not> is_bitcoin_implicit C s"
    by (rule near_implicit_not_bitcoin [OF assms(2)])
  moreover have "is_near_implicit s \<Longrightarrow> \<not> is_eth_implicit s \<and> \<not> is_near_deterministic s"
    by (simp add: is_near_implicit_def is_eth_implicit_def is_near_deterministic_def)
  ultimately show ?thesis
    using eth_not_deterministic [of s] by (auto simp: get_account_type_def)
qed

theorem account_types_disjoint_witness:
  "get_account_type toy_crypto (''0x'' @ replicate 40 CHR ''a'') = EthImplicitAccount"
proof -
  have "segwit_shape toy_crypto" by (simp add: segwit_shape_def toy_crypto_def)
  moreover have "is_eth_implicit (''0x'' @ replicate 40 CHR ''a'')"
    by (simp add: is_eth_implicit_def starts_with_def lower_hex_def list_all_iff)
  ultimately show ?thesis
    using account_types_disjoint [OF toy_alphabet_only, of "''0x'' @ replicate 40 CHR ''a''"]
    by blast
qed



end
