(* ===== verification/Fees.thy ===== *)
theory Fees
  imports Runtime_Types Account_Id
begin

text \<open>
  Gas fees and the cost of a transaction: \<open>runtime/runtime/src/config.rs\<close> and the transfer
  fees of \<open>core/parameters/src/cost.rs\<close>. A failed \<open>unwrap\<close> of a checked operation is
  the error \<open>FeePanic\<close>; an \<open>IntegerOverflowError\<close> is returned as the code returns it.
  \<open>fees.fee(cost)\<close> is the function \<open>action_fees\<close> of the configuration.
\<close>

section \<open>Configuration\<close>

datatype ActionCosts =
    cost_create_account | cost_delete_account | cost_deploy_contract_base
  | cost_deploy_contract_byte | cost_function_call_base | cost_function_call_byte
  | cost_transfer | cost_stake | cost_add_full_access_key | cost_add_function_call_key_base
  | cost_add_function_call_key_byte | cost_delete_key | cost_new_action_receipt
  | cost_new_data_receipt_base | cost_new_data_receipt_byte | cost_delegate
  | cost_deploy_global_contract_base | cost_deploy_global_contract_byte
  | cost_use_global_contract_base | cost_use_global_contract_byte
  | cost_deterministic_state_init_base | cost_deterministic_state_init_byte
  | cost_deterministic_state_init_entry

record Fee =
  send_sir :: Gas
  send_not_sir :: Gas
  execution :: Gas

definition send_fee :: "bool \<Rightarrow> Fee \<Rightarrow> Gas" where
  "send_fee sir f = (if sir then send_sir f else send_not_sir f)"

record StorageUsageConfig =
  storage_amount_per_byte :: Balance
  num_bytes_account :: u64
  num_extra_bytes_record :: u64
  global_contract_storage_amount_per_byte :: Balance

record RuntimeFeesConfig =
  action_fees :: "ActionCosts \<Rightarrow> Fee"
  storage_usage_config :: StorageUsageConfig
  burnt_gas_reward :: "u32 \<times> u32"
  gas_refund_penalty :: "u32 \<times> u32"
  min_gas_refund_penalty :: Gas

datatype AccountIdValidityRulesVersion = RulesV0 | RulesV1 | RulesV2

record LimitConfig =
  max_total_prepaid_gas :: Gas
  max_actions_per_receipt :: u64
  max_number_bytes_method_names :: u64
  max_length_method_name :: u64
  max_arguments_length :: u64
  max_contract_size :: u64
  max_transaction_size :: u64
  max_length_storage_key :: u64
  max_length_storage_value :: u64
  max_length_returned_data :: u64
  max_receipt_size :: u64
  max_number_input_data_dependencies :: u64
  account_id_validity_rules_version :: AccountIdValidityRulesVersion

record RuntimeConfig =
  fees :: RuntimeFeesConfig
  eth_implicit_accounts :: bool
  deterministic_account_ids :: bool
  limit_config :: LimitConfig
  min_allowed_top_level_account_length :: u8
  registrar_account_id :: AccountId
  use_state_stored_receipt :: bool

datatype FeeError = IntegerOverflowError | FeePanic

section \<open>Checked sums\<close>

definition safe_gas_to_balance :: "Balance \<Rightarrow> Gas \<Rightarrow> (Balance, FeeError) result" where
  "safe_gas_to_balance gas_price gas = ok_or (checked_mul gas_price (ucast gas)) IntegerOverflowError"

definition safe_add_balance :: "Balance \<Rightarrow> Balance \<Rightarrow> (Balance, FeeError) result" where
  "safe_add_balance a b = ok_or (checked_add a b) IntegerOverflowError"

definition checked_add_result :: "Gas \<Rightarrow> Gas \<Rightarrow> (Gas, FeeError) result" where
  "checked_add_result a b = ok_or (checked_add a b) IntegerOverflowError"

definition unwrap_add :: "Gas \<Rightarrow> Gas \<Rightarrow> (Gas, FeeError) result" where
  "unwrap_add a b = ok_or (checked_add a b) FeePanic"

definition unwrap_mul :: "Gas \<Rightarrow> u64 \<Rightarrow> (Gas, FeeError) result" where
  "unwrap_mul a n = ok_or (checked_mul a n) FeePanic"

text \<open>A base fee and a fee per byte: \<open>base_fee + byte_fee * num_bytes\<close>, both unwrapped.\<close>

definition base_plus_bytes :: "Gas \<Rightarrow> Gas \<Rightarrow> u64 \<Rightarrow> (Gas, FeeError) result" where
  "base_plus_bytes base_fee byte_fee num_bytes =
     result_bind (unwrap_mul byte_fee num_bytes) (\<lambda>all_bytes_fee. unwrap_add base_fee all_bytes_fee)"

definition state_init_fee ::
  "Gas \<Rightarrow> Gas \<Rightarrow> Gas \<Rightarrow> DeterministicAccountStateInit \<Rightarrow> (Gas, FeeError) result" where
  "state_init_fee base_fee entry_fee byte_fee si =
     result_bind (unwrap_mul entry_fee (word_of_nat (length (si_data si)))) (\<lambda>all_entries_fee.
     result_bind (unwrap_mul byte_fee (word_of_nat (len_bytes si))) (\<lambda>all_bytes_fee.
     result_bind (unwrap_add base_fee all_bytes_fee) (\<lambda>s. unwrap_add s all_entries_fee)))"

definition method_names_bytes :: "string list \<Rightarrow> u64" where
  "method_names_bytes names = sum_list (map (\<lambda>name. word_of_nat (length name) + 1) names)"

fun contract_identifier_len :: "GlobalContractIdentifier \<Rightarrow> u64" where
  "contract_identifier_len (IdCodeHash h) = 32"
| "contract_identifier_len (IdAccountId a) = word_of_nat (length a)"

section \<open>Fees of actions\<close>

text \<open>
  The send and the execution fees differ only in the projection of a \<open>Fee\<close>: \<open>P\<close> is
  \<open>send_fee sir\<close> in \<open>transfer_send_fee\<close> and \<open>execution\<close> in \<open>transfer_exec_fee\<close>.
\<close>

definition transfer_fee_of ::
  "(Fee \<Rightarrow> Gas) \<Rightarrow> RuntimeFeesConfig \<Rightarrow> bool \<Rightarrow> AccountType \<Rightarrow> (Gas, FeeError) result" where
  "transfer_fee_of P cfg eth_enabled t =
     (let transfer_fee = P (action_fees cfg cost_transfer);
          create_fee = P (action_fees cfg cost_create_account);
          key_fee = P (action_fees cfg cost_add_full_access_key)
      in case t of
           NamedAccount \<Rightarrow> Ok transfer_fee
         | EthImplicitAccount \<Rightarrow>
             if eth_enabled then unwrap_add transfer_fee create_fee else Ok transfer_fee
         | NearImplicitAccount \<Rightarrow>
             result_bind (unwrap_add transfer_fee create_fee) (\<lambda>s. unwrap_add s key_fee)
         | NearDeterministicAccount \<Rightarrow> unwrap_add transfer_fee create_fee
         | BtcImplicitAccount \<Rightarrow> unwrap_add transfer_fee create_fee)"

definition transfer_send_fee ::
  "RuntimeFeesConfig \<Rightarrow> bool \<Rightarrow> bool \<Rightarrow> AccountType \<Rightarrow> (Gas, FeeError) result" where
  "transfer_send_fee cfg sir eth_enabled t = transfer_fee_of (send_fee sir) cfg eth_enabled t"

definition transfer_exec_fee ::
  "RuntimeFeesConfig \<Rightarrow> bool \<Rightarrow> AccountType \<Rightarrow> (Gas, FeeError) result" where
  "transfer_exec_fee cfg eth_enabled t = transfer_fee_of execution cfg eth_enabled t"

fun permission_fees ::
  "(Fee \<Rightarrow> Gas) \<Rightarrow> AccessKeyPermission \<Rightarrow> RuntimeFeesConfig \<Rightarrow> (Gas, FeeError) result" where
  "permission_fees P (FunctionCallPerm p) cfg =
     base_plus_bytes (P (action_fees cfg cost_add_function_call_key_base))
       (P (action_fees cfg cost_add_function_call_key_byte)) (method_names_bytes (method_names p))"
| "permission_fees P FullAccess cfg = Ok (P (action_fees cfg cost_add_full_access_key))"
| "permission_fees P (GasKeyFullAccess _) cfg = Ok 0"
| "permission_fees P (GasKeyFunctionCall _ _) cfg = Ok 0"

definition permission_send_fees ::
  "AccessKeyPermission \<Rightarrow> RuntimeFeesConfig \<Rightarrow> bool \<Rightarrow> (Gas, FeeError) result" where
  "permission_send_fees p cfg sir = permission_fees (send_fee sir) p cfg"

definition permission_exec_fees ::
  "AccessKeyPermission \<Rightarrow> RuntimeFeesConfig \<Rightarrow> (Gas, FeeError) result" where
  "permission_exec_fees p cfg = permission_fees execution p cfg"

text \<open>
  The fee of one action, without the inner actions of a delegate action: the branches of
  \<open>total_send_fees\<close> and \<open>exec_fee\<close>, which are the same up to the projection \<open>P\<close>.
\<close>

fun action_fee_of ::
  "'e crypto_scheme \<Rightarrow> (Fee \<Rightarrow> Gas) \<Rightarrow> RuntimeConfig \<Rightarrow> AccountId \<Rightarrow> Action \<Rightarrow> (Gas, FeeError) result"
where
  "action_fee_of C P config receiver_id CreateAccount =
     Ok (P (action_fees (fees config) cost_create_account))"
| "action_fee_of C P config receiver_id (DeployContract code) =
     base_plus_bytes (P (action_fees (fees config) cost_deploy_contract_base))
       (P (action_fees (fees config) cost_deploy_contract_byte)) (word_of_nat (length code))"
| "action_fee_of C P config receiver_id (FunctionCall a) =
     base_plus_bytes (P (action_fees (fees config) cost_function_call_base))
       (P (action_fees (fees config) cost_function_call_byte))
       (word_of_nat (length (method_name a)) + word_of_nat (length (fc_args a)))"
| "action_fee_of C P config receiver_id (Transfer _) =
     transfer_fee_of P (fees config) (eth_implicit_accounts config) (get_account_type C receiver_id)"
| "action_fee_of C P config receiver_id (Stake _ _) =
     Ok (P (action_fees (fees config) cost_stake))"
| "action_fee_of C P config receiver_id (AddKey _ k) = permission_fees P (permission k) (fees config)"
| "action_fee_of C P config receiver_id (DeleteKey _) =
     Ok (P (action_fees (fees config) cost_delete_key))"
| "action_fee_of C P config receiver_id (DeleteAccount _) =
     Ok (P (action_fees (fees config) cost_delete_account))"
| "action_fee_of C P config receiver_id (Delegate _ _) =
     Ok (P (action_fees (fees config) cost_delegate))"
| "action_fee_of C P config receiver_id (DeployGlobalContract code _) =
     base_plus_bytes (P (action_fees (fees config) cost_deploy_global_contract_base))
       (P (action_fees (fees config) cost_deploy_global_contract_byte)) (word_of_nat (length code))"
| "action_fee_of C P config receiver_id (UseGlobalContract i) =
     base_plus_bytes (P (action_fees (fees config) cost_use_global_contract_base))
       (P (action_fees (fees config) cost_use_global_contract_byte)) (contract_identifier_len i)"
| "action_fee_of C P config receiver_id (DeterministicStateInit si _) =
     state_init_fee (P (action_fees (fees config) cost_deterministic_state_init_base))
       (P (action_fees (fees config) cost_deterministic_state_init_entry))
       (P (action_fees (fees config) cost_deterministic_state_init_byte)) si"
| "action_fee_of C P config receiver_id (TransferToGasKey _ _) = Ok 0"
| "action_fee_of C P config receiver_id (WithdrawFromGasKey _ _) = Ok 0"

fun total_send_fees ::
  "'e crypto_scheme \<Rightarrow> RuntimeConfig \<Rightarrow> bool \<Rightarrow> AccountId \<Rightarrow> Action list \<Rightarrow> Gas \<Rightarrow> (Gas, FeeError) result"
and send_delta ::
  "'e crypto_scheme \<Rightarrow> RuntimeConfig \<Rightarrow> bool \<Rightarrow> AccountId \<Rightarrow> Action \<Rightarrow> (Gas, FeeError) result"
where
  "total_send_fees C config sir receiver_id [] acc = Ok acc"
| "total_send_fees C config sir receiver_id (a # as) acc =
     result_bind (send_delta C config sir receiver_id a) (\<lambda>delta.
     result_bind (checked_add_result acc delta) (\<lambda>acc'.
       total_send_fees C config sir receiver_id as acc'))"
| "send_delta C config sir receiver_id (Delegate (DelegateAction _ r as _ _ _) _) =
     result_bind (total_send_fees C config sir r as 0) (\<lambda>inner.
       unwrap_add (send_fee sir (action_fees (fees config) cost_delegate)) inner)"
| "send_delta C config sir receiver_id a = action_fee_of C (send_fee sir) config receiver_id a"

fun total_prepaid_send_fees ::
  "'e crypto_scheme \<Rightarrow> RuntimeConfig \<Rightarrow> Action list \<Rightarrow> Gas \<Rightarrow> (Gas, FeeError) result" where
  "total_prepaid_send_fees C config [] acc = Ok acc"
| "total_prepaid_send_fees C config (a # as) acc =
     result_bind
       (case a of
          Delegate d _ \<Rightarrow>
            total_send_fees C config (da_sender_id d = da_receiver_id d) (da_receiver_id d)
              (da_actions d) 0
        | _ \<Rightarrow> Ok 0)
       (\<lambda>delta. result_bind (checked_add_result acc delta) (\<lambda>acc'.
          total_prepaid_send_fees C config as acc'))"

definition exec_fee ::
  "'e crypto_scheme \<Rightarrow> RuntimeConfig \<Rightarrow> Action \<Rightarrow> AccountId \<Rightarrow> (Gas, FeeError) result" where
  "exec_fee C config a receiver_id = action_fee_of C execution config receiver_id a"

fun total_prepaid_exec_fees ::
  "'e crypto_scheme \<Rightarrow> RuntimeConfig \<Rightarrow> AccountId \<Rightarrow> Action list \<Rightarrow> Gas \<Rightarrow> (Gas, FeeError) result"
and exec_delta ::
  "'e crypto_scheme \<Rightarrow> RuntimeConfig \<Rightarrow> AccountId \<Rightarrow> Action \<Rightarrow> (Gas, FeeError) result"
where
  "total_prepaid_exec_fees C config receiver_id [] acc = Ok acc"
| "total_prepaid_exec_fees C config receiver_id (a # as) acc =
     result_bind (exec_delta C config receiver_id a) (\<lambda>delta.
     result_bind (checked_add_result acc delta) (\<lambda>acc'.
       total_prepaid_exec_fees C config receiver_id as acc'))"
| "exec_delta C config receiver_id (Delegate (DelegateAction s r as n m pk) sig) =
     result_bind (total_prepaid_exec_fees C config r as 0) (\<lambda>d1.
     result_bind (exec_fee C config (Delegate (DelegateAction s r as n m pk) sig) r) (\<lambda>f.
     result_bind (checked_add_result d1 f) (\<lambda>d2.
       checked_add_result d2 (execution (action_fees (fees config) cost_new_action_receipt)))))"
| "exec_delta C config receiver_id a = exec_fee C config a receiver_id"

fun total_deposit :: "Action list \<Rightarrow> Balance \<Rightarrow> (Balance, FeeError) result"
and action_deposit :: "Action \<Rightarrow> (Balance, FeeError) result"
where
  "total_deposit [] acc = Ok acc"
| "total_deposit (a # as) acc =
     result_bind (action_deposit a) (\<lambda>b.
     result_bind (safe_add_balance acc b) (\<lambda>acc'. total_deposit as acc'))"
| "action_deposit (Delegate (DelegateAction _ _ as _ _ _) _) = total_deposit as 0"
| "action_deposit a = Ok (get_deposit_balance a)"

fun total_prepaid_gas :: "Action list \<Rightarrow> Gas \<Rightarrow> (Gas, FeeError) result"
and action_gas :: "Action \<Rightarrow> (Gas, FeeError) result"
where
  "total_prepaid_gas [] acc = Ok acc"
| "total_prepaid_gas (a # as) acc =
     result_bind (action_gas a) (\<lambda>g.
     result_bind (checked_add_result acc g) (\<lambda>acc'. total_prepaid_gas as acc'))"
| "action_gas (Delegate (DelegateAction _ _ as _ _ _) _) = total_prepaid_gas as 0"
| "action_gas a = Ok (get_prepaid_gas a)"

section \<open>Transaction cost\<close>

record TransactionCost =
  gas_burnt :: Gas
  gas_remaining :: Gas
  receipt_gas_price :: Balance
  burnt_amount :: Balance
  gas_cost :: Balance
  deposit_cost :: Balance
  total_cost :: Balance

definition calculate_tx_cost ::
  "'e crypto_scheme \<Rightarrow> AccountId \<Rightarrow> AccountId \<Rightarrow> Action list \<Rightarrow> RuntimeConfig \<Rightarrow> Balance
     \<Rightarrow> (TransactionCost, FeeError) result" where
  "calculate_tx_cost C receiver_id signer_id actions config price =
     (let sir = (receiver_id = signer_id);
          receipt_fee = action_fees (fees config) cost_new_action_receipt in
      result_bind (total_send_fees C config sir receiver_id actions 0) (\<lambda>sf.
      result_bind (checked_add_result (send_fee sir receipt_fee) sf) (\<lambda>burnt.
      result_bind (total_prepaid_gas actions 0) (\<lambda>pg.
      result_bind (total_prepaid_send_fees C config actions 0) (\<lambda>psf.
      result_bind (checked_add_result pg psf) (\<lambda>prepaid_gas.
      result_bind (checked_add_result prepaid_gas (execution receipt_fee)) (\<lambda>rem1.
      result_bind (total_prepaid_exec_fees C config receiver_id actions 0) (\<lambda>ef.
      result_bind (checked_add_result rem1 ef) (\<lambda>remaining.
      result_bind (safe_gas_to_balance price burnt) (\<lambda>b_amount.
      result_bind (safe_gas_to_balance price remaining) (\<lambda>r_amount.
      result_bind (safe_add_balance b_amount r_amount) (\<lambda>g_cost.
      result_bind (total_deposit actions 0) (\<lambda>d_cost.
      result_bind (safe_add_balance g_cost d_cost) (\<lambda>t_cost.
        Ok \<lparr> gas_burnt = burnt, gas_remaining = remaining, receipt_gas_price = price,
             burnt_amount = b_amount, gas_cost = g_cost, deposit_cost = d_cost,
             total_cost = t_cost \<rparr>))))))))))))))"

text \<open>
  The penalty on refunded gas (NEP-536). The ratio is a pair of i32, widened by sign extension;
  the product, the division and the conversion back to u64 panic when they do not fit.
\<close>

definition gas_penalty_for_gas_refund :: "RuntimeFeesConfig \<Rightarrow> Gas \<Rightarrow> (Gas, FeeError) result" where
  "gas_penalty_for_gas_refund cfg gas_refund =
     (let numer = scast (fst (gas_refund_penalty cfg)) :: u128;
          denom = scast (snd (gas_refund_penalty cfg)) :: u128 in
      result_bind (ok_or (checked_mul (ucast gas_refund) numer) FeePanic) (\<lambda>product.
        if denom = 0 \<or> 2 ^ 64 \<le> unat (product div denom) then Err FeePanic
        else (let relative_cost = ucast (product div denom);
                  penalty = max relative_cost (min_gas_refund_penalty cfg)
              in Ok (min penalty gas_refund))))"

lemma penalty_at_most_refund: "gas_penalty_for_gas_refund cfg g = Ok p \<Longrightarrow> p \<le> g"
  by (auto simp: gas_penalty_for_gas_refund_def result_simps Let_def split: if_splits)

section \<open>Sums are exact\<close>

text \<open>The sums that the checked loops compute, on natural numbers.\<close>

fun deposits :: "Action list \<Rightarrow> nat" and deposit_of :: "Action \<Rightarrow> nat" where
  "deposits [] = 0"
| "deposits (a # as) = deposit_of a + deposits as"
| "deposit_of (Delegate (DelegateAction _ _ as _ _ _) _) = deposits as"
| "deposit_of a = unat (get_deposit_balance a)"

fun prepaid_gas_sum :: "Action list \<Rightarrow> nat" and gas_of :: "Action \<Rightarrow> nat" where
  "prepaid_gas_sum [] = 0"
| "prepaid_gas_sum (a # as) = gas_of a + prepaid_gas_sum as"
| "gas_of (Delegate (DelegateAction _ _ as _ _ _) _) = prepaid_gas_sum as"
| "gas_of a = unat (get_prepaid_gas a)"

lemmas checked_ops = safe_add_balance_def safe_gas_to_balance_def checked_add_result_def
  unwrap_add_def unwrap_mul_def

lemma checked_step:
  assumes "\<And>b. m = Ok b \<longleftrightarrow> unat b = x"
    and "\<And>acc' r. f acc' = Ok r \<longleftrightarrow> unat r = unat acc' + y"
  shows "result_bind m (\<lambda>b. result_bind (ok_or (checked_add acc b) e) f) = Ok r
    \<longleftrightarrow> unat (r::'a::len word) = unat (acc::'a word) + (x + y)"
proof
  assume "result_bind m (\<lambda>b. result_bind (ok_or (checked_add acc b) e) f) = Ok r"
  then show "unat r = unat acc + (x + y)"
    by (auto simp: result_simps assms rust_int)
next
  assume eq: "unat r = unat acc + (x + y)"
  then have "unat r = x + (unat acc + y)" by simp
  then obtain b :: "'a word" where b: "unat b = x" using ex_word_add(1) by blast
  have "unat r = (unat acc + x) + y" using eq by simp
  then obtain c :: "'a word" where c: "unat c = unat acc + x" using ex_word_add(1) by blast
  then have "checked_add acc b = Some c" using b by (simp add: rust_int)
  then show "result_bind m (\<lambda>b. result_bind (ok_or (checked_add acc b) e) f) = Ok r"
    using assms(1) [of b] assms(2) [of c r] b c eq by simp
qed

lemma total_deposit_iff:
  "total_deposit as acc = Ok r \<longleftrightarrow> unat r = unat acc + deposits as"
  "action_deposit a = Ok r \<longleftrightarrow> unat r = deposit_of a"
proof (induction as acc and a arbitrary: r and r rule: total_deposit_action_deposit.induct)
  case (2 a as acc)
  show ?case
    unfolding total_deposit.simps deposits.simps safe_add_balance_def
    by (rule checked_step) (use 2 in \<open>auto simp: result_simps safe_add_balance_def\<close>)
qed (auto simp: word_unat_eq_iff)

lemma total_prepaid_gas_iff:
  "total_prepaid_gas as acc = Ok r \<longleftrightarrow> unat r = unat acc + prepaid_gas_sum as"
  "action_gas a = Ok r \<longleftrightarrow> unat r = gas_of a"
proof (induction as acc and a arbitrary: r and r rule: total_prepaid_gas_action_gas.induct)
  case (2 a as acc)
  show ?case
    unfolding total_prepaid_gas.simps prepaid_gas_sum.simps checked_add_result_def
    by (rule checked_step) (use 2 in \<open>auto simp: result_simps checked_add_result_def\<close>)
qed (auto simp: word_unat_eq_iff)

section \<open>Properties\<close>

text \<open>A configuration in which every fee is one unit of gas, for the witnesses.\<close>

definition unit_fee :: Fee where
  "unit_fee = \<lparr> send_sir = 1, send_not_sir = 1, execution = 1 \<rparr>"

definition unit_config :: RuntimeConfig where
  "unit_config = \<lparr>
     fees = \<lparr> action_fees = (\<lambda>_. unit_fee),
       storage_usage_config = \<lparr> storage_amount_per_byte = 1, num_bytes_account = 100,
         num_extra_bytes_record = 40, global_contract_storage_amount_per_byte = 1 \<rparr>,
       burnt_gas_reward = (3, 10), gas_refund_penalty = (5, 100), min_gas_refund_penalty = 0 \<rparr>,
     eth_implicit_accounts = True, deterministic_account_ids = True,
     limit_config = \<lparr> max_total_prepaid_gas = 300, max_actions_per_receipt = 100,
       max_number_bytes_method_names = 2000, max_length_method_name = 256,
       max_arguments_length = 4000, max_contract_size = 4000, max_transaction_size = 4000,
       max_length_storage_key = 2048, max_length_storage_value = 4000,
       max_length_returned_data = 4000, max_receipt_size = 4000,
       max_number_input_data_dependencies = 128,
       account_id_validity_rules_version = RulesV2 \<rparr>,
     min_allowed_top_level_account_length = 0,
     registrar_account_id = ''registrar'', use_state_stored_receipt = True \<rparr>"

text \<open>
  C26: The cost computed for a transaction is exact. When \<open>calculate_tx_cost\<close> succeeds, the
  total is the gas price times all the gas (burnt and remaining) plus every attached
  deposit, those inside a delegate action included, with no wrap-around anywhere; the gas
  and the deposit parts are the two summands; and the remaining gas covers all the gas
  attached to function calls.
\<close>

theorem tx_cost_exact:
  assumes "calculate_tx_cost C receiver_id signer_id actions config price = Ok c"
  shows "unat (total_cost c)
      = unat price * (unat (gas_burnt c) + unat (gas_remaining c)) + deposits actions
    \<and> unat (burnt_amount c) = unat price * unat (gas_burnt c)
    \<and> unat (gas_cost c) = unat price * (unat (gas_burnt c) + unat (gas_remaining c))
    \<and> unat (deposit_cost c) = deposits actions
    \<and> prepaid_gas_sum actions \<le> unat (gas_remaining c)"
proof -
  have u: "unat (ucast g :: u128) = unat g" for g :: u64
    by (rule unat_ucast_up) simp
  show ?thesis
    using assms
    by (auto simp: calculate_tx_cost_def Let_def result_simps checked_ops rust_int
        total_deposit_iff total_prepaid_gas_iff u algebra_simps)
qed

theorem tx_cost_exact_witness:
  "\<exists>c. calculate_tx_cost toy_crypto ''bob'' ''alice'' [Transfer 5] unit_config 10 = Ok c
     \<and> unat (total_cost c) = 45"
proof -
  have t: "get_account_type toy_crypto ''bob'' = NamedAccount"
    by (simp add: get_account_type_def is_bitcoin_implicit_def has_valid_base58check_address_def
        has_valid_segwit_address_def is_legacy_lowercased_bitcoin_def starts_with_def
        is_eth_implicit_def is_near_implicit_def is_near_deterministic_def toy_crypto_def)
  obtain c where c: "calculate_tx_cost toy_crypto ''bob'' ''alice'' [Transfer 5] unit_config 10 = Ok c"
    and g: "gas_burnt c = 2" "gas_remaining c = 2"
    by (auto simp: calculate_tx_cost_def t transfer_fee_of_def unit_config_def unit_fee_def
        send_fee_def checked_ops checked_add_def checked_mul_def exec_fee_def Let_def)
  then show ?thesis using tx_cost_exact [OF c] by simp
qed

end
