(* ===== verification/Receipts.thy ===== *)
theory Receipts
  imports Tx_Types
begin

text \<open>
  Receipts, the messages between accounts, as \<open>core/primitives/src/receipt.rs\<close> has them:
  action receipts in two versions, data receipts, promise yields and resumes, and the receipts
  that distribute a global contract; the receipt of a transaction and the refunds that
  \<open>system\<close> sends. \<open>Receipt\<close> has a single version, so it is a record.
\<close>

type_synonym ShardId = u64

record ActionReceipt =
  ar_signer_id :: AccountId
  ar_signer_public_key :: PublicKey
  ar_gas_price :: Balance
  ar_output_data_receivers :: "(CryptoHash \<times> AccountId) list"
  ar_input_data_ids :: "CryptoHash list"
  ar_actions :: "Action list"

record ActionReceiptV2 =
  ar2_signer_id :: AccountId
  ar2_refund_to :: "AccountId option"
  ar2_signer_public_key :: PublicKey
  ar2_gas_price :: Balance
  ar2_output_data_receivers :: "(CryptoHash \<times> AccountId) list"
  ar2_input_data_ids :: "CryptoHash list"
  ar2_actions :: "Action list"

record DataReceipt =
  dr_data_id :: CryptoHash
  dr_data :: "bytes option"

record GlobalContractDistributionReceiptV1 =
  gcd1_id :: GlobalContractIdentifier
  gcd1_target_shard :: ShardId
  gcd1_already_delivered_shards :: "ShardId list"
  gcd1_code :: bytes

record GlobalContractDistributionReceiptV2 =
  gcd2_id :: GlobalContractIdentifier
  gcd2_target_shard :: ShardId
  gcd2_already_delivered_shards :: "ShardId list"
  gcd2_code :: bytes
  gcd2_nonce :: u64

datatype GlobalContractDistributionReceipt =
    GcdV1 GlobalContractDistributionReceiptV1
  | GcdV2 GlobalContractDistributionReceiptV2

datatype ReceiptEnum =
    RAction ActionReceipt
  | RData DataReceipt
  | RPromiseYield ActionReceipt
  | RPromiseResume DataReceipt
  | RGlobalContractDistribution GlobalContractDistributionReceipt
  | RActionV2 ActionReceiptV2
  | RPromiseYieldV2 ActionReceiptV2

record Receipt =
  r_predecessor_id :: AccountId
  r_receiver_id :: AccountId
  r_receipt_id :: CryptoHash
  r_receipt :: ReceiptEnum

section \<open>Both versions of an action receipt\<close>

datatype VersionedActionReceipt = ArV1 ActionReceipt | ArV2 ActionReceiptV2

fun va_signer_id :: "VersionedActionReceipt \<Rightarrow> AccountId" where
  "va_signer_id (ArV1 a) = ar_signer_id a"
| "va_signer_id (ArV2 a) = ar2_signer_id a"

fun va_refund_to :: "VersionedActionReceipt \<Rightarrow> AccountId option" where
  "va_refund_to (ArV1 a) = None"
| "va_refund_to (ArV2 a) = ar2_refund_to a"

fun va_signer_public_key :: "VersionedActionReceipt \<Rightarrow> PublicKey" where
  "va_signer_public_key (ArV1 a) = ar_signer_public_key a"
| "va_signer_public_key (ArV2 a) = ar2_signer_public_key a"

fun va_gas_price :: "VersionedActionReceipt \<Rightarrow> Balance" where
  "va_gas_price (ArV1 a) = ar_gas_price a"
| "va_gas_price (ArV2 a) = ar2_gas_price a"

fun va_output_data_receivers :: "VersionedActionReceipt \<Rightarrow> (CryptoHash \<times> AccountId) list" where
  "va_output_data_receivers (ArV1 a) = ar_output_data_receivers a"
| "va_output_data_receivers (ArV2 a) = ar2_output_data_receivers a"

fun va_input_data_ids :: "VersionedActionReceipt \<Rightarrow> CryptoHash list" where
  "va_input_data_ids (ArV1 a) = ar_input_data_ids a"
| "va_input_data_ids (ArV2 a) = ar2_input_data_ids a"

fun va_actions :: "VersionedActionReceipt \<Rightarrow> Action list" where
  "va_actions (ArV1 a) = ar_actions a"
| "va_actions (ArV2 a) = ar2_actions a"

datatype VersionedReceiptEnum =
    VAction VersionedActionReceipt
  | VData DataReceipt
  | VPromiseYield VersionedActionReceipt
  | VPromiseResume DataReceipt
  | VGlobalContractDistribution GlobalContractDistributionReceipt

fun versioned :: "ReceiptEnum \<Rightarrow> VersionedReceiptEnum" where
  "versioned (RAction a) = VAction (ArV1 a)"
| "versioned (RData d) = VData d"
| "versioned (RPromiseYield a) = VPromiseYield (ArV1 a)"
| "versioned (RPromiseResume d) = VPromiseResume d"
| "versioned (RGlobalContractDistribution g) = VGlobalContractDistribution g"
| "versioned (RActionV2 a) = VAction (ArV2 a)"
| "versioned (RPromiseYieldV2 a) = VPromiseYield (ArV2 a)"

text \<open>The action receipt of an action or of a promise yield.\<close>

definition action_receipt :: "Receipt \<Rightarrow> VersionedActionReceipt option" where
  "action_receipt r = (case versioned (r_receipt r) of
     VAction a \<Rightarrow> Some a | VPromiseYield a \<Rightarrow> Some a | _ \<Rightarrow> None)"

definition receipt_actions :: "Receipt \<Rightarrow> Action list" where
  "receipt_actions r = (case action_receipt r of Some a \<Rightarrow> va_actions a | None \<Rightarrow> [])"

fun receipt_refund_to :: "ReceiptEnum \<Rightarrow> AccountId option" where
  "receipt_refund_to (RActionV2 a) = ar2_refund_to a"
| "receipt_refund_to (RPromiseYieldV2 a) = ar2_refund_to a"
| "receipt_refund_to _ = None"

definition balance_refund_receiver :: "Receipt \<Rightarrow> AccountId" where
  "balance_refund_receiver r = (case receipt_refund_to (r_receipt r) of Some a \<Rightarrow> a | None \<Rightarrow> r_predecessor_id r)"

definition is_instant_receipt :: "Receipt \<Rightarrow> ProtocolVersion \<Rightarrow> bool" where
  "is_instant_receipt r pv =
     (case versioned (r_receipt r) of VPromiseYield _ \<Rightarrow> feature_enabled InstantPromiseYield pv | _ \<Rightarrow> False)"

section \<open>Receipts the runtime makes\<close>

definition receipt_from_tx ::
  "CryptoHash \<Rightarrow> AccountId \<Rightarrow> AccountId \<Rightarrow> PublicKey \<Rightarrow> Balance \<Rightarrow> Action list \<Rightarrow> Receipt" where
  "receipt_from_tx rid signer receiver pk gas_price actions =
     \<lparr> r_predecessor_id = signer, r_receiver_id = receiver, r_receipt_id = rid,
       r_receipt = RAction \<lparr> ar_signer_id = signer, ar_signer_public_key = pk, ar_gas_price = gas_price,
         ar_output_data_receivers = [], ar_input_data_ids = [], ar_actions = actions \<rparr> \<rparr>"

definition new_balance_refund :: "AccountId \<Rightarrow> Balance \<Rightarrow> Receipt" where
  "new_balance_refund receiver refund =
     \<lparr> r_predecessor_id = ''system'', r_receiver_id = receiver, r_receipt_id = default_hash,
       r_receipt = RAction \<lparr> ar_signer_id = ''system'', ar_signer_public_key = ED25519 (replicate 32 0),
         ar_gas_price = 0, ar_output_data_receivers = [], ar_input_data_ids = [],
         ar_actions = [Transfer refund] \<rparr> \<rparr>"

definition new_gas_refund :: "AccountId \<Rightarrow> Balance \<Rightarrow> PublicKey \<Rightarrow> Receipt" where
  "new_gas_refund receiver refund pk =
     \<lparr> r_predecessor_id = ''system'', r_receiver_id = receiver, r_receipt_id = default_hash,
       r_receipt = RAction \<lparr> ar_signer_id = receiver, ar_signer_public_key = pk,
         ar_gas_price = 0, ar_output_data_receivers = [], ar_input_data_ids = [],
         ar_actions = [Transfer refund] \<rparr> \<rparr>"

definition new_global_contract_distribution :: "AccountId \<Rightarrow> GlobalContractDistributionReceipt \<Rightarrow> Receipt" where
  "new_global_contract_distribution predecessor g =
     \<lparr> r_predecessor_id = predecessor, r_receiver_id = ''system'', r_receipt_id = default_hash,
       r_receipt = RGlobalContractDistribution g \<rparr>"

section \<open>Distribution of a global contract\<close>

definition gcd_new ::
  "GlobalContractIdentifier \<Rightarrow> ShardId \<Rightarrow> ShardId list \<Rightarrow> bytes \<Rightarrow> u64 \<Rightarrow> ProtocolVersion
     \<Rightarrow> GlobalContractDistributionReceipt" where
  "gcd_new ident target delivered code nonce pv =
     (if feature_enabled GlobalContractDistributionNonce pv
      then GcdV2 \<lparr> gcd2_id = ident, gcd2_target_shard = target, gcd2_already_delivered_shards = delivered,
             gcd2_code = code, gcd2_nonce = nonce \<rparr>
      else GcdV1 \<lparr> gcd1_id = ident, gcd1_target_shard = target, gcd1_already_delivered_shards = delivered,
             gcd1_code = code \<rparr>)"

fun gcd_id :: "GlobalContractDistributionReceipt \<Rightarrow> GlobalContractIdentifier" where
  "gcd_id (GcdV1 g) = gcd1_id g"
| "gcd_id (GcdV2 g) = gcd2_id g"

fun gcd_delivered :: "GlobalContractDistributionReceipt \<Rightarrow> ShardId list" where
  "gcd_delivered (GcdV1 g) = gcd1_already_delivered_shards g"
| "gcd_delivered (GcdV2 g) = gcd2_already_delivered_shards g"

fun gcd_code :: "GlobalContractDistributionReceipt \<Rightarrow> bytes" where
  "gcd_code (GcdV1 g) = gcd1_code g"
| "gcd_code (GcdV2 g) = gcd2_code g"

fun gcd_nonce :: "GlobalContractDistributionReceipt \<Rightarrow> u64" where
  "gcd_nonce (GcdV1 g) = 0"
| "gcd_nonce (GcdV2 g) = gcd2_nonce g"

fun gcd_forward ::
  "GlobalContractDistributionReceipt \<Rightarrow> ShardId \<Rightarrow> ShardId list \<Rightarrow> GlobalContractDistributionReceipt" where
  "gcd_forward (GcdV1 g) target delivered =
     GcdV1 (g \<lparr> gcd1_target_shard := target, gcd1_already_delivered_shards := delivered \<rparr>)"
| "gcd_forward (GcdV2 g) target delivered =
     GcdV2 (g \<lparr> gcd2_target_shard := target, gcd2_already_delivered_shards := delivered \<rparr>)"

end
