(* ===== verification/Trie_State.thy ===== *)
theory Trie_State
  imports Receipts Codec "HOL-Library.Product_Lexorder"
begin

text \<open>
  The state trie as the runtime sees it through \<open>core/store/src/utils/mod.rs\<close>: accounts,
  access keys, gas-key nonces, contract code and contract data. Accounts, keys and nonces
  are stored as values (their Borsh encoding is the identity here), contract data as the
  bytes that are written. Global contracts, the data and the receipts that wait for each other
  and the promise yields are finite maps, since nothing iterates over them. A read may fail: \<open>t_fault\<close> says which keys the underlying
  storage cannot serve, and with which error.
\<close>

datatype TrieKey =
    KAccount AccountId
  | KContractCode AccountId
  | KAccessKey AccountId PublicKey
  | KGasKeyNonce AccountId PublicKey NonceIndex
  | KContractData AccountId bytes
  | KGlobalContractCode GlobalContractIdentifier
  | KGlobalContractNonce GlobalContractIdentifier
  | KReceivedData AccountId CryptoHash
  | KPostponedReceiptId AccountId CryptoHash
  | KPendingDataCount AccountId CryptoHash
  | KPostponedReceipt AccountId CryptoHash
  | KPromiseYieldReceipt AccountId CryptoHash
  | KPromiseYieldStatus AccountId CryptoHash

record TrieUpdate =
  t_accounts :: "(AccountId, Account) btree"
  t_code :: "(AccountId, bytes) btree"
  t_access_keys :: "(AccountId \<times> PublicKey, AccessKey) btree"
  t_gas_key_nonces :: "(AccountId \<times> PublicKey \<times> NonceIndex, Nonce) btree"
  t_data :: "(AccountId \<times> bytes, bytes) btree"
  t_global_code :: "GlobalContractIdentifier \<rightharpoonup> bytes"
  t_global_nonces :: "GlobalContractIdentifier \<rightharpoonup> u64"
  t_received_data :: "AccountId \<times> CryptoHash \<rightharpoonup> bytes option"
  t_postponed_ids :: "AccountId \<times> CryptoHash \<rightharpoonup> CryptoHash"
  t_pending_counts :: "AccountId \<times> CryptoHash \<rightharpoonup> u32"
  t_postponed :: "AccountId \<times> CryptoHash \<rightharpoonup> Receipt"
  t_yields :: "AccountId \<times> CryptoHash \<rightharpoonup> Receipt"
  t_yield_resumed :: "AccountId \<times> CryptoHash \<rightharpoonup> bool"
  t_fault :: "TrieKey \<Rightarrow> StorageError option"

section \<open>Reads\<close>

definition trie_read ::
  "TrieUpdate \<Rightarrow> TrieKey \<Rightarrow> 'v option \<Rightarrow> ('v option, StorageError) result" where
  "trie_read s key v = (case t_fault s key of Some e \<Rightarrow> Err e | None \<Rightarrow> Ok v)"

definition get_account :: "TrieUpdate \<Rightarrow> AccountId \<Rightarrow> (Account option, StorageError) result" where
  "get_account s aid = trie_read s (KAccount aid) (bt_get (t_accounts s) aid)"

definition get_access_key ::
  "TrieUpdate \<Rightarrow> AccountId \<Rightarrow> PublicKey \<Rightarrow> (AccessKey option, StorageError) result" where
  "get_access_key s aid pk = trie_read s (KAccessKey aid pk) (bt_get (t_access_keys s) (aid, pk))"

definition get_gas_key_nonce ::
  "TrieUpdate \<Rightarrow> AccountId \<Rightarrow> PublicKey \<Rightarrow> NonceIndex \<Rightarrow> (Nonce option, StorageError) result" where
  "get_gas_key_nonce s aid pk i =
     trie_read s (KGasKeyNonce aid pk i) (bt_get (t_gas_key_nonces s) (aid, pk, i))"

text \<open>\<open>get\<close> of a Borsh value from contract data: the bytes must decode exactly.\<close>

definition get_data ::
  "(bytes \<Rightarrow> ('a \<times> bytes) option) \<Rightarrow> TrieUpdate \<Rightarrow> AccountId \<Rightarrow> bytes
     \<Rightarrow> ('a option, StorageError) result" where
  "get_data dec s aid k =
     result_bind (trie_read s (KContractData aid k) (bt_get (t_data s) (aid, k))) (\<lambda>d.
       case d of
         None \<Rightarrow> Ok None
       | Some b \<Rightarrow>
           (case try_from_slice dec b of
              None \<Rightarrow> Err (StorageInconsistentState ''Failed to deserialize'')
            | Some v \<Rightarrow> Ok (Some v)))"

section \<open>Writes\<close>

definition set_account :: "AccountId \<Rightarrow> Account \<Rightarrow> TrieUpdate \<Rightarrow> TrieUpdate" where
  "set_account aid a s = s \<lparr> t_accounts := bt_insert aid a (t_accounts s) \<rparr>"

definition set_access_key :: "AccountId \<Rightarrow> PublicKey \<Rightarrow> AccessKey \<Rightarrow> TrieUpdate \<Rightarrow> TrieUpdate" where
  "set_access_key aid pk k s = s \<lparr> t_access_keys := bt_insert (aid, pk) k (t_access_keys s) \<rparr>"

definition set_gas_key_nonce ::
  "AccountId \<Rightarrow> PublicKey \<Rightarrow> NonceIndex \<Rightarrow> Nonce \<Rightarrow> TrieUpdate \<Rightarrow> TrieUpdate" where
  "set_gas_key_nonce aid pk i n s =
     s \<lparr> t_gas_key_nonces := bt_insert (aid, pk, i) n (t_gas_key_nonces s) \<rparr>"

definition remove_access_key :: "AccountId \<Rightarrow> PublicKey \<Rightarrow> TrieUpdate \<Rightarrow> TrieUpdate" where
  "remove_access_key aid pk s = s \<lparr> t_access_keys := bt_remove (aid, pk) (t_access_keys s) \<rparr>"

definition remove_gas_key_nonce ::
  "AccountId \<Rightarrow> PublicKey \<Rightarrow> NonceIndex \<Rightarrow> TrieUpdate \<Rightarrow> TrieUpdate" where
  "remove_gas_key_nonce aid pk i s =
     s \<lparr> t_gas_key_nonces := bt_remove (aid, pk, i) (t_gas_key_nonces s) \<rparr>"

definition set_data :: "AccountId \<Rightarrow> bytes \<Rightarrow> bytes \<Rightarrow> TrieUpdate \<Rightarrow> TrieUpdate" where
  "set_data aid k v s = s \<lparr> t_data := bt_insert (aid, k) v (t_data s) \<rparr>"

definition set_code :: "AccountId \<Rightarrow> bytes \<Rightarrow> TrieUpdate \<Rightarrow> TrieUpdate" where
  "set_code aid c s = s \<lparr> t_code := bt_insert aid c (t_code s) \<rparr>"

definition remove_account :: "AccountId \<Rightarrow> TrieUpdate \<Rightarrow> TrieUpdate" where
  "remove_account aid s = s \<lparr>
     t_accounts := bt_remove aid (t_accounts s),
     t_code := bt_remove aid (t_code s),
     t_access_keys := filter (\<lambda>((a, _), _). a \<noteq> aid) (t_access_keys s),
     t_gas_key_nonces := filter (\<lambda>((a, _, _), _). a \<noteq> aid) (t_gas_key_nonces s),
     t_data := filter (\<lambda>((a, _), _). a \<noteq> aid) (t_data s) \<rparr>"

fun sum_gas_keys ::
  "TrieUpdate \<Rightarrow> AccountId \<Rightarrow> (AccountId \<times> PublicKey, AccessKey) btree \<Rightarrow> Balance
     \<Rightarrow> (Balance, StorageError) result" where
  "sum_gas_keys s aid [] tot = Ok tot"
| "sum_gas_keys s aid (((a, pk), _) # ks) tot =
     (if a \<noteq> aid then sum_gas_keys s aid ks tot
      else result_bind (get_access_key s aid pk) (\<lambda>k.
        case Option.bind k gas_key_info of
          None \<Rightarrow> sum_gas_keys s aid ks tot
        | Some g \<Rightarrow>
            result_bind (ok_or (checked_add tot (gk_balance g))
                           (StorageInconsistentState ''gas key balance overflow''))
              (\<lambda>tot'. sum_gas_keys s aid ks tot')))"

definition compute_gas_key_balance_sum ::
  "TrieUpdate \<Rightarrow> AccountId \<Rightarrow> (Balance, StorageError) result" where
  "compute_gas_key_balance_sum s aid = sum_gas_keys s aid (t_access_keys s) 0"

section \<open>Laws\<close>

definition trie_inv :: "TrieUpdate \<Rightarrow> bool" where
  "trie_inv s \<longleftrightarrow> bt_inv (t_accounts s) \<and> bt_inv (t_code s) \<and> bt_inv (t_access_keys s)
     \<and> bt_inv (t_gas_key_nonces s) \<and> bt_inv (t_data s)"

lemmas trie_ops = set_account_def set_access_key_def set_gas_key_nonce_def remove_access_key_def
  remove_gas_key_nonce_def set_data_def set_code_def

lemma bt_inv_filter: "bt_inv m \<Longrightarrow> bt_inv (filter P m)"
  unfolding bt_inv_def by (induction m) (auto simp: sorted_wrt_map)

lemma trie_inv_writes [simp]:
  assumes "trie_inv s"
  shows "trie_inv (set_account aid a s)" "trie_inv (set_access_key aid pk k s)"
    "trie_inv (set_gas_key_nonce aid pk i n s)" "trie_inv (remove_access_key aid pk s)"
    "trie_inv (remove_gas_key_nonce aid pk i s)" "trie_inv (set_data aid kk v s)"
    "trie_inv (set_code aid c s)" "trie_inv (remove_account aid s)"
  using assms
  by (simp_all add: trie_inv_def trie_ops bt_inv_insert bt_inv_remove remove_account_def bt_inv_filter)

lemma get_account_Ok:
  "get_account s aid = Ok v \<longleftrightarrow> t_fault s (KAccount aid) = None \<and> v = bt_get (t_accounts s) aid"
  by (auto simp: get_account_def trie_read_def split: option.splits)

lemma get_access_key_Ok:
  "get_access_key s aid pk = Ok v
     \<longleftrightarrow> t_fault s (KAccessKey aid pk) = None \<and> v = bt_get (t_access_keys s) (aid, pk)"
  by (auto simp: get_access_key_def trie_read_def split: option.splits)

lemma accounts_of_writes [simp]:
  "t_accounts (set_account aid a s) = bt_insert aid a (t_accounts s)"
  "t_accounts (set_access_key aid pk k s) = t_accounts s"
  "t_accounts (set_gas_key_nonce aid pk i n s) = t_accounts s"
  "t_accounts (remove_access_key aid pk s) = t_accounts s"
  "t_accounts (remove_gas_key_nonce aid pk i s) = t_accounts s"
  "t_accounts (set_data aid kk v s) = t_accounts s"
  "t_accounts (set_code aid c s) = t_accounts s"
  by (simp_all add: trie_ops)

lemma faults_of_writes [simp]:
  "t_fault (set_account aid a s) = t_fault s" "t_fault (set_access_key aid pk k s) = t_fault s"
  "t_fault (set_gas_key_nonce aid pk i n s) = t_fault s"
  "t_fault (remove_access_key aid pk s) = t_fault s"
  "t_fault (remove_gas_key_nonce aid pk i s) = t_fault s"
  "t_fault (set_data aid kk v s) = t_fault s" "t_fault (set_code aid c s) = t_fault s"
  "t_fault (remove_account aid s) = t_fault s"
  by (simp_all add: trie_ops remove_account_def)

lemma data_of_writes [simp]:
  "t_data (set_account aid a s) = t_data s" "t_data (set_access_key aid pk k s) = t_data s"
  "t_data (set_gas_key_nonce aid pk i n s) = t_data s"
  "t_data (remove_access_key aid pk s) = t_data s"
  "t_data (remove_gas_key_nonce aid pk i s) = t_data s"
  "t_data (set_data aid kk v s) = bt_insert (aid, kk) v (t_data s)"
  "t_data (set_code aid c s) = t_data s"
  by (simp_all add: trie_ops)

lemma keys_of_writes [simp]:
  "t_access_keys (set_account aid a s) = t_access_keys s"
  "t_access_keys (set_access_key aid pk k s) = bt_insert (aid, pk) k (t_access_keys s)"
  "t_access_keys (set_gas_key_nonce aid pk i n s) = t_access_keys s"
  "t_access_keys (remove_access_key aid pk s) = bt_remove (aid, pk) (t_access_keys s)"
  "t_access_keys (remove_gas_key_nonce aid pk i s) = t_access_keys s"
  "t_access_keys (set_data aid kk v s) = t_access_keys s"
  "t_access_keys (set_code aid c s) = t_access_keys s"
  by (simp_all add: trie_ops)

text \<open>
  The tokens that the state holds: the liquid and the staked balance of every account and
  the balance of every gas key.
\<close>

definition account_tokens :: "Account \<Rightarrow> nat" where
  "account_tokens a = unat (amount a) + unat (locked a)"

definition key_tokens :: "AccessKey \<Rightarrow> nat" where
  "key_tokens k = (case gas_key_info k of None \<Rightarrow> 0 | Some g \<Rightarrow> unat (gk_balance g))"

definition state_tokens :: "TrieUpdate \<Rightarrow> nat" where
  "state_tokens s = bt_sum account_tokens (t_accounts s) + bt_sum key_tokens (t_access_keys s)"

interpretation tacc: valued_map "\<lambda>s. bt_get (t_accounts s)" set_account
  "\<lambda>f s. bt_sum f (t_accounts s)" trie_inv
proof (unfold_locales, goal_cases)
  case (1 m k v) then show ?case by simp
next
  case (2 k v m k') show ?case by (simp add: bt_get_insert)
next
  case (3 m k f v) then show ?case by (simp add: bt_sum_new)
next
  case (4 m k w f v) then show ?case
    using bt_sum_upd [of "t_accounts m" k w f v] by (simp add: trie_inv_def)
qed

interpretation tkey: valued_map "\<lambda>s (a, pk). bt_get (t_access_keys s) (a, pk)"
  "\<lambda>(a, pk). set_access_key a pk" "\<lambda>f s. bt_sum f (t_access_keys s)" trie_inv
proof (unfold_locales, goal_cases)
  case (1 m k v) then show ?case by (cases k) simp
next
  case (2 k v m k') show ?case by (cases k; cases k') (simp add: bt_get_insert)
next
  case (3 m k f v) then show ?case by (cases k) (simp add: bt_sum_new)
next
  case (4 m k w f v) then show ?case
    using bt_sum_upd [of "t_access_keys m" k w f v] by (cases k) (simp add: trie_inv_def)
qed

lemma state_tokens_set_key:
  "bt_get (t_access_keys s) (a, pk) = Some k \<Longrightarrow> trie_inv s
     \<Longrightarrow> state_tokens (set_access_key a pk k' s) + key_tokens k = state_tokens s + key_tokens k'"
  using bt_sum_upd [of "t_access_keys s" "(a, pk)" k key_tokens k']
  by (simp add: state_tokens_def trie_inv_def)

lemma state_tokens_set_account:
  "bt_get (t_accounts s) a = Some v \<Longrightarrow> trie_inv s
     \<Longrightarrow> state_tokens (set_account a v' s) + account_tokens v = state_tokens s + account_tokens v'"
  using bt_sum_upd [of "t_accounts s" a v account_tokens v']
  by (simp add: state_tokens_def trie_inv_def)

end
