(* ===== verification/Bech32.thy ===== *)
theory Bech32
  imports Codec
begin

text \<open>
  Bech32 as the repository writes it three times: \<open>bech32_encode\<close> of
  \<open>nearcore/core/crypto/src/bitcoin_utils.rs\<close> and of \<open>bitinfinity-btcrpc/src/main.rs\<close>,
  and the decoder \<open>decode_bech32_program\<close> of \<open>bitinfinity-btcrpc/src/utxo_synth.rs\<close>.
  The counters \<open>bits\<close> of the loops stay below 16 and are natural numbers; the accumulator
  \<open>acc\<close> is the 32-bit word that the code shifts left without masking.
\<close>

section \<open>Checksum\<close>

definition GEN :: "u32 list" where
  "GEN = [0x3b6a57b2, 0x26508e6d, 0x1ea119fa, 0x3d4233dd, 0x2a1462b3]"

definition CHARSET :: string where
  "CHARSET = ''qpzry9x8gf2tvdw0s3jn54khce6mua7l''"

definition polymod_step :: "u32 \<Rightarrow> u8 \<Rightarrow> u32" where
  "polymod_step chk v =
     (let b = drop_bit 25 chk in
      foldl (\<lambda>c (i, g). if drop_bit i b AND 1 = 1 then c XOR g else c)
        (push_bit 5 (chk AND 0x1ffffff) XOR ucast v) (enumerate 0 GEN))"

definition polymod :: "bytes \<Rightarrow> u32" where
  "polymod values = foldl polymod_step 1 values"

definition hrp_expand :: "string \<Rightarrow> bytes" where
  "hrp_expand hrp = map (\<lambda>b. drop_bit 5 b) (as_bytes hrp) @ [0] @ map (\<lambda>b. b AND 31) (as_bytes hrp)"

definition bech32_checksum :: "bytes \<Rightarrow> bytes" where
  "bech32_checksum values =
     (let poly = polymod (values @ [0, 0, 0, 0, 0, 0]) XOR 1 in
      map (\<lambda>i. ucast (drop_bit (5 * (5 - i)) poly AND 31)) [0..<6])"

section \<open>Regrouping bits\<close>

text \<open>
  \<open>push_groups\<close> is the inner \<open>while bits >= w\<close> loop, \<open>regroup\<close> the \<open>for\<close> loop around it,
  for groups of \<open>v\<close> bits in and \<open>w\<close> bits out (8 to 5 in the encoders, 5 to 8 in the
  decoders).
\<close>

fun push_groups :: "nat \<Rightarrow> u32 \<Rightarrow> nat \<Rightarrow> bytes \<times> nat" where
  "push_groups w acc bits =
     (if w = 0 \<or> bits < w then ([], bits)
      else let bits' = bits - w; (os, r) = push_groups w acc bits' in
           (ucast (drop_bit bits' acc AND mask w) # os, r))"

declare push_groups.simps [simp del]

fun regroup :: "nat \<Rightarrow> nat \<Rightarrow> u32 \<Rightarrow> nat \<Rightarrow> bytes \<Rightarrow> bytes \<times> u32 \<times> nat" where
  "regroup v w acc bits [] = ([], acc, bits)"
| "regroup v w acc bits (x # xs) =
     (let acc' = push_bit v acc OR ucast x;
          (os, bits') = push_groups w acc' (bits + v);
          (os', r) = regroup v w acc' bits' xs
      in (os @ os', r))"

definition to_data5 :: "u8 \<Rightarrow> bytes \<Rightarrow> bytes" where
  "to_data5 witness_version program =
     (let (os, acc, bits) = regroup 8 5 0 0 program in
      witness_version # os
      @ (if bits > 0 then [ucast (push_bit (5 - bits) acc AND 31)] else []))"

definition bech32_encode :: "string \<Rightarrow> u8 \<Rightarrow> bytes \<Rightarrow> string" where
  "bech32_encode hrp witness_version program =
     (let data5 = to_data5 witness_version program;
          checksum = bech32_checksum (hrp_expand hrp @ data5)
      in hrp @ ''1'' @ map (\<lambda>d. CHARSET ! unat d) (data5 @ checksum))"

section \<open>Decoding\<close>

fun find_char :: "string \<Rightarrow> char \<Rightarrow> nat option" where
  "find_char [] c = None"
| "find_char (x # xs) c = (if x = c then Some 0 else map_option Suc (find_char xs c))"

fun rfind_char :: "string \<Rightarrow> char \<Rightarrow> nat option" where
  "rfind_char [] c = None"
| "rfind_char (x # xs) c =
     (case rfind_char xs c of
        Some i \<Rightarrow> Some (Suc i)
      | None \<Rightarrow> if x = c then Some 0 else None)"

definition charset_values :: "string \<Rightarrow> bytes" where
  "charset_values s = map word_of_nat (List.map_filter (find_char CHARSET) s)"

definition decode_bech32_program :: "string \<Rightarrow> bytes option" where
  "decode_bech32_program addr =
     (case rfind_char addr CHR ''1'' of
        None \<Rightarrow> None
      | Some sep_pos \<Rightarrow>
          let data5 = charset_values (drop (sep_pos + 1) addr) in
          if length data5 \<le> 7 then None
          else let payload5 = drop 1 (take (length data5 - 6) data5)
               in Some (fst (regroup 5 8 0 0 payload5)))"

section \<open>The checksum verifies\<close>

text \<open>
  A step of \<open>polymod\<close> is linear over exclusive or: the generators it adds are selected
  by the top five bits, \<open>gen_sum\<close>.
\<close>

fun gen_sum :: "nat \<Rightarrow> u32 \<Rightarrow> u32 list \<Rightarrow> u32" where
  "gen_sum n b [] = 0"
| "gen_sum n b (g # gs) = (if bit b n then g else 0) XOR gen_sum (Suc n) b gs"

lemma and_one_bit: "drop_bit i (b::u32) AND 1 = 1 \<longleftrightarrow> bit b i"
  by (simp add: bit_iff_and_drop_bit_eq_1)

lemma foldl_generators:
  "foldl (\<lambda>c (i, g). if drop_bit i b AND 1 = 1 then c XOR g else c) x (enumerate n gs)
     = x XOR gen_sum n b gs"
  by (induction gs arbitrary: n x) (simp_all add: and_one_bit xor.assoc)

lemma mask_25: "(chk::u32) AND 0x1ffffff = take_bit 25 chk"
  by (simp add: take_bit_eq_mask mask_eq_exp_minus_1)

lemma mask_5: "(x::u32) AND 31 = take_bit 5 x"
  by (simp add: take_bit_eq_mask mask_eq_exp_minus_1)

lemma polymod_step_eq:
  "polymod_step chk v =
     push_bit 5 (take_bit 25 chk) XOR ucast v XOR gen_sum 0 (drop_bit 25 chk) GEN"
  unfolding polymod_step_def Let_def mask_25 foldl_generators by (simp only: xor.assoc)

lemma gen_sum_xor: "gen_sum n (a XOR b) gs = gen_sum n a gs XOR gen_sum n b gs"
proof (induction gs arbitrary: n)
  case (Cons g gs)
  show ?case
    unfolding gen_sum.simps Cons.IH bit_xor_iff
    by (cases "bit a n"; cases "bit b n") (simp_all add: xor.assoc xor.left_commute)
qed simp

lemma ucast_xor: "(ucast (v XOR w :: 'a::len word) :: 'b::len word) = ucast v XOR ucast w"
  by (rule bit_word_eqI) (auto simp: bit_simps)

lemma polymod_step_xor:
  "polymod_step (a XOR b) (v XOR w) = polymod_step a v XOR polymod_step b w"
  unfolding polymod_step_eq drop_bit_xor gen_sum_xor take_bit_xor push_bit_xor ucast_xor
  by (simp only: xor.assoc xor.left_commute xor.commute)

lemma foldl_polymod_xor:
  "length vs = length ws \<Longrightarrow>
     foldl polymod_step (a XOR b) (map2 (XOR) vs ws)
       = foldl polymod_step a vs XOR foldl polymod_step b ws"
  by (induction vs ws arbitrary: a b rule: list_induct2) (simp_all add: polymod_step_xor)

lemma polymod_from_zero:
  "foldl polymod_step c cs
     = foldl polymod_step c (replicate (length cs) 0) XOR foldl polymod_step 0 cs"
proof -
  have "map2 (XOR) (replicate (length cs) (0::u8)) cs = cs"
    by (induction cs) simp_all
  then show ?thesis
    using foldl_polymod_xor [of "replicate (length cs) 0" cs c 0] by simp
qed

text \<open>The state of \<open>polymod\<close> never exceeds 30 bits.\<close>

lemma take_bit_30_GEN: "list_all (\<lambda>g. take_bit 30 g = g) GEN"
  by (simp add: GEN_def take_bit_eq_mask mask_eq_exp_minus_1)

lemma take_bit_30_gen_sum:
  "list_all (\<lambda>g. take_bit 30 g = g) gs \<Longrightarrow> take_bit 30 (gen_sum n b gs) = gen_sum n b gs"
  by (induction gs arbitrary: n) (simp_all add: take_bit_xor)

lemma take_bit_30_step: "take_bit 30 (polymod_step c v) = polymod_step c v"
proof -
  have "take_bit 30 (push_bit 5 (take_bit 25 c)) = push_bit 5 (take_bit 25 c)"
    by (rule bit_word_eqI) (auto simp: bit_simps)
  moreover have "take_bit 30 (ucast v :: u32) = ucast v"
    by (rule bit_word_eqI) (auto simp: bit_simps dest: bit_imp_le_length)
  ultimately show ?thesis
    by (simp add: polymod_step_eq take_bit_xor take_bit_30_gen_sum take_bit_30_GEN)
qed

lemma gen_sum_zero: "gen_sum n 0 gs = 0"
  by (induction gs arbitrary: n) simp_all

lemma polymod_step_small:
  assumes "take_bit 25 c = c"
  shows "polymod_step c v = push_bit 5 c XOR ucast v"
proof -
  have "drop_bit 25 c = 0"
    using assms by (metis drop_bit_take_bit diff_self_eq_0 take_bit_0)
  then show ?thesis by (simp add: polymod_step_eq assms gen_sum_zero)
qed

text \<open>Feeding the six five-bit groups of a 30-bit value into the zero state yields it back.\<close>

lemma append_group:
  "push_bit 5 (drop_bit (n + 5) P) XOR ucast (ucast (drop_bit n P AND 31 :: u32) :: u8)
     = drop_bit n (P::u32)"
  unfolding mask_5
proof (rule bit_word_eqI)
  fix k assume k: "k < LENGTH(32)"
  show "bit (push_bit 5 (drop_bit (n + 5) P) XOR ucast (ucast (take_bit 5 (drop_bit n P)) :: u8)) k
      = bit (drop_bit n P) k"
    using k by (cases "k < 5") (auto simp: bit_simps ac_simps)
qed

lemma step_group:
  assumes "take_bit 30 P = P"
  shows "polymod_step (drop_bit (n + 5) P) (ucast (drop_bit n P AND 31)) = drop_bit n P"
proof -
  have "take_bit 25 (drop_bit (n + 5) P) = drop_bit (n + 5) P"
  proof (rule bit_word_eqI)
    fix k assume "k < LENGTH(32)"
    have "bit P j = (j < 30 \<and> bit P j)" for j
      using assms by (metis bit_take_bit_iff)
    from this [of "n + 5 + k"]
    show "bit (take_bit 25 (drop_bit (n + 5) P)) k = bit (drop_bit (n + 5) P) k"
      by (auto simp: bit_simps)
  qed
  then show ?thesis by (simp add: polymod_step_small append_group del: drop_bit_drop_bit)
qed

lemma foldl_groups:
  assumes "take_bit 30 P = P"
  shows "foldl polymod_step 0 (map (\<lambda>i. ucast (drop_bit (5 * (5 - i)) P AND 31)) [0..<6]) = P"
proof -
  have z: "drop_bit 30 P = 0"
    using assms by (metis drop_bit_take_bit diff_self_eq_0 take_bit_0)
  have u: "[0..<6] = [0, 1, 2, 3, 4, 5::nat]" by (simp add: upt_rec)
  show ?thesis
    unfolding u
    using step_group [OF assms, of 25] step_group [OF assms, of 20] step_group [OF assms, of 15]
      step_group [OF assms, of 10] step_group [OF assms, of 5] step_group [OF assms, of 0] z
    by simp
qed

lemma polymod_append: "polymod (xs @ ys) = foldl polymod_step (polymod xs) ys"
  by (simp add: polymod_def)

lemma polymod_checksum: "polymod (values @ bech32_checksum values) = 1"
proof -
  let ?z = "[0, 0, 0, 0, 0, 0] :: bytes"
  let ?P = "polymod (values @ ?z) XOR 1"
  have "take_bit 30 (polymod (values @ ?z)) = polymod (values @ ?z)"
    by (simp add: polymod_append take_bit_30_step)
  moreover have "take_bit 30 (1::u32) = 1" by simp
  ultimately have "take_bit 30 ?P = ?P" by (simp only: take_bit_xor)
  then have "foldl polymod_step 0 (bech32_checksum values) = ?P"
    unfolding bech32_checksum_def Let_def by (rule foldl_groups)
  moreover have "replicate (length (bech32_checksum values)) 0 = ?z"
    by (simp add: bech32_checksum_def Let_def numeral_eq_Suc)
  ultimately have "polymod (values @ bech32_checksum values) = polymod (values @ ?z) XOR ?P"
    unfolding polymod_append using polymod_from_zero [of "polymod values" "bech32_checksum values"]
    by simp
  then show ?thesis by (simp flip: xor.assoc)
qed

section \<open>Regrouping keeps the bits\<close>

text \<open>\<open>be_nat w xs\<close> reads a list of \<open>w\<close>-bit groups as one big-endian number.\<close>

fun be_nat :: "nat \<Rightarrow> bytes \<Rightarrow> nat" where
  "be_nat w [] = 0"
| "be_nat w (x # xs) = unat x * 2 ^ (w * length xs) + be_nat w xs"

definition groups :: "nat \<Rightarrow> bytes \<Rightarrow> bool" where
  "groups w xs = list_all (\<lambda>x. unat x < 2 ^ w) xs"

lemma be_nat_append: "be_nat w (xs @ ys) = be_nat w xs * 2 ^ (w * length ys) + be_nat w ys"
  by (induction xs) (simp_all add: algebra_simps power_add)

lemma be_nat_bound: "groups w xs \<Longrightarrow> be_nat w xs < 2 ^ (w * length xs)"
proof (induction xs)
  case (Cons x xs)
  then have "be_nat w xs < 2 ^ (w * length xs)" "Suc (unat x) \<le> 2 ^ w"
    by (auto simp: groups_def)
  then have "be_nat w (x # xs) < Suc (unat x) * 2 ^ (w * length xs)" by simp
  also have "\<dots> \<le> 2 ^ w * 2 ^ (w * length xs)"
    using \<open>Suc (unat x) \<le> 2 ^ w\<close> by (rule mult_le_mono1)
  finally show ?case by (simp add: power_add)
qed simp

lemma be_nat_inj:
  "length xs = length ys \<Longrightarrow> groups w xs \<Longrightarrow> groups w ys \<Longrightarrow> be_nat w xs = be_nat w ys \<Longrightarrow> xs = ys"
proof (induction xs ys rule: list_induct2)
  case (Cons x xs y ys)
  let ?m = "2 ^ (w * length ys) :: nat"
  have b: "be_nat w xs < ?m" "be_nat w ys < ?m"
    using Cons be_nat_bound [of w xs] be_nat_bound [of w ys] by (auto simp: groups_def)
  have eq: "unat x * ?m + be_nat w xs = unat y * ?m + be_nat w ys"
    using Cons by simp
  have "(unat x * ?m + be_nat w xs) div ?m = unat x" "(unat y * ?m + be_nat w ys) div ?m = unat y"
    using b by simp_all
  then have "unat x = unat y" using eq by metis
  then show ?case using Cons eq by (simp add: groups_def word_unat_eq_iff)
qed simp

lemma unat_group:
  assumes "w \<le> 8"
  shows "unat (ucast (drop_bit n (acc::u32) AND mask w) :: u8) = unat acc div 2 ^ n mod 2 ^ w"
proof -
  have "drop_bit n acc AND mask w = take_bit w (drop_bit n acc)"
    by (simp add: take_bit_eq_mask)
  moreover have "unat (ucast (take_bit w (drop_bit n acc)) :: u8)
      = take_bit 8 (take_bit w (drop_bit n (unat acc)))"
    by (simp add: unsigned_ucast_eq unat_drop_bit_eq unsigned_take_bit_eq min.commute)
  moreover have "take_bit 8 (take_bit w (drop_bit n (unat acc))) = take_bit w (drop_bit n (unat acc))"
    using assms by (simp only: take_bit_take_bit min_absorb2)
  ultimately show ?thesis
    by (simp only: take_bit_eq_mod drop_bit_eq_div)
qed

lemma push_groups_spec:
  "0 < w \<Longrightarrow> w \<le> 8 \<Longrightarrow> push_groups w acc bits = (os, r) \<Longrightarrow>
     r < w \<and> bits = w * length os + r \<and> groups w os
     \<and> unat acc mod 2 ^ bits = be_nat w os * 2 ^ r + unat acc mod 2 ^ r"
proof (induction w acc bits arbitrary: os rule: push_groups.induct)
  case (1 w acc bits)
  show ?case
  proof (cases "bits < w")
    case True
    then show ?thesis using 1(2-) by (simp add: push_groups.simps groups_def)
  next
    case False
    let ?o = "ucast (drop_bit (bits - w) acc AND mask w) :: u8"
    obtain os1 r1 where pg: "push_groups w acc (bits - w) = (os1, r1)" by fastforce
    have r: "os = ?o # os1" "r1 = r"
      using 1(4) pg False 1(2) by (subst (asm) push_groups.simps; simp add: Let_def)+
    have IH: "r < w" "bits - w = w * length os1 + r" "groups w os1"
        "unat acc mod 2 ^ (bits - w) = be_nat w os1 * 2 ^ r + unat acc mod 2 ^ r"
      using 1(1) [of "bits - w" os1] 1(2,3) pg False r by auto
    have "unat acc mod 2 ^ bits = unat acc mod (2 ^ (bits - w) * 2 ^ w)"
      using False by (simp flip: power_add)
    also have "\<dots> = unat ?o * 2 ^ (bits - w) + unat acc mod 2 ^ (bits - w)"
      unfolding mod_mult2_eq unat_group [OF 1(3)] by simp
    also have "\<dots> = be_nat w os * 2 ^ r + unat acc mod 2 ^ r"
      unfolding IH(4) by (simp add: r IH(2) power_add algebra_simps)
    finally have "unat acc mod 2 ^ bits = be_nat w os * 2 ^ r + unat acc mod 2 ^ r" .
    moreover have "groups w os"
      using IH(3) unat_group [OF 1(3), of "bits - w" acc] by (simp add: groups_def r)
    ultimately show ?thesis using IH(1,2) False r by simp
  qed
qed

lemma unat_shift_or:
  assumes "unat x < 2 ^ v" "bits + v \<le> 32"
  shows "unat (push_bit v acc OR ucast (x::u8) :: u32) mod 2 ^ (bits + v)
    = unat acc mod 2 ^ bits * 2 ^ v + unat x"
proof -
  have x: "take_bit v (unat x) = unat x" using assms(1) by (simp add: take_bit_nat_eq_self)
  have "unat (push_bit v acc OR ucast x :: u32)
      = take_bit 32 (push_bit v (unat acc)) OR unat x"
    by (simp add: unsigned_or_eq unsigned_push_bit_eq unat_ucast_up)
  then have "take_bit (bits + v) (unat (push_bit v acc OR ucast x :: u32))
      = take_bit (bits + v) (push_bit v (unat acc)) OR take_bit (bits + v) (unat x)"
    using assms(2) by (simp add: min_absorb1)
  also have "take_bit (bits + v) (push_bit v (unat acc)) = push_bit v (take_bit bits (unat acc))"
    by (simp add: take_bit_push_bit)
  also have "take_bit (bits + v) (unat x) = take_bit v (unat x)"
    by (metis x take_bit_take_bit min.absorb2 le_add2)
  also have "push_bit v (take_bit bits (unat acc)) OR take_bit v (unat x)
      = push_bit v (take_bit bits (unat acc)) + take_bit v (unat x)"
    by (rule disjunctive_add [symmetric]) (auto simp: bit_simps)
  finally show ?thesis by (simp add: take_bit_eq_mod push_bit_eq_mult assms(1))
qed

lemma regroup_spec:
  assumes "0 < w" "w \<le> 8" "v + w \<le> 32"
  shows "bits < w \<Longrightarrow> groups v xs \<Longrightarrow> regroup v w acc bits xs = (os, acc', r) \<Longrightarrow>
     r < w \<and> bits + v * length xs = w * length os + r \<and> groups w os
     \<and> unat acc mod 2 ^ bits * 2 ^ (v * length xs) + be_nat v xs
         = be_nat w os * 2 ^ r + unat acc' mod 2 ^ r"
proof (induction xs arbitrary: acc bits os)
  case (Cons x xs)
  define a where "a = push_bit v acc OR ucast x"
  obtain os1 b1 where pg: "push_groups w a (bits + v) = (os1, b1)" by fastforce
  obtain os2 where rg: "regroup v w a b1 xs = (os2, acc', r)" and os: "os = os1 @ os2"
    using Cons.prems(3) pg by (auto simp: Let_def a_def split: prod.splits)
  have A: "b1 < w" "bits + v = w * length os1 + b1" "groups w os1"
      "unat a mod 2 ^ (bits + v) = be_nat w os1 * 2 ^ b1 + unat a mod 2 ^ b1"
    using push_groups_spec [OF assms(1,2) pg] by auto
  have B: "r < w" "b1 + v * length xs = w * length os2 + r" "groups w os2"
      "unat a mod 2 ^ b1 * 2 ^ (v * length xs) + be_nat v xs
         = be_nat w os2 * 2 ^ r + unat acc' mod 2 ^ r"
    using Cons.IH [OF A(1) _ rg] Cons.prems(2) by (auto simp: groups_def)
  have C: "unat a mod 2 ^ (bits + v) = unat acc mod 2 ^ bits * 2 ^ v + unat x"
    unfolding a_def using Cons.prems assms by (intro unat_shift_or) (auto simp: groups_def)
  let ?X = "2 ^ (v * length xs) :: nat"
  have "unat acc mod 2 ^ bits * 2 ^ (v * length (x # xs)) + be_nat v (x # xs)
      = (unat acc mod 2 ^ bits * 2 ^ v + unat x) * ?X + be_nat v xs"
    by (simp add: power_add algebra_simps)
  also have "\<dots> = be_nat w os1 * (2 ^ b1 * ?X) + (unat a mod 2 ^ b1 * ?X + be_nat v xs)"
    unfolding C [symmetric] A(4) by (simp add: algebra_simps)
  also have "\<dots> = be_nat w os1 * 2 ^ (w * length os2 + r)
      + (be_nat w os2 * 2 ^ r + unat acc' mod 2 ^ r)"
    unfolding B(4) B(2) [symmetric] by (simp add: power_add)
  also have "\<dots> = be_nat w os * 2 ^ r + unat acc' mod 2 ^ r"
    by (simp add: os be_nat_append power_add algebra_simps)
  finally show ?case
    using A B by (simp add: os groups_def algebra_simps)
qed (simp add: groups_def)

lemma groups_8 [simp]: "groups 8 xs"
proof -
  have "unat x < 2 ^ 8" for x :: u8 using unat_bound [of x] by simp
  then show ?thesis by (simp add: groups_def list_all_iff)
qed

text \<open>
  The padded five-bit groups of a byte string: \<open>p\<close> zero bits, fewer than five, follow the
  bytes' bits.
\<close>

lemma to_data5_spec:
  assumes "to_data5 ver prog = ver # ds"
  shows "\<exists>p<5. 5 * length ds = 8 * length prog + p \<and> groups 5 ds
    \<and> be_nat 5 ds = be_nat 8 prog * 2 ^ p"
proof -
  obtain os acc r where rg: "regroup 8 5 0 0 prog = (os, acc, r)" by (metis prod_cases3)
  have S: "r < 5" "8 * length prog = 5 * length os + r" "groups 5 os"
      "be_nat 8 prog = be_nat 5 os * 2 ^ r + unat acc mod 2 ^ r"
    using regroup_spec [of 5 8 0 prog 0 os acc r] rg by auto
  show ?thesis
  proof (cases "r = 0")
    case True
    then have "ds = os" using assms rg by (simp add: to_data5_def)
    then show ?thesis using S True by (intro exI [of _ 0]) simp
  next
    case False
    let ?d = "ucast (push_bit (5 - r) acc AND 31 :: u32) :: u8"
    have ds: "ds = os @ [?d]" using assms rg False by (simp add: to_data5_def)
    have "unat ?d = unat (push_bit (5 - r) acc) mod 2 ^ 5"
      using unat_group [of 5 0 "push_bit (5 - r) acc"] by (simp add: mask_eq_exp_minus_1)
    also have "\<dots> = unat acc mod 2 ^ r * 2 ^ (5 - r)"
      using unat_shift_or [of 0 "5 - r" r acc] S(1) by simp
    finally have d: "unat ?d = unat acc mod 2 ^ r * 2 ^ (5 - r)" .
    have "unat acc mod 2 ^ r * 2 ^ (5 - r) < 2 ^ r * 2 ^ (5 - r)" by simp
    then have "unat ?d < 2 ^ 5" using d S(1) by (simp flip: power_add)
    moreover have "be_nat 5 ds = be_nat 8 prog * 2 ^ (5 - r)"
      unfolding ds be_nat_append S(4) using d S(1)
      by (simp add: algebra_simps flip: power_add)
    ultimately show ?thesis
      using S False by (intro exI [of _ "5 - r"]) (simp add: ds groups_def)
  qed
qed

lemma regroup_round_trip:
  assumes "to_data5 ver prog = ver # ds"
  shows "fst (regroup 5 8 0 0 ds) = prog"
proof -
  obtain p where D: "p < 5" "5 * length ds = 8 * length prog + p" "groups 5 ds"
      "be_nat 5 ds = be_nat 8 prog * 2 ^ p"
    using to_data5_spec [OF assms] by blast
  obtain os acc r where rg: "regroup 5 8 0 0 ds = (os, acc, r)" by (metis prod_cases3)
  have S: "r < 8" "5 * length ds = 8 * length os + r"
      "be_nat 5 ds = be_nat 8 os * 2 ^ r + unat acc mod 2 ^ r"
    using regroup_spec [of 8 5 0 ds 0 os acc r] rg D(3) by auto
  have eq: "8 * length os + r = 8 * length prog + p" using D(2) S(2) by simp
  have "length os = (8 * length os + r) div 8" using S(1) by simp
  also have "\<dots> = length prog" unfolding eq using D(1) by simp
  finally have len: "length os = length prog" .
  then have r: "r = p" using eq by simp
  have "be_nat 8 os = (be_nat 8 os * 2 ^ r + unat acc mod 2 ^ r) div 2 ^ r"
    by simp
  also have "be_nat 8 os * 2 ^ r + unat acc mod 2 ^ r = be_nat 8 prog * 2 ^ r"
    using S(3) D(4) by (simp only: r)
  also have "be_nat 8 prog * 2 ^ r div 2 ^ r = be_nat 8 prog" by simp
  finally have "os = prog" by (rule be_nat_inj [OF len groups_8 groups_8])
  then show ?thesis by (simp add: rg)
qed

section \<open>The address string\<close>

lemma find_CHARSET: "n < 32 \<Longrightarrow> find_char CHARSET (CHARSET ! n) = Some n"
proof -
  assume "n < 32"
  then have "n \<in> set [0..<32]" by simp
  moreover have "list_all (\<lambda>n. find_char CHARSET (CHARSET ! n) = Some n) [0..<32]" by code_simp
  ultimately show ?thesis by (simp only: list_all_iff)
qed

lemma CHARSET_no_one: "n < 32 \<Longrightarrow> CHARSET ! n \<noteq> CHR ''1''"
proof -
  assume "n < 32"
  then have "n \<in> set [0..<32]" by simp
  moreover have "list_all (\<lambda>n. CHARSET ! n \<noteq> CHR ''1'') [0..<32]" by code_simp
  ultimately show ?thesis unfolding list_all_iff by blast
qed

lemma charset_values_map:
  "groups 5 ds \<Longrightarrow> charset_values (map (\<lambda>d. CHARSET ! unat d) ds) = ds"
  by (induction ds) (simp_all add: charset_values_def groups_def find_CHARSET map_filter_simps)

lemma rfind_char_None: "c \<notin> set s \<Longrightarrow> rfind_char s c = None"
  by (induction s) auto

lemma rfind_char_last: "c \<notin> set s \<Longrightarrow> rfind_char (h @ c # s) c = Some (length h)"
  by (induction h) (simp_all add: rfind_char_None)

lemma groups_5_checksum: "groups 5 (bech32_checksum values)"
proof -
  have "unat (ucast (drop_bit n P AND 31 :: u32) :: u8) < 2 ^ 5" for n P
    using unat_group [of 5 n P] by (simp add: mask_eq_exp_minus_1)
  then show ?thesis
    unfolding bech32_checksum_def groups_def list_all_iff Let_def set_map by blast
qed

lemma length_checksum [simp]: "length (bech32_checksum values) = 6"
  by (simp add: bech32_checksum_def Let_def)

lemma to_data5_Cons: obtains ds where "to_data5 ver prog = ver # ds"
  by (simp add: to_data5_def split_beta Let_def)

lemma decode_encode:
  assumes "to_data5 ver prog = ver # ds" "unat ver < 32" "prog \<noteq> []"
  shows "decode_bech32_program (bech32_encode hrp ver prog) = Some prog"
proof -
  let ?data = "(ver # ds) @ bech32_checksum (hrp_expand hrp @ ver # ds)"
  let ?str = "map (\<lambda>d. CHARSET ! unat d) ?data"
  have g: "groups 5 ?data"
    using to_data5_spec [OF assms(1)] groups_5_checksum assms(2) by (auto simp: groups_def)
  have enc: "bech32_encode hrp ver prog = hrp @ CHR ''1'' # ?str"
    by (simp add: bech32_encode_def assms(1) Let_def)
  have "CHR ''1'' \<notin> set ?str"
    using g CHARSET_no_one by (fastforce simp: groups_def list_all_iff)
  then have sep: "rfind_char (bech32_encode hrp ver prog) CHR ''1'' = Some (length hrp)"
    unfolding enc by (rule rfind_char_last)
  have dat: "charset_values (drop (length hrp + 1) (bech32_encode hrp ver prog)) = ?data"
    unfolding enc using charset_values_map [OF g] by simp
  have "0 < length prog" using assms(3) by simp
  then have len: "0 < length ds" using to_data5_spec [OF assms(1)] by fastforce
  show ?thesis
    unfolding decode_bech32_program_def sep option.case Let_def dat
    using len regroup_round_trip [OF assms(1)] by simp
qed

section \<open>Properties\<close>

text \<open>
  C18: An encoded address is well-formed Bech32 and decodes to its program. The string is
  the human-readable part, the separator and five-bit symbols whose BIP-173 checksum
  equation \<open>polymod (hrp_expand hrp @ data) = 1\<close> holds, and the RPC server's decoder gets
  back exactly the bytes that the encoder was given, for every program of one or more bytes.
\<close>

theorem bech32_round_trip:
  assumes "unat ver < 32" "prog \<noteq> []"
  shows "(\<exists>data. bech32_encode hrp ver prog = hrp @ ''1'' @ map (\<lambda>d. CHARSET ! unat d) data
            \<and> groups 5 data \<and> polymod (hrp_expand hrp @ data) = 1)
    \<and> decode_bech32_program (bech32_encode hrp ver prog) = Some prog"
proof -
  obtain ds where ds: "to_data5 ver prog = ver # ds" by (rule to_data5_Cons)
  let ?data = "(ver # ds) @ bech32_checksum (hrp_expand hrp @ ver # ds)"
  have "groups 5 ?data"
    using to_data5_spec [OF ds] groups_5_checksum assms(1) by (auto simp: groups_def)
  moreover have "polymod (hrp_expand hrp @ ?data) = 1"
    using polymod_checksum [of "hrp_expand hrp @ ver # ds"] by simp
  moreover have "bech32_encode hrp ver prog = hrp @ ''1'' @ map (\<lambda>d. CHARSET ! unat d) ?data"
    by (simp add: bech32_encode_def ds Let_def)
  ultimately show ?thesis using decode_encode [OF ds assms] by blast
qed

theorem bech32_round_trip_witness:
  "decode_bech32_program (bech32_encode ''bc'' 0 [0x75, 0x1e, 0x76, 0xe8]) = Some [0x75, 0x1e, 0x76, 0xe8]"
  using bech32_round_trip [of 0 "[0x75, 0x1e, 0x76, 0xe8]" "''bc''"] by simp

end
