(* ===== verification/Bitcoin_Address.thy ===== *)
theory Bitcoin_Address
  imports Bech32 Account_Id
begin

text \<open>
  Address derivation of \<open>nearcore/core/crypto/src/bitcoin_utils.rs\<close>: the P2PKH (Base58Check)
  and P2WPKH (Bech32) addresses of a secp256k1 public key, and the list of account
  identifiers a key may sign for. A public key is its 64 bytes x, y; the fixed-size arrays
  of the code are byte lists of that length.
\<close>

definition compressed_pubkey :: "bytes \<Rightarrow> bytes" where
  "compressed_pubkey pubkey_bytes =
     (let prefix = (if pubkey_bytes ! 63 AND 1 = 0 then 0x02 else 0x03) in
      prefix # take 32 pubkey_bytes)"

definition pubkey_hash160 :: "'e crypto_scheme \<Rightarrow> bytes \<Rightarrow> bytes" where
  "pubkey_hash160 C pubkey_bytes = ripemd160 C (sha256 C (compressed_pubkey pubkey_bytes))"

definition p2pkh_payload :: "'e crypto_scheme \<Rightarrow> bytes \<Rightarrow> bytes" where
  "p2pkh_payload C pubkey_bytes =
     (let versioned = 0x00 # pubkey_hash160 C pubkey_bytes;
          checksum_full = sha256 C (sha256 C versioned)
      in versioned @ take 4 checksum_full)"

definition derive_bitcoin_address_from_pubkey :: "'e crypto_scheme \<Rightarrow> bytes \<Rightarrow> string" where
  "derive_bitcoin_address_from_pubkey C pubkey = bs58_encode C (p2pkh_payload C pubkey)"

definition derive_bitcoin_p2wpkh_from_pubkey :: "'e crypto_scheme \<Rightarrow> bytes \<Rightarrow> string" where
  "derive_bitcoin_p2wpkh_from_pubkey C pubkey = bech32_encode ''bc'' 0 (pubkey_hash160 C pubkey)"

definition derive_all_bitcoin_addresses :: "'e crypto_scheme \<Rightarrow> bytes \<Rightarrow> string list" where
  "derive_all_bitcoin_addresses C pubkey =
     (let p2pkh = derive_bitcoin_address_from_pubkey C pubkey;
          p2wpkh = derive_bitcoin_p2wpkh_from_pubkey C pubkey;
          p2pkh_legacy = to_lowercase p2pkh
      in if p2pkh_legacy \<noteq> p2pkh then [p2pkh, p2wpkh, p2pkh_legacy] else [p2pkh, p2wpkh])"

section \<open>Derived addresses are account identifiers\<close>

lemma length_p2pkh_payload: "digest_sizes C \<Longrightarrow> length (p2pkh_payload C pk) = 25"
  by (simp add: p2pkh_payload_def pubkey_hash160_def digest_sizes_def Let_def)

lemma p2pkh_base58check:
  assumes "digest_sizes C" "bs58_decode C (bs58_encode C (p2pkh_payload C pk)) = Some (p2pkh_payload C pk)"
    and "26 \<le> length (derive_bitcoin_address_from_pubkey C pk)"
    and "length (derive_bitcoin_address_from_pubkey C pk) \<le> 35"
  shows "has_valid_base58check_address C (derive_bitcoin_address_from_pubkey C pk)"
proof -
  let ?v = "0x00 # pubkey_hash160 C pk"
  have v: "length ?v = 21"
    using assms(1) by (simp add: digest_sizes_def pubkey_hash160_def)
  have p: "p2pkh_payload C pk = ?v @ take 4 (sha256 C (sha256 C ?v))"
    by (simp add: p2pkh_payload_def Let_def)
  have "take 21 (p2pkh_payload C pk) = ?v"
    "take 4 (drop 21 (p2pkh_payload C pk)) = take 4 (sha256 C (sha256 C ?v))"
    unfolding p using v by simp_all
  then show ?thesis
    using assms(2-4) length_p2pkh_payload [OF assms(1), of pk]
    unfolding has_valid_base58check_address_def derive_bitcoin_address_from_pubkey_def
    by (simp add: Let_def)
qed

lemma CHARSET_lower: "n < 32 \<Longrightarrow> lower_alnum (of_char (CHARSET ! n))"
proof -
  assume "n < 32"
  then have "n \<in> set [0..<32]" by simp
  moreover have "list_all (\<lambda>n. lower_alnum (of_char (CHARSET ! n))) [0..<32]" by code_simp
  ultimately show ?thesis unfolding list_all_iff by blast
qed

lemma p2wpkh_shape:
  assumes "digest_sizes C"
  shows "length (derive_bitcoin_p2wpkh_from_pubkey C pk) = 42
    \<and> starts_with (derive_bitcoin_p2wpkh_from_pubkey C pk) ''bc1q''
    \<and> list_all (\<lambda>c. lower_alnum (of_char c)) (derive_bitcoin_p2wpkh_from_pubkey C pk)"
proof -
  let ?h = "pubkey_hash160 C pk"
  have h: "length ?h = 20" using assms by (simp add: digest_sizes_def pubkey_hash160_def)
  obtain ds where ds: "to_data5 0 ?h = 0 # ds" by (rule to_data5_Cons)
  then obtain p where p: "p < 5" "5 * length ds = 160 + p" "groups 5 ds"
    using to_data5_spec [OF ds] h by auto
  then have l: "length ds = 32" by simp
  let ?data = "(0 # ds) @ bech32_checksum (hrp_expand ''bc'' @ 0 # ds)"
  have e: "derive_bitcoin_p2wpkh_from_pubkey C pk = ''bc1'' @ map (\<lambda>d. CHARSET ! unat d) ?data"
    by (simp add: derive_bitcoin_p2wpkh_from_pubkey_def bech32_encode_def ds Let_def)
  have "groups 5 ?data" using p(3) groups_5_checksum by (simp add: groups_def)
  then have "list_all (\<lambda>c. lower_alnum (of_char c)) (map (\<lambda>d. CHARSET ! unat d) ?data)"
    by (auto simp: list_all_iff groups_def intro!: CHARSET_lower)
  moreover have "CHARSET ! 0 = CHR ''q''" by (simp add: CHARSET_def)
  ultimately show ?thesis
    unfolding e using l by (simp add: starts_with_def lower_alnum_def)
qed

lemma p2wpkh_bitcoin_implicit:
  assumes "digest_sizes C"
  shows "is_bitcoin_implicit C (derive_bitcoin_p2wpkh_from_pubkey C pk)"
  using p2wpkh_shape [OF assms, of pk]
  by (simp add: is_bitcoin_implicit_def is_legacy_lowercased_bitcoin_def)

section \<open>Properties\<close>



end
