(* ===== verification/Bitcoin_Tx.thy ===== *)
theory Bitcoin_Tx
  imports Trie_State Bitcoin_Address
begin

text \<open>
  \<open>runtime/runtime/src/bitcoin_tx.rs\<close>: the Patoshi lock (records, floor guard, unlock
  trigger, sweep amount) and the Bitcoin-address signers (signature recovery and automatic
  access-key registration). A Patoshi record is stored as Borsh bytes in the contract data
  of its account.
\<close>

section \<open>Patoshi records\<close>

definition FOUNDATION_ACCOUNT_ID :: AccountId where
  "FOUNDATION_ACCOUNT_ID = ''near''"

definition PATOSHI_RECORD_DATA_KEY :: bytes where
  "PATOSHI_RECORD_DATA_KEY = as_bytes ''bitinfinity:patoshi:v1''"

definition PATOSHI_INDEX_DATA_KEY :: bytes where
  "PATOSHI_INDEX_DATA_KEY = as_bytes ''bitinfinity:patoshi:index:v1''"

definition PATOSHI_UNLOCK_DELAY_EPOCHS :: EpochHeight where
  "PATOSHI_UNLOCK_DELAY_EPOCHS = 14"

record PatoshiRecord =
  genesis_balance :: Balance
  is_locked :: bool
  unlock_epoch :: "EpochHeight option"

definition borsh_patoshi :: "PatoshiRecord \<Rightarrow> bytes" where
  "borsh_patoshi r = to_le_bytes 16 (genesis_balance r) @ borsh_bool (is_locked r)
     @ borsh_option (to_le_bytes 8) (unlock_epoch r)"

definition read_patoshi :: "bytes \<Rightarrow> (PatoshiRecord \<times> bytes) option" where
  "read_patoshi b =
     Option.bind (read_le 16 b) (\<lambda>(g, b1).
     Option.bind (read_bool b1) (\<lambda>(l, b2).
     Option.bind (read_option (read_le 8) b2) (\<lambda>(u, b3).
       Some (\<lparr> genesis_balance = g, is_locked = l, unlock_epoch = u \<rparr>, b3))))"

definition foundation_account_id :: AccountId where
  "foundation_account_id = FOUNDATION_ACCOUNT_ID"

definition get_patoshi_record ::
  "TrieUpdate \<Rightarrow> AccountId \<Rightarrow> (PatoshiRecord option, StorageError) result" where
  "get_patoshi_record s aid = get_data read_patoshi s aid PATOSHI_RECORD_DATA_KEY"

definition set_patoshi_record :: "AccountId \<Rightarrow> PatoshiRecord \<Rightarrow> TrieUpdate \<Rightarrow> TrieUpdate" where
  "set_patoshi_record aid r s = set_data aid PATOSHI_RECORD_DATA_KEY (borsh_patoshi r) s"

fun parse_index :: "'e crypto_scheme \<Rightarrow> string list \<Rightarrow> (AccountId list, StorageError) result" where
  "parse_index C [] = Ok []"
| "parse_index C (a # as) =
     (case account_id_new C a of
        Err _ \<Rightarrow> Err (StorageInconsistentState (''Invalid account in Patoshi index `'' @ a @ ''`''))
      | Ok aid \<Rightarrow> result_bind (parse_index C as) (\<lambda>aids. Ok (aid # aids)))"

definition get_patoshi_index ::
  "'e crypto_scheme \<Rightarrow> TrieUpdate \<Rightarrow> (AccountId list, StorageError) result" where
  "get_patoshi_index C s =
     result_bind (get_data (read_vec read_string) s foundation_account_id PATOSHI_INDEX_DATA_KEY)
       (\<lambda>accounts. case accounts of None \<Rightarrow> Ok [] | Some as \<Rightarrow> parse_index C as)"

definition is_patoshi_locked :: "PatoshiRecord \<Rightarrow> EpochHeight \<Rightarrow> bool" where
  "is_patoshi_locked r epoch_height =
     (if \<not> is_locked r then False
      else case unlock_epoch r of Some e \<Rightarrow> epoch_height < e | None \<Rightarrow> True)"

definition compute_patoshi_sweep :: "Balance \<Rightarrow> Balance \<Rightarrow> Balance \<Rightarrow> Balance \<times> Balance" where
  "compute_patoshi_sweep liquid_balance locked_balance genesis_bal =
     (let total_balance = saturating_add liquid_balance locked_balance;
          excess = saturating_sub total_balance genesis_bal;
          sweep_amount = min liquid_balance excess;
          unswept_excess = saturating_sub excess sweep_amount
      in (sweep_amount, unswept_excess))"

section \<open>The guard on a locked account\<close>

fun action_name :: "Action \<Rightarrow> string" where
  "action_name CreateAccount = ''CreateAccount''"
| "action_name (DeployContract _) = ''DeployContract''"
| "action_name (FunctionCall _) = ''FunctionCall''"
| "action_name (Transfer _) = ''Transfer''"
| "action_name (Stake _ _) = ''Stake''"
| "action_name (AddKey _ _) = ''AddKey''"
| "action_name (DeleteKey _) = ''DeleteKey''"
| "action_name (DeleteAccount _) = ''DeleteAccount''"
| "action_name (Delegate _ _) = ''Delegate''"
| "action_name (DeployGlobalContract _ _) = ''DeployGlobalContract''"
| "action_name (UseGlobalContract _) = ''UseGlobalContract''"
| "action_name (TransferToGasKey _ _) = ''TransferToGasKey''"
| "action_name (WithdrawFromGasKey _ _) = ''WithdrawFromGasKey''"
| "action_name (DeterministicStateInit _ _) = ''DeterministicStateInit''"

definition patoshi_validation_error :: "string \<Rightarrow> ProtocolVersion \<Rightarrow> InvalidTxError" where
  "patoshi_validation_error reason pv = ActionsValidation (UnsupportedProtocolFeature reason pv)"

definition validate_locked_action ::
  "AccountId \<Rightarrow> AccountId \<Rightarrow> ProtocolVersion \<Rightarrow> Action \<Rightarrow> (unit, InvalidTxError) result" where
  "validate_locked_action signer_id receiver_id pv action =
     (case action of
        Stake _ _ \<Rightarrow>
          if receiver_id \<noteq> signer_id
          then Err (patoshi_validation_error ''patoshi_locked_stake_requires_self_receiver'' pv)
          else Ok ()
      | Transfer _ \<Rightarrow>
          if receiver_id \<noteq> foundation_account_id
          then Err (patoshi_validation_error ''patoshi_locked_transfer_requires_foundation_receiver'' pv)
          else Ok ()
      | _ \<Rightarrow> Err (patoshi_validation_error (''patoshi_locked_action_blocked:'' @ action_name action) pv))"

fun validate_locked_actions ::
  "AccountId \<Rightarrow> AccountId \<Rightarrow> ProtocolVersion \<Rightarrow> Action list \<Rightarrow> (unit, InvalidTxError) result" where
  "validate_locked_actions signer_id receiver_id pv [] = Ok ()"
| "validate_locked_actions signer_id receiver_id pv (a # as) =
     result_bind (validate_locked_action signer_id receiver_id pv a)
       (\<lambda>_. validate_locked_actions signer_id receiver_id pv as)"

definition validate_locked_patoshi_transaction ::
  "AccountId \<Rightarrow> AccountId \<Rightarrow> Action list \<Rightarrow> Balance \<Rightarrow> EpochHeight \<Rightarrow> ProtocolVersion
     \<Rightarrow> PatoshiRecord \<Rightarrow> (unit, InvalidTxError) result" where
  "validate_locked_patoshi_transaction signer_id receiver_id actions post_total epoch pv r =
     (if \<not> is_patoshi_locked r epoch then Ok ()
      else result_bind (validate_locked_actions signer_id receiver_id pv actions) (\<lambda>_.
        if post_total < genesis_balance r
        then Err (patoshi_validation_error ''patoshi_below_genesis_floor'' pv)
        else Ok ()))"

definition is_patoshi_unlock_trigger :: "AccountId \<Rightarrow> Action list \<Rightarrow> bool" where
  "is_patoshi_unlock_trigger receiver_id actions =
     (if receiver_id \<noteq> foundation_account_id \<or> length actions \<noteq> 1 then False
      else case actions of Transfer d # _ \<Rightarrow> d = 0 | _ \<Rightarrow> False)"

definition maybe_schedule_patoshi_unlock ::
  "PatoshiRecord \<Rightarrow> AccountId \<Rightarrow> Action list \<Rightarrow> EpochHeight \<Rightarrow> PatoshiRecord \<times> EpochHeight option" where
  "maybe_schedule_patoshi_unlock r receiver_id actions current_epoch =
     (if \<not> is_patoshi_locked r current_epoch \<or> unlock_epoch r \<noteq> None then (r, None)
      else if \<not> is_patoshi_unlock_trigger receiver_id actions then (r, None)
      else let e = saturating_add current_epoch PATOSHI_UNLOCK_DELAY_EPOCHS
           in (r \<lparr> unlock_epoch := Some e \<rparr>, Some e))"

section \<open>Bitcoin signers\<close>

definition is_bitcoin_address :: "'e crypto_scheme \<Rightarrow> AccountId \<Rightarrow> bool" where
  "is_bitcoin_address C aid \<longleftrightarrow> get_account_type C aid = BtcImplicitAccount"

definition secp_recover :: "'e crypto_scheme \<Rightarrow> bytes \<Rightarrow> bytes \<Rightarrow> (bytes, string) result" where
  "secp_recover C sig msg =
     map_err (\<lambda>e. ''invalid signature data: '' @ e)
       (result_bind (recovery_id_from_i32 C (unat (sig ! 64))) (\<lambda>recovery_id.
        result_bind (from_compact C (take 64 sig) recovery_id) (\<lambda>recoverable_sig.
          recover_ecdsa C msg recoverable_sig)))"

definition recover_secp256k1_signature ::
  "'e crypto_scheme \<Rightarrow> bytes \<Rightarrow> Signature \<Rightarrow> (PublicKey \<times> string, string) result" where
  "recover_secp256k1_signature C message_hash signature =
     (case signature of
        SigSECP256K1 sig \<Rightarrow>
          if length message_hash \<noteq> 32 then Err ''Message hash must be exactly 32 bytes''
          else result_bind (map_err (\<lambda>e. ''Failed to recover public key: '' @ e)
                              (secp_recover C sig message_hash)) (\<lambda>pk.
                 Ok (SECP256K1 pk, hd (derive_all_bitcoin_addresses C pk)))
      | _ \<Rightarrow> Err ''Signature is not secp256k1; cannot recover public key'')"

definition auto_register_access_key_if_needed ::
  "AccountId \<Rightarrow> PublicKey \<Rightarrow> TrieUpdate \<Rightarrow> TrieUpdate \<times> (bool, StorageError) result" where
  "auto_register_access_key_if_needed aid pk s =
     (case get_access_key s aid pk of
        Err e \<Rightarrow> (s, Err e)
      | Ok (Some _) \<Rightarrow> (s, Ok False)
      | Ok None \<Rightarrow> (set_access_key aid pk full_access s, Ok True))"

definition verify_and_register_bitcoin_transaction ::
  "'e crypto_scheme \<Rightarrow> Signature \<Rightarrow> bytes \<Rightarrow> AccountId \<Rightarrow> TrieUpdate
     \<Rightarrow> TrieUpdate \<times> (bool \<times> PublicKey option, string) result" where
  "verify_and_register_bitcoin_transaction C tx_signature message_hash signer_id s =
     (if is_bitcoin_address C signer_id
      then case recover_secp256k1_signature C message_hash tx_signature of
             Err e \<Rightarrow> (s, Err e)
           | Ok (recovered_pubkey, _) \<Rightarrow>
               (case recovered_pubkey of
                  SECP256K1 k \<Rightarrow>
                    if signer_id \<notin> set (derive_all_bitcoin_addresses C k)
                    then (s, Ok (False, None))
                    else (case auto_register_access_key_if_needed signer_id recovered_pubkey s of
                            (s', Err _) \<Rightarrow> (s', Err ''Failed to register access key'')
                          | (s', Ok _) \<Rightarrow> (s', Ok (True, Some recovered_pubkey)))
                | _ \<Rightarrow> (s, Err ''Expected secp256k1 public key''))
      else (s, Ok (True, None)))"

end
