(* ===== verification/Outcomes.thy ===== *)
theory Outcomes
  imports Receipts Fees
begin

text \<open>
  What executing a transaction or a receipt leaves behind: the errors of actions
  (\<open>core/primitives/src/errors.rs\<close>), execution outcomes (\<open>core/primitives/src/transaction.rs\<close>)
  and the \<open>ActionResult\<close> of \<open>runtime/runtime/src/lib.rs\<close> with its \<open>merge\<close>. The profile of a
  result counts costs for display only and is left out; a function-call error is its text.
\<close>

section \<open>Errors\<close>

datatype ReceiptValidationError =
    InvalidPredecessorId string
  | InvalidReceiptReceiverId string
  | InvalidReceiptSignerId string
  | InvalidDataReceiverId string
  | ReturnedValueLengthExceeded u64 u64
  | NumberInputDataDependenciesExceeded u64 u64
  | ReceiptActionsValidation ActionsValidationError
  | ReceiptSizeExceeded u64 u64
  | InvalidRefundTo string

text \<open>\<open>RuntimePanic\<close> stands for a panic of the node, which the Rust type has no value for.\<close>

datatype RuntimeError =
    UnexpectedIntegerOverflow string
  | RInvalidTxError InvalidTxError
  | RStorageError StorageError
  | RReceiptValidationError ReceiptValidationError
  | ValidatorError string
  | RuntimePanic string

datatype ActionErrorKind =
    AccountAlreadyExists AccountId
  | AccountDoesNotExist AccountId
  | CreateAccountOnlyByRegistrar AccountId AccountId AccountId
  | CreateAccountNotAllowed AccountId AccountId
  | ActorNoPermission AccountId AccountId
  | DeleteKeyDoesNotExist AccountId PublicKey
  | AddKeyAlreadyExists AccountId PublicKey
  | DeleteAccountStaking AccountId
  | ActionLackBalanceForState AccountId Balance
  | TriesToUnstake AccountId
  | TriesToStake AccountId Balance Balance Balance
  | InsufficientStake AccountId Balance Balance
  | FunctionCallError string
  | NewReceiptValidationError ReceiptValidationError
  | OnlyImplicitAccountCreationAllowed AccountId
  | DeleteAccountWithLargeState AccountId
  | DelegateActionInvalidSignature
  | DelegateActionSenderDoesNotMatchTxReceiver AccountId AccountId
  | DelegateActionExpired
  | DelegateActionAccessKeyError InvalidAccessKeyError
  | DelegateActionInvalidNonce Nonce Nonce
  | DelegateActionNonceTooLarge Nonce Nonce
  | GlobalContractDoesNotExist GlobalContractIdentifier
  | GasKeyDoesNotExist AccountId PublicKey
  | InsufficientGasKeyBalance AccountId PublicKey Balance Balance
  | GasKeyBalanceTooHigh AccountId "PublicKey option" Balance

record ActionError =
  ae_index :: "u64 option"
  ae_kind :: ActionErrorKind

definition action_error :: "ActionErrorKind \<Rightarrow> ActionError" where
  "action_error k = \<lparr> ae_index = None, ae_kind = k \<rparr>"

datatype TxExecutionError =
    TxActionError ActionError
  | TxInvalidTxError InvalidTxError

definition overflow_error :: RuntimeError where
  "overflow_error = UnexpectedIntegerOverflow ''Integer overflow''"

definition fee_error :: "FeeError \<Rightarrow> RuntimeError" where
  "fee_error e = (case e of IntegerOverflowError \<Rightarrow> overflow_error | FeePanic \<Rightarrow> RuntimePanic ''fees'')"

section \<open>Outcomes\<close>

datatype ExecutionStatus =
    StatusUnknown
  | StatusFailure TxExecutionError
  | StatusSuccessValue bytes
  | StatusSuccessReceiptId CryptoHash

record ExecutionOutcomeWithId =
  eo_id :: CryptoHash
  eo_logs :: "string list"
  eo_receipt_ids :: "CryptoHash list"
  eo_gas_burnt :: Gas
  eo_compute_usage :: "u64 option"
  eo_tokens_burnt :: Balance
  eo_executor_id :: AccountId
  eo_status :: ExecutionStatus

definition failed_with_gas_burnt ::
  "SignedTransaction \<Rightarrow> InvalidTxError \<Rightarrow> Gas \<Rightarrow> Balance \<Rightarrow> ExecutionOutcomeWithId" where
  "failed_with_gas_burnt t e gas tokens =
     \<lparr> eo_id = st_hash t, eo_logs = [], eo_receipt_ids = [], eo_gas_burnt = gas,
       eo_compute_usage = Some gas, eo_tokens_burnt = tokens,
       eo_executor_id = tx_signer_id (st_transaction t), eo_status = StatusFailure (TxInvalidTxError e) \<rparr>"

definition failed_outcome :: "SignedTransaction \<Rightarrow> InvalidTxError \<Rightarrow> ExecutionOutcomeWithId" where
  "failed_outcome t e = failed_with_gas_burnt t e 0 0"

section \<open>Results of actions\<close>

datatype ReturnData = ReturnNone | ReturnValue bytes | ReturnReceiptIndex u64

record ActionResult =
  res_gas_burnt :: Gas
  res_gas_burnt_for_function_call :: Gas
  res_gas_used :: Gas
  res_compute_usage :: u64
  res_result :: "(ReturnData, ActionError) result"
  res_logs :: "string list"
  res_new_receipts :: "Receipt list"
  res_validator_proposals :: "(AccountId \<times> PublicKey \<times> Balance) list"
  res_tokens_burnt :: Balance

definition default_result :: ActionResult where
  "default_result = \<lparr> res_gas_burnt = 0, res_gas_burnt_for_function_call = 0, res_gas_used = 0,
     res_compute_usage = 0, res_result = Ok ReturnNone, res_logs = [], res_new_receipts = [],
     res_validator_proposals = [], res_tokens_burnt = 0 \<rparr>"

definition fail_with :: "ActionErrorKind \<Rightarrow> ActionResult \<Rightarrow> ActionResult" where
  "fail_with k r = r \<lparr> res_result := Err (action_error k) \<rparr>"

definition push_receipt :: "Receipt \<Rightarrow> ActionResult \<Rightarrow> ActionResult" where
  "push_receipt rc r = r \<lparr> res_new_receipts := res_new_receipts r @ [rc] \<rparr>"

definition checked_word :: "'a::len word \<Rightarrow> 'a word \<Rightarrow> ('a word, RuntimeError) result" where
  "checked_word a b = ok_or (checked_add a b) overflow_error"

text \<open>
  \<open>ActionResult::merge\<close>. Its two assertions panic; the shift of a receipt index is unchecked
  in the source and would panic on overflow.
\<close>

definition merge_result :: "ActionResult \<Rightarrow> ActionResult \<Rightarrow> (ActionResult, RuntimeError) result" where
  "merge_result r next =
     (if \<not> res_gas_burnt_for_function_call next \<le> res_gas_burnt next \<or> \<not> res_gas_burnt next \<le> res_gas_used next
      then Err (RuntimePanic ''gas burnt'')
      else
        result_bind (checked_word (res_gas_burnt r) (res_gas_burnt next)) (\<lambda>gas_burnt.
        result_bind (checked_word (res_gas_burnt_for_function_call r) (res_gas_burnt_for_function_call next)) (\<lambda>for_call.
        result_bind (checked_word (res_gas_used r) (res_gas_used next)) (\<lambda>gas_used.
        result_bind (checked_word (res_compute_usage r) (res_compute_usage next)) (\<lambda>compute.
        result_bind (case res_result next of
            Ok (ReturnReceiptIndex i) \<Rightarrow>
              result_bind (ok_or (checked_add i (word_of_nat (length (res_new_receipts r))))
                  (RuntimePanic ''receipt index'')) (\<lambda>j. Ok (Ok (ReturnReceiptIndex j)))
          | x \<Rightarrow> Ok x) (\<lambda>outcome.
        let r1 = r \<lparr> res_gas_burnt := gas_burnt, res_gas_burnt_for_function_call := for_call,
                    res_gas_used := gas_used, res_compute_usage := compute, res_result := outcome,
                    res_logs := res_logs r @ res_logs next \<rparr> in
        if is_ok outcome then
          result_bind (checked_word (res_tokens_burnt r) (res_tokens_burnt next)) (\<lambda>tokens.
            Ok (r1 \<lparr> res_new_receipts := res_new_receipts r @ res_new_receipts next,
                     res_validator_proposals := res_validator_proposals r @ res_validator_proposals next,
                     res_tokens_burnt := tokens \<rparr>))
        else Ok (r1 \<lparr> res_new_receipts := [], res_validator_proposals := [], res_tokens_burnt := 0 \<rparr>)))))))"

end
