(* ===== verification/Patoshi.thy ===== *)
theory Patoshi
  imports Bitcoin_Tx Outcomes
begin

text \<open>
  The epoch sweep \<open>sweep_patoshi_excess\<close> of \<open>runtime/runtime/src/lib.rs\<close> and the
  properties of the Patoshi lock: what a locked account may send, when it unlocks, and what
  the sweep does to balances. An error aborts the chunk, so the sweep returns a state only
  when it succeeds.
\<close>

fun sweep_accounts ::
  "EpochHeight \<Rightarrow> AccountId list \<Rightarrow> TrieUpdate \<Rightarrow> Balance \<Rightarrow> (TrieUpdate \<times> Balance, RuntimeError) result"
where
  "sweep_accounts epoch [] s total_swept = Ok (s, total_swept)"
| "sweep_accounts epoch (aid # aids) s total_swept =
     result_bind (map_err RStorageError (get_patoshi_record s aid)) (\<lambda>record.
       case record of
         None \<Rightarrow> sweep_accounts epoch aids s total_swept
       | Some r \<Rightarrow>
           if \<not> is_patoshi_locked r epoch then sweep_accounts epoch aids s total_swept
           else result_bind (map_err RStorageError (get_account s aid)) (\<lambda>account.
             case account of
               None \<Rightarrow> Err (RStorageError (StorageInconsistentState
                 (''Patoshi record exists for `'' @ aid @ ''` but account is missing'')))
             | Some a \<Rightarrow>
                 (let (sweep_amount, _) =
                        compute_patoshi_sweep (amount a) (locked a) (genesis_balance r) in
                  if sweep_amount = 0 then sweep_accounts epoch aids s total_swept
                  else result_bind (ok_or (checked_sub (amount a) sweep_amount)
                         (UnexpectedIntegerOverflow ''sweep_patoshi_excess - signer debit'')) (\<lambda>am.
                       let s' = set_account aid (set_amount am a) s in
                       result_bind (ok_or (checked_add total_swept sweep_amount)
                         (UnexpectedIntegerOverflow ''sweep_patoshi_excess - total_swept''))
                         (\<lambda>total_swept'. sweep_accounts epoch aids s' total_swept')))))"

definition sweep_patoshi_excess ::
  "'e crypto_scheme \<Rightarrow> EpochHeight \<Rightarrow> TrieUpdate \<Rightarrow> (TrieUpdate, RuntimeError) result" where
  "sweep_patoshi_excess C epoch s =
     result_bind (map_err RStorageError (get_patoshi_index C s)) (\<lambda>patoshi_accounts.
       if patoshi_accounts = [] then Ok s
       else result_bind (sweep_accounts epoch patoshi_accounts s 0) (\<lambda>(s1, total_swept).
         if total_swept = 0 then Ok s1
         else result_bind (map_err RStorageError (get_account s1 foundation_account_id)) (\<lambda>f.
           case f of
             None \<Rightarrow> Err (RStorageError (StorageInconsistentState
               (''Foundation account `'' @ foundation_account_id @ ''` is missing'')))
           | Some foundation \<Rightarrow>
               result_bind (ok_or (checked_add (amount foundation) total_swept)
                 (UnexpectedIntegerOverflow ''sweep_patoshi_excess - foundation credit''))
                 (\<lambda>am. Ok (set_account foundation_account_id (set_amount am foundation) s1)))))"

section \<open>Records round trip\<close>

interpretation patoshi_codec: prefix_codec borsh_patoshi read_patoshi "\<lambda>_. True"
proof
  fix x :: PatoshiRecord and rest
  have "read_option (read_le 8) (borsh_option (to_le_bytes 8) (unlock_epoch x) @ rest)
      = Some (unlock_epoch x, rest)"
    by (rule prefix_codec.dec_enc [OF prefix_codec_option [OF u64c.prefix_codec_axioms]]) simp
  then show "read_patoshi (borsh_patoshi x @ rest) = Some (x, rest)"
    by (simp add: borsh_patoshi_def read_patoshi_def read_le_to_le bool_codec.dec_enc)
qed

lemma read_patoshi_exact: "try_from_slice read_patoshi (borsh_patoshi r) = Some r"
  by (rule try_from_slice_exact [OF patoshi_codec.prefix_codec_axioms]) simp

lemma get_data_writes [simp]:
  "get_data dec (set_account aid a s) x k = get_data dec s x k"
  "get_data dec (set_access_key aid pk ak s) x k = get_data dec s x k"
  "get_data dec (set_gas_key_nonce aid pk i n s) x k = get_data dec s x k"
  by (simp_all add: get_data_def trie_read_def)

lemma get_set_patoshi_record:
  assumes "t_fault s (KContractData aid PATOSHI_RECORD_DATA_KEY) = None"
  shows "get_patoshi_record (set_patoshi_record aid r s) aid = Ok (Some r)"
  using assms
  by (simp add: get_patoshi_record_def set_patoshi_record_def get_data_def trie_read_def
      bt_get_insert read_patoshi_exact)

section \<open>The sweep amount\<close>

lemma compute_patoshi_sweep_spec:
  assumes "compute_patoshi_sweep liquid staked floor = (sweep, unswept)"
    and "unat liquid + unat staked < 2 ^ 128"
  shows "unat sweep = min (unat liquid) (unat liquid + unat staked - unat floor)"
    and "unat sweep + unat unswept = unat liquid + unat staked - unat floor"
proof -
  have "unat (saturating_add liquid staked) = unat liquid + unat staked"
    using assms(2) by (simp add: unat_saturating_add)
  then show "unat sweep = min (unat liquid) (unat liquid + unat staked - unat floor)"
    and "unat sweep + unat unswept = unat liquid + unat staked - unat floor"
    using assms(1)
    by (auto simp: compute_patoshi_sweep_def Let_def unat_saturating_sub unat_min)
qed

lemma sweep_at_most_liquid:
  "compute_patoshi_sweep liquid staked floor = (sweep, unswept) \<Longrightarrow> unat sweep \<le> unat liquid"
  by (auto simp: compute_patoshi_sweep_def Let_def unat_min)

text \<open>What the sweep takes from an account, given the records of the state.\<close>

definition sweep_due :: "TrieUpdate \<Rightarrow> EpochHeight \<Rightarrow> AccountId \<Rightarrow> Account \<Rightarrow> Balance" where
  "sweep_due s epoch aid a =
     (case get_patoshi_record s aid of
        Ok (Some r) \<Rightarrow>
          if is_patoshi_locked r epoch
          then fst (compute_patoshi_sweep (amount a) (locked a) (genesis_balance r)) else 0
      | _ \<Rightarrow> 0)"

definition swept :: "TrieUpdate \<Rightarrow> EpochHeight \<Rightarrow> AccountId \<Rightarrow> Account \<Rightarrow> Account" where
  "swept s epoch aid a = set_amount (amount a - sweep_due s epoch aid a) a"

lemma sweep_due_writes [simp]:
  "sweep_due (set_account x b s) epoch aid a = sweep_due s epoch aid a"
  by (simp add: sweep_due_def get_patoshi_record_def)

lemma swept_writes [simp]: "swept (set_account x b s) epoch aid a = swept s epoch aid a"
  by (simp add: swept_def)

lemma sweep_due_le: "unat (sweep_due s epoch aid a) \<le> unat (amount a)"
  by (auto simp: sweep_due_def sweep_at_most_liquid [OF prod.collapse [symmetric]]
      split: result.splits option.splits)

lemma set_amount_id: "set_amount (amount a) a = a"
  by (cases a) simp_all

lemma set_amount_twice [simp]: "set_amount x (set_amount y a) = set_amount x a"
  by (cases a) simp_all

section \<open>The sweep loop\<close>

lemma sweep_step:
  assumes "sweep_accounts epoch (aid # aids) s tot = Ok res"
  obtains (skip) "sweep_accounts epoch aids s tot = Ok res"
      "\<And>a. bt_get (t_accounts s) aid = Some a \<Longrightarrow> sweep_due s epoch aid a = 0"
  | (take) a tot' where "bt_get (t_accounts s) aid = Some a"
      "unat tot' = unat tot + unat (sweep_due s epoch aid a)"
      "sweep_accounts epoch aids (set_account aid (swept s epoch aid a) s) tot' = Ok res"
proof -
  obtain rec where rec: "get_patoshi_record s aid = Ok rec"
    using assms by (auto simp: result_simps)
  show thesis
  proof (cases "\<exists>r. rec = Some r \<and> is_patoshi_locked r epoch")
    case False
    then have "sweep_accounts epoch aids s tot = Ok res"
      using assms rec by (auto split: option.splits)
    moreover have "sweep_due s epoch aid a = 0" for a
      using False rec by (auto simp: sweep_due_def split: option.splits)
    ultimately show thesis by (rule skip)
  next
    case True
    then obtain r where r: "rec = Some r" "is_patoshi_locked r epoch" by blast
    obtain a where a: "get_account s aid = Ok (Some a)"
      using assms rec r by (auto simp: result_simps split: option.splits)
    then have ga: "bt_get (t_accounts s) aid = Some a" by (auto simp: get_account_Ok)
    obtain sw un where cs: "compute_patoshi_sweep (amount a) (locked a) (genesis_balance r) = (sw, un)"
      by fastforce
    have due: "sweep_due s epoch aid a = sw" using rec r cs by (simp add: sweep_due_def)
    show thesis
    proof (cases "sw = 0")
      case True
      then have "sweep_accounts epoch aids s tot = Ok res"
        using assms rec r a cs by simp
      then show thesis using skip due ga True by auto
    next
      case False
      have "sw \<le> amount a" using sweep_at_most_liquid [OF cs] by (simp add: word_le_nat_alt)
      then have sub: "checked_sub (amount a) sw = Some (amount a - sw)"
        by (simp add: checked_sub_def)
      obtain tot' where tot': "checked_add tot sw = Some tot'"
        and rest: "sweep_accounts epoch aids (set_account aid (set_amount (amount a - sw) a) s) tot' = Ok res"
        using assms rec r a cs False sub by (auto simp: result_simps)
      show thesis
        by (rule take [OF ga]) (use tot' rest due in \<open>simp_all add: swept_def checked_add_Some\<close>)
    qed
  qed
qed

lemma account_tokens_swept:
  "account_tokens (swept s epoch aid a) + unat (sweep_due s epoch aid a) = account_tokens a"
  using sweep_due_le [of s epoch aid a]
  by (simp add: account_tokens_def swept_def unat_sub_exact word_le_nat_alt)

lemma sweep_accounts_conserve:
  assumes "trie_inv s" "sweep_accounts epoch aids s tot = Ok (s', tot')"
  shows "trie_inv s' \<and> t_data s' = t_data s \<and> t_fault s' = t_fault s
    \<and> t_access_keys s' = t_access_keys s
    \<and> bt_sum account_tokens (t_accounts s') + unat tot'
        = bt_sum account_tokens (t_accounts s) + unat tot"
  using assms
proof (induction aids arbitrary: s tot)
  case (Cons aid aids)
  from Cons.prems(2) show ?case
  proof (cases rule: sweep_step)
    case skip
    then show ?thesis using Cons by blast
  next
    case (take a t1)
    have "bt_sum account_tokens (t_accounts (set_account aid (swept s epoch aid a) s)) + account_tokens a
        = bt_sum account_tokens (t_accounts s) + account_tokens (swept s epoch aid a)"
      by (rule tacc.tot_upd [OF take(1) Cons.prems(1)])
    then show ?thesis
      using Cons.IH [OF _ take(3)] Cons.prems(1) take(2) account_tokens_swept [of s epoch aid a]
      by simp
  qed
qed simp

lemma second_sweep_zero:
  "min (A - min A (A + L - G)) (A - min A (A + L - G) + L - G) = (0::nat)"
  by (cases "G \<le> L"; cases "G \<le> A + L") (auto simp: min_def)

text \<open>A swept account owes nothing more, as long as its balance fits the word.\<close>

lemma sweep_due_swept:
  assumes "account_tokens a < 2 ^ 128"
  shows "sweep_due s epoch aid (swept s epoch aid a) = 0"
proof -
  define d where "d = sweep_due s epoch aid a"
  have le: "unat d \<le> unat (amount a)" unfolding d_def by (rule sweep_due_le)
  then have am: "unat (amount a - d) = unat (amount a) - unat d"
    by (simp add: unat_sub_exact word_le_nat_alt)
  show ?thesis
  proof (cases "\<exists>r. get_patoshi_record s aid = Ok (Some r) \<and> is_patoshi_locked r epoch")
    case False
    then show ?thesis by (auto simp: sweep_due_def split: result.splits option.splits)
  next
    case True
    then obtain r where r: "get_patoshi_record s aid = Ok (Some r)" "is_patoshi_locked r epoch" by blast
    have d: "d = fst (compute_patoshi_sweep (amount a) (locked a) (genesis_balance r))"
      using r by (simp add: d_def sweep_due_def)
    obtain sw un where cs: "compute_patoshi_sweep (amount a - d) (locked a) (genesis_balance r) = (sw, un)"
      by fastforce
    let ?A = "unat (amount a)" and ?L = "unat (locked a)" and ?G = "unat (genesis_balance r)"
    have D: "unat d = min ?A (?A + ?L - ?G)"
      unfolding d using assms
      by (intro compute_patoshi_sweep_spec(1) [OF prod.collapse [symmetric]])
        (simp add: account_tokens_def)
    have "unat (amount a - d) + ?L < 2 ^ 128"
      using assms am by (simp add: account_tokens_def)
    then have "unat sw = min (unat (amount a - d)) (unat (amount a - d) + ?L - ?G)"
      by (rule compute_patoshi_sweep_spec(1) [OF cs])
    then have "unat sw = 0" unfolding am D by (simp only: second_sweep_zero)
    then have "sw = 0" by (simp add: unat_eq_0)
    then show ?thesis
      using r cs by (simp add: sweep_due_def swept_def d_def)
  qed
qed

lemma sweep_accounts_each:
  assumes "trie_inv s" "bt_sum account_tokens (t_accounts s) < 2 ^ 128"
    and "sweep_accounts epoch aids s tot = Ok (s', tot')"
    and "bt_get (t_accounts s) x = Some a"
  shows "bt_get (t_accounts s') x = Some (if x \<in> set aids then swept s epoch x a else a)"
  using assms
proof (induction aids arbitrary: s tot a)
  case (Cons aid aids)
  have "account_tokens a < 2 ^ 128"
    using bt_sum_member [OF Cons.prems(4), of account_tokens] Cons.prems(2) by simp
  note fits = sweep_due_swept [OF this]
  have again: "swept s epoch x (swept s epoch x a) = swept s epoch x a"
    using fits unfolding swept_def by simp
  from Cons.prems(3) show ?case
  proof (cases rule: sweep_step)
    case skip
    then have "x = aid \<Longrightarrow> swept s epoch x a = a"
      using Cons.prems(4) by (simp add: swept_def set_amount_id)
    then show ?thesis using Cons.IH [OF Cons.prems(1,2) skip(1) Cons.prems(4)] by auto
  next
    case (take b t1)
    let ?s = "set_account aid (swept s epoch aid b) s"
    have "bt_sum account_tokens (t_accounts ?s) + account_tokens b
        = bt_sum account_tokens (t_accounts s) + account_tokens (swept s epoch aid b)"
      by (rule tacc.tot_upd [OF take(1) Cons.prems(1)])
    then have fits': "bt_sum account_tokens (t_accounts ?s) < 2 ^ 128"
      using account_tokens_swept [of s epoch aid b] Cons.prems(2) by linarith
    have get: "bt_get (t_accounts ?s) x = Some (if x = aid then swept s epoch x a else a)"
      using Cons.prems(4) take(1) by (cases "x = aid") (auto simp: bt_get_insert)
    show ?thesis
      using Cons.IH [OF _ fits' take(3) get] Cons.prems(1) again by auto
  qed
qed simp

lemma sweep_patoshi_cases:
  assumes "sweep_patoshi_excess C epoch s = Ok s'" "get_patoshi_index C s = Ok idx"
  obtains (none) s1 tot where "sweep_accounts epoch idx s 0 = Ok (s1, tot)" "s' = s1" "unat tot = 0"
  | (credit) s1 tot f am where "sweep_accounts epoch idx s 0 = Ok (s1, tot)"
      "bt_get (t_accounts s1) foundation_account_id = Some f"
      "unat am = unat (amount f) + unat tot"
      "s' = set_account foundation_account_id (set_amount am f) s1"
proof (cases "idx = []")
  case True
  show thesis
    by (rule none [of s 0]) (use assms True in \<open>simp_all add: sweep_patoshi_excess_def\<close>)
next
  case False
  then obtain s1 tot where sw: "sweep_accounts epoch idx s 0 = Ok (s1, tot)"
    using assms by (auto simp: sweep_patoshi_excess_def result_simps)
  show thesis
  proof (cases "tot = 0")
    case True
    show thesis
      by (rule none [OF sw]) (use assms False sw True in \<open>simp_all add: sweep_patoshi_excess_def\<close>)
  next
    case nz: False
    then obtain f where f: "get_account s1 foundation_account_id = Ok (Some f)"
      using assms False sw
      by (auto simp: sweep_patoshi_excess_def result_simps split: option.splits)
    then obtain am where "checked_add (amount f) tot = Some am"
        "s' = set_account foundation_account_id (set_amount am f) s1"
      using assms False sw nz by (auto simp: sweep_patoshi_excess_def result_simps)
    then show thesis
      by (intro credit [OF sw]) (use f in \<open>auto simp: get_account_Ok checked_add_Some\<close>)
  qed
qed

lemma sweep_patoshi_conserves:
  assumes "trie_inv s" "sweep_patoshi_excess C epoch s = Ok s'" "get_patoshi_index C s = Ok idx"
  shows "trie_inv s' \<and> state_tokens s' = state_tokens s"
  using assms(2,3)
proof (cases rule: sweep_patoshi_cases)
  case (none s1 tot)
  then show ?thesis
    using sweep_accounts_conserve [OF assms(1) none(1)] by (simp add: state_tokens_def)
next
  case (credit s1 tot f am)
  note c = sweep_accounts_conserve [OF assms(1) credit(1)]
  then have "bt_sum account_tokens (t_accounts s') + account_tokens f
      = bt_sum account_tokens (t_accounts s1) + account_tokens (set_amount am f)"
    unfolding credit(4) by (intro tacc.tot_upd [OF credit(2)]) simp
  then show ?thesis
    using c credit(3,4) by (simp add: state_tokens_def account_tokens_def)
qed

lemma sweep_patoshi_account:
  assumes "trie_inv s" "bt_sum account_tokens (t_accounts s) < 2 ^ 128"
    and "sweep_patoshi_excess C epoch s = Ok s'" "get_patoshi_index C s = Ok idx"
    and "bt_get (t_accounts s) x = Some a" "x \<noteq> foundation_account_id"
  shows "bt_get (t_accounts s') x = Some (if x \<in> set idx then swept s epoch x a else a)"
  using assms(3,4)
proof (cases rule: sweep_patoshi_cases)
  case (none s1 tot)
  then show ?thesis using sweep_accounts_each [OF assms(1,2) none(1) assms(5)] by simp
next
  case (credit s1 tot f am)
  then show ?thesis
    using sweep_accounts_each [OF assms(1,2) credit(1) assms(5)] assms(6) by (simp add: bt_get_insert)
qed

lemma swept_floor_nat:
  "A + L - min A (A + L - G) = max (min (A + L) G) (L :: nat)"
  by (cases "G \<le> L"; cases "G \<le> A + L") (auto simp: min_def max_def)

lemma swept_tokens:
  assumes "account_tokens a < 2 ^ 128"
    and "get_patoshi_record s aid = Ok (Some r)" "is_patoshi_locked r epoch"
  shows "account_tokens (swept s epoch aid a)
    = max (min (account_tokens a) (unat (genesis_balance r))) (unat (locked a))"
proof -
  have "unat (sweep_due s epoch aid a)
      = min (unat (amount a)) (account_tokens a - unat (genesis_balance r))"
    using assms compute_patoshi_sweep_spec(1) [OF prod.collapse [symmetric]]
    by (simp add: sweep_due_def account_tokens_def)
  then have "account_tokens (swept s epoch aid a)
      = account_tokens a - min (unat (amount a)) (account_tokens a - unat (genesis_balance r))"
    using account_tokens_swept [of s epoch aid a] by simp
  then show ?thesis using swept_floor_nat by (simp add: account_tokens_def)
qed

section \<open>The lock\<close>

definition locked_action_ok :: "AccountId \<Rightarrow> AccountId \<Rightarrow> Action \<Rightarrow> bool" where
  "locked_action_ok signer_id receiver_id a \<longleftrightarrow>
     (\<exists>st pk. a = Stake st pk \<and> receiver_id = signer_id)
     \<or> (\<exists>d. a = Transfer d \<and> receiver_id = foundation_account_id)"

lemma validate_locked_action_iff:
  "validate_locked_action sid rid pv a = Ok () \<longleftrightarrow> locked_action_ok sid rid a"
  by (cases a) (auto simp: validate_locked_action_def locked_action_ok_def)

lemma validate_locked_actions_iff:
  "validate_locked_actions sid rid pv as = Ok () \<longleftrightarrow> (\<forall>a \<in> set as. locked_action_ok sid rid a)"
  by (induction as) (auto simp: result_simps validate_locked_action_iff)

text \<open>
  The life of a Patoshi record: it starts locked at genesis, transactions of its account
  may schedule the unlock, and epochs pass. The history lists the transactions with the
  epoch each ran in.
\<close>

inductive patoshi_run ::
  "Balance \<Rightarrow> (EpochHeight \<times> AccountId \<times> Action list) list \<Rightarrow> PatoshiRecord \<Rightarrow> EpochHeight \<Rightarrow> bool"
  for g where
  genesis: "patoshi_run g [] \<lparr> genesis_balance = g, is_locked = True, unlock_epoch = None \<rparr> e"
| tx: "patoshi_run g h r e \<Longrightarrow> maybe_schedule_patoshi_unlock r rid acts e = (r', x) \<Longrightarrow>
     patoshi_run g ((e, rid, acts) # h) r' e"
| epoch: "patoshi_run g h r e \<Longrightarrow> e \<le> e' \<Longrightarrow> patoshi_run g h r e'"

inductive_cases patoshi_run_NilE: "patoshi_run g [] r e"

lemma unlock_trigger_iff:
  "is_patoshi_unlock_trigger rid acts \<longleftrightarrow> rid = foundation_account_id \<and> acts = [Transfer 0]"
  by (auto simp: is_patoshi_unlock_trigger_def length_Suc_conv split: Action.splits)

lemma patoshi_run_inv:
  "patoshi_run g h r e \<Longrightarrow> genesis_balance r = g \<and> is_locked r \<and>
     (\<forall>u. unlock_epoch r = Some u \<longrightarrow>
        (\<exists>e0. (e0, foundation_account_id, [Transfer 0]) \<in> set h
              \<and> u = saturating_add e0 PATOSHI_UNLOCK_DELAY_EPOCHS))"
  by (induction rule: patoshi_run.induct)
    (auto simp: maybe_schedule_patoshi_unlock_def unlock_trigger_iff Let_def split: if_splits)

section \<open>Properties\<close>

text \<open>
  C2: The guard on a locked Patoshi account is exactly this: a transaction passes if and
  only if the account is not locked in this epoch, or every action is a stake on itself or a
  transfer to the foundation and the balance left (liquid and staked) is at least the
  genesis floor. So no accepted transaction takes a locked account below its floor or sends
  its tokens anywhere but to the foundation.
\<close>

theorem locked_patoshi_guard:
  "validate_locked_patoshi_transaction signer_id receiver_id actions post_total epoch pv r = Ok ()
   \<longleftrightarrow> (is_patoshi_locked r epoch \<longrightarrow>
        unat (genesis_balance r) \<le> unat post_total
        \<and> (\<forall>a \<in> set actions. locked_action_ok signer_id receiver_id a))"
  by (auto simp: validate_locked_patoshi_transaction_def result_simps validate_locked_actions_iff
      word_less_nat_alt)

theorem locked_patoshi_guard_witness:
  "validate_locked_patoshi_transaction ''1abc'' ''near'' [Transfer 5] 100 3 84
     \<lparr> genesis_balance = 100, is_locked = True, unlock_epoch = None \<rparr> = Ok ()
   \<and> validate_locked_patoshi_transaction ''1abc'' ''eve'' [Transfer 5] 100 3 84
     \<lparr> genesis_balance = 100, is_locked = True, unlock_epoch = None \<rparr> \<noteq> Ok ()"
  unfolding locked_patoshi_guard
  by (simp add: is_patoshi_locked_def locked_action_ok_def foundation_account_id_def
      FOUNDATION_ACCOUNT_ID_def)

text \<open>
  C19: A Patoshi record unlocks no earlier than fourteen epochs after its account sent the
  trigger. In every run of transactions and epochs from genesis, if the record is not locked
  in epoch \<open>e\<close> then a transaction consisting of one zero transfer to the foundation ran in
  some epoch at least fourteen before \<open>e\<close> (or \<open>e\<close> is the last representable epoch); and
  the floor never changes.
\<close>

theorem unlock_needs_trigger_and_delay:
  assumes "patoshi_run g h r e" "\<not> is_patoshi_locked r e"
  shows "genesis_balance r = g \<and>
    (\<exists>e0. (e0, foundation_account_id, [Transfer 0]) \<in> set h \<and> (unat e0 + 14 \<le> unat e \<or> e = - 1))"
proof -
  note inv = patoshi_run_inv [OF assms(1)]
  then obtain u where u: "unlock_epoch r = Some u" "u \<le> e"
    using assms(2) by (auto simp: is_patoshi_locked_def split: option.splits if_splits)
  then obtain e0 where e0: "(e0, foundation_account_id, [Transfer 0]) \<in> set h"
    "u = saturating_add e0 PATOSHI_UNLOCK_DELAY_EPOCHS"
    using inv by blast
  have "unat u = min (unat e0 + 14) (2 ^ 64 - 1)"
    using e0(2) by (simp add: unat_saturating_add PATOSHI_UNLOCK_DELAY_EPOCHS_def)
  moreover have "unat u \<le> unat e" using u(2) by (simp add: word_le_nat_alt)
  moreover have "unat e < 2 ^ 64" using unat_bound [of e] by simp
  moreover have "unat (- 1 :: u64) = 2 ^ 64 - 1" by (simp add: unat_max)
  ultimately have "unat e0 + 14 \<le> unat e \<or> unat e = unat (- 1 :: u64)"
    by (auto simp: min_def split: if_splits)
  then have "unat e0 + 14 \<le> unat e \<or> e = - 1" by (simp only: word_unat_eq_iff)
  then show ?thesis using inv e0(1) by blast
qed

text \<open>A run that requests the unlock in epoch 5 and reaches epoch 19.\<close>

lemma example_run:
  "patoshi_run 100 [(5, foundation_account_id, [Transfer 0])]
     \<lparr> genesis_balance = 100, is_locked = True, unlock_epoch = Some 19 \<rparr> 19"
proof (rule patoshi_run.epoch)
  show "patoshi_run 100 [(5, foundation_account_id, [Transfer 0])]
     \<lparr> genesis_balance = 100, is_locked = True, unlock_epoch = Some 19 \<rparr> 5"
  proof (rule patoshi_run.tx [OF patoshi_run.genesis])
    show "maybe_schedule_patoshi_unlock \<lparr> genesis_balance = 100, is_locked = True, unlock_epoch = None \<rparr>
        foundation_account_id [Transfer 0] 5
        = (\<lparr> genesis_balance = 100, is_locked = True, unlock_epoch = Some 19 \<rparr>, Some 19)"
      by (simp add: maybe_schedule_patoshi_unlock_def is_patoshi_locked_def
          is_patoshi_unlock_trigger_def saturating_add_def PATOSHI_UNLOCK_DELAY_EPOCHS_def)
  qed
qed simp

theorem unlock_needs_trigger_and_delay_witness:
  "\<exists>e0. (e0, foundation_account_id, [Transfer 0]) \<in> set [(5 :: u64, foundation_account_id, [Transfer 0])]
     \<and> (unat e0 + 14 \<le> unat (19 :: u64) \<or> (19 :: u64) = - 1)"
  using unlock_needs_trigger_and_delay [OF example_run] by (simp add: is_patoshi_locked_def)

text \<open>
  C20: Fourteen epochs after the trigger the account is free. A locked record with no unlock
  pending that sees the trigger in epoch \<open>e0\<close> stays locked through every epoch before
  \<open>e0 + 14\<close> and is unlocked in every epoch from \<open>e0 + 14\<close> on, and a later trigger does not
  postpone it.
\<close>

theorem unlock_happens_after_delay:
  assumes "is_locked r" "unlock_epoch r = None" "unat e0 + 14 < 2 ^ 64"
    and "maybe_schedule_patoshi_unlock r foundation_account_id [Transfer 0] e0 = (r', x)"
  shows "(is_patoshi_locked r' e \<longleftrightarrow> unat e < unat e0 + 14)
    \<and> fst (maybe_schedule_patoshi_unlock r' rid acts e1) = r'"
proof -
  have r': "r' = r \<lparr> unlock_epoch := Some (saturating_add e0 PATOSHI_UNLOCK_DELAY_EPOCHS) \<rparr>"
    using assms
    by (auto simp: maybe_schedule_patoshi_unlock_def is_patoshi_locked_def unlock_trigger_iff Let_def)
  have "unat (saturating_add e0 PATOSHI_UNLOCK_DELAY_EPOCHS) = unat e0 + 14"
    using assms(3) by (simp add: unat_saturating_add PATOSHI_UNLOCK_DELAY_EPOCHS_def)
  then show ?thesis
    using assms(1) by (simp add: r' is_patoshi_locked_def word_less_nat_alt
        maybe_schedule_patoshi_unlock_def)
qed

theorem unlock_happens_after_delay_witness:
  "\<not> is_patoshi_locked (fst (maybe_schedule_patoshi_unlock
     \<lparr> genesis_balance = 100, is_locked = True, unlock_epoch = None \<rparr>
     foundation_account_id [Transfer 0] 5)) 19"
  using unlock_happens_after_delay
    [of "\<lparr> genesis_balance = 100, is_locked = True, unlock_epoch = None \<rparr>" 5 _ _ 19,
     OF _ _ _ prod.collapse [symmetric]]
  by simp

text \<open>
  C1: The epoch sweep moves tokens and never makes or loses any, and leaves every locked
  account exactly at its floor where it can. With a total supply below \<open>2^128\<close>, a successful
  sweep keeps the sum of all balances; it leaves an indexed, locked account with
  \<open>max (min balance floor) staked\<close> tokens (the floor, unless the account was below it or has
  more than the floor staked), its stake untouched; and it changes no account outside the
  index but the foundation's.
\<close>

theorem sweep_conserves_and_floors:
  assumes "trie_inv s" "state_tokens s < 2 ^ 128"
    and "sweep_patoshi_excess C epoch s = Ok s'" "get_patoshi_index C s = Ok idx"
  shows "trie_inv s' \<and> state_tokens s' = state_tokens s
    \<and> (\<forall>x a r. bt_get (t_accounts s) x = Some a \<and> x \<in> set idx \<and> x \<noteq> foundation_account_id
          \<and> get_patoshi_record s x = Ok (Some r) \<and> is_patoshi_locked r epoch \<longrightarrow>
          (\<exists>a'. bt_get (t_accounts s') x = Some a' \<and> locked a' = locked a
            \<and> account_tokens a'
                = max (min (account_tokens a) (unat (genesis_balance r))) (unat (locked a))))
    \<and> (\<forall>x a. bt_get (t_accounts s) x = Some a \<and> x \<notin> set idx \<and> x \<noteq> foundation_account_id \<longrightarrow>
          bt_get (t_accounts s') x = Some a)"
proof -
  have sum: "bt_sum account_tokens (t_accounts s) < 2 ^ 128"
    using assms(2) by (simp add: state_tokens_def)
  have fits: "account_tokens a < 2 ^ 128" if "bt_get (t_accounts s) x = Some a" for x a
    using bt_sum_member [OF that, of account_tokens] sum by simp
  show ?thesis
    using sweep_patoshi_conserves [OF assms(1,3,4)]
      sweep_patoshi_account [OF assms(1) sum assms(3,4)] swept_tokens [OF fits]
    by (auto simp: swept_def)
qed

text \<open>A locked account of 150 tokens with floor 100, and the foundation with 10.\<close>

definition wit_account :: "Balance \<Rightarrow> Account" where
  "wit_account am = V1 \<lparr> v1_amount = am, v1_locked = 0, v1_code_hash = default_hash, v1_storage_usage = 100 \<rparr>"

definition wit_record :: PatoshiRecord where
  "wit_record = \<lparr> genesis_balance = 100, is_locked = True, unlock_epoch = None \<rparr>"

definition wit_trie :: TrieUpdate where
  "wit_trie = \<lparr> t_accounts = [(''alice'', wit_account 150), (''near'', wit_account 10)],
     t_code = [], t_access_keys = [], t_gas_key_nonces = [],
     t_data = [((''alice'', PATOSHI_RECORD_DATA_KEY), borsh_patoshi wit_record),
               ((''near'', PATOSHI_INDEX_DATA_KEY), borsh_vec borsh_string [''alice''])],
     t_global_code = Map.empty, t_global_nonces = Map.empty, t_received_data = Map.empty,
     t_postponed_ids = Map.empty, t_pending_counts = Map.empty, t_postponed = Map.empty, t_yields = Map.empty,
     t_yield_resumed = Map.empty, t_fault = (\<lambda>_. None) \<rparr>"

lemma wit_trie_ok: "trie_inv wit_trie" "state_tokens wit_trie < 2 ^ 128"
  by (simp_all add: trie_inv_def bt_inv_def wit_trie_def state_tokens_def account_tokens_def
      wit_account_def less_prod_def)

lemma wit_record_read: "get_patoshi_record wit_trie ''alice'' = Ok (Some wit_record)"
  by (simp add: get_patoshi_record_def get_data_def trie_read_def wit_trie_def read_patoshi_exact)

lemma wit_index_read: "get_patoshi_index toy_crypto wit_trie = Ok [''alice'']"
proof -
  have "try_from_slice (read_vec read_string) (borsh_vec borsh_string [''alice'']) = Some [''alice'']"
    by (rule try_from_slice_exact [OF strings_codec.prefix_codec_axioms]) (simp add: is_str_def)
  moreover have "account_id_new toy_crypto ''alice'' = Ok ''alice''"
  proof -
    have "account_re ''alice''" by (simp add: account_re_iff lower_alnum_def)
    then have "validate toy_crypto ''alice'' = Ok ()"
      using validate_chars_iff [of "''alice''"]
      by (simp add: validate_def MIN_LEN_def MAX_LEN_def)
    then show ?thesis by (simp add: account_id_new_def)
  qed
  moreover have "PATOSHI_INDEX_DATA_KEY \<noteq> PATOSHI_RECORD_DATA_KEY"
    by (simp add: PATOSHI_INDEX_DATA_KEY_def PATOSHI_RECORD_DATA_KEY_def as_bytes_inj)
  ultimately show ?thesis
    by (simp add: get_patoshi_index_def get_data_def trie_read_def wit_trie_def
        foundation_account_id_def FOUNDATION_ACCOUNT_ID_def)
qed

lemma wit_sweep:
  "sweep_patoshi_excess toy_crypto 3 wit_trie =
     Ok (set_account ''near'' (wit_account 60) (set_account ''alice'' (wit_account 100) wit_trie))"
proof -
  have "get_account wit_trie ''alice'' = Ok (Some (wit_account 150))"
    by (simp add: get_account_Ok) (simp add: wit_trie_def)
  moreover have "get_account (set_account ''alice'' (wit_account 100) wit_trie) ''near''
      = Ok (Some (wit_account 10))"
    by (simp add: get_account_Ok bt_get_insert) (simp add: wit_trie_def)
  moreover have "is_patoshi_locked wit_record 3"
    by (simp add: is_patoshi_locked_def wit_record_def)
  moreover have "compute_patoshi_sweep 150 0 100 = (50, 0)"
    by (simp add: compute_patoshi_sweep_def saturating_add_def saturating_sub_def min_def)
  ultimately show ?thesis
    using wit_record_read wit_index_read
    by (simp add: sweep_patoshi_excess_def foundation_account_id_def FOUNDATION_ACCOUNT_ID_def
        wit_account_def wit_record_def checked_sub_def checked_add_def)
qed

theorem sweep_conserves_and_floors_witness:
  "\<exists>s'. sweep_patoshi_excess toy_crypto 3 wit_trie = Ok s' \<and> state_tokens s' = state_tokens wit_trie
     \<and> (\<exists>a'. bt_get (t_accounts s') ''alice'' = Some a' \<and> account_tokens a' = 100)"
proof -
  have "bt_get (t_accounts wit_trie) ''alice'' = Some (wit_account 150)"
    by (simp add: wit_trie_def)
  moreover have "is_patoshi_locked wit_record 3" "''alice'' \<noteq> foundation_account_id"
    by (simp_all add: is_patoshi_locked_def wit_record_def foundation_account_id_def
        FOUNDATION_ACCOUNT_ID_def)
  moreover have "max (min (account_tokens (wit_account 150)) (unat (genesis_balance wit_record)))
      (unat (locked (wit_account 150))) = 100"
    by (simp add: account_tokens_def wit_account_def wit_record_def)
  ultimately show ?thesis
    using sweep_conserves_and_floors [OF wit_trie_ok wit_sweep wit_index_read] wit_sweep
      wit_record_read by fastforce
qed

end
