(* ===== verification/Verifier.thy ===== *)
theory Verifier
  imports Tx_Types Fees Patoshi
begin

text \<open>
  \<open>runtime/runtime/src/verifier.rs\<close>: storage staking, access-key permissions, nonces and
  the charge of a transaction, for ordinary keys and for gas keys, with the
  \<open>VerificationResult\<close> of \<open>runtime/runtime/src/lib.rs\<close> that carries the charge to the
  state; and the registration of the access key of a Bitcoin signer. A failed assertion or
  \<open>unwrap\<close>, and an arithmetic overflow the build checks, is the value \<open>None\<close>.
\<close>

section \<open>Storage staking\<close>

definition ZERO_BALANCE_ACCOUNT_STORAGE_LIMIT :: StorageUsage where
  "ZERO_BALANCE_ACCOUNT_STORAGE_LIMIT = 770"

datatype StorageStakingError =
    LackBalanceForStorageStaking Balance
  | StakingStorageError string

definition is_zero_balance_account :: "Account \<Rightarrow> bool" where
  "is_zero_balance_account account \<longleftrightarrow> storage_usage account \<le> ZERO_BALANCE_ACCOUNT_STORAGE_LIMIT"

definition config_storage_amount_per_byte :: "RuntimeConfig \<Rightarrow> Balance" where
  "config_storage_amount_per_byte config = storage_amount_per_byte (storage_usage_config (fees config))"

definition check_storage_stake ::
  "Account \<Rightarrow> Balance \<Rightarrow> RuntimeConfig \<Rightarrow> (unit, StorageStakingError) result" where
  "check_storage_stake account account_balance config =
     result_bind (ok_or (checked_mul (config_storage_amount_per_byte config) (ucast (storage_usage account)))
       (StakingStorageError (''Account's billable storage usage '' @ fmt_dec (unat (storage_usage account))
          @ '' overflows multiplication''))) (\<lambda>required_amount.
     result_bind (ok_or (checked_add account_balance (locked account))
       (StakingStorageError (''Account's amount '' @ fmt_dec (unat (amount account)) @ '' and locked ''
          @ fmt_dec (unat (locked account)) @ '' overflow addition''))) (\<lambda>available_amount.
     if available_amount \<ge> required_amount then Ok ()
     else if is_zero_balance_account account then Ok ()
     else Err (LackBalanceForStorageStaking (required_amount - available_amount))))"

section \<open>Verdicts\<close>

datatype AccessKeyUpdate =
    Regular Nonce "Balance option"
  | GasKeyUpdate Balance NonceIndex Nonce

record VerificationResult =
  vr_gas_burnt :: Gas
  vr_gas_remaining :: Gas
  vr_receipt_gas_price :: Balance
  vr_burnt_amount :: Balance
  new_account_amount :: Balance
  access_key_update :: AccessKeyUpdate

datatype TxVerdict =
    Success VerificationResult
  | DepositFailed VerificationResult InvalidTxError
  | Failed InvalidTxError

text \<open>\<open>VerificationResult::apply\<close>: its two \<open>unwrap\<close>s panic when the key has the wrong kind.\<close>

definition vr_apply ::
  "VerificationResult \<Rightarrow> Account \<Rightarrow> AccessKey \<Rightarrow> (Account \<times> AccessKey) option" where
  "vr_apply r account k =
     (let account' = set_amount (new_account_amount r) account in
      case access_key_update r of
        Regular nonce new_allowance \<Rightarrow>
          (let k' = k \<lparr> ak_nonce := nonce \<rparr> in
           case new_allowance of
             None \<Rightarrow> Some (account', k')
           | Some a \<Rightarrow>
               map_option (\<lambda>fc. (account', k' \<lparr> permission :=
                   set_function_call_permission (fc \<lparr> allowance := Some a \<rparr>) (permission k') \<rparr>))
                 (function_call_permission (permission k')))
      | GasKeyUpdate new_balance _ _ \<Rightarrow>
          map_option (\<lambda>g. (account', set_gas_key_info (g \<lparr> gk_balance := new_balance \<rparr>) k))
            (gas_key_info k))"

definition gas_key_nonce_update :: "VerificationResult \<Rightarrow> (NonceIndex \<times> Nonce) option" where
  "gas_key_nonce_update r =
     (case access_key_update r of GasKeyUpdate _ i n \<Rightarrow> Some (i, n) | _ \<Rightarrow> None)"

section \<open>Access keys of Bitcoin signers\<close>

definition initial_nonce_value :: "BlockHeight \<Rightarrow> Nonce option" where
  "initial_nonce_value block_height =
     Option.bind (checked_sub block_height 1) (\<lambda>h. checked_mul h ACCESS_KEY_NONCE_RANGE_MULTIPLIER)"

definition maybe_auto_register_bitcoin_access_key ::
  "'e crypto_scheme \<Rightarrow> AccountId \<Rightarrow> PublicKey \<Rightarrow> Signature \<Rightarrow> bytes \<Rightarrow> BlockHeight \<Rightarrow> Nonce
     \<Rightarrow> TrieUpdate \<Rightarrow> (TrieUpdate \<times> (bool, InvalidTxError) result) option" where
  "maybe_auto_register_bitcoin_access_key C signer_id tx_pk tx_sig tx_hash_bytes block_height nonce s =
     (if \<not> is_bitcoin_address C signer_id then Some (s, Ok False)
      else case verify_and_register_bitcoin_transaction C tx_sig tx_hash_bytes signer_id s of
        (s1, Err _) \<Rightarrow> Some (s1, Err InvalidSignature)
      | (s1, Ok (valid, recovered)) \<Rightarrow>
          if \<not> valid then Some (s1, Err InvalidSignature)
          else (case recovered of
            None \<Rightarrow> Some (s1, Err InvalidSignature)
          | Some recovered_pubkey \<Rightarrow>
              if recovered_pubkey \<noteq> tx_pk then Some (s1, Err InvalidSignature)
              else (case get_access_key s1 signer_id tx_pk of
                Err e \<Rightarrow> Some (s1, Err (TxStorageError e))
              | Ok None \<Rightarrow> Some (s1, Ok True)
              | Ok (Some k) \<Rightarrow>
                  Option.bind (initial_nonce_value (max (saturating_sub block_height 1) 1))
                    (\<lambda>height_floor.
                      let tx_nonce_floor = saturating_mul (nonce div ACCESS_KEY_NONCE_RANGE_MULTIPLIER)
                            ACCESS_KEY_NONCE_RANGE_MULTIPLIER;
                          min_nonce = min height_floor tx_nonce_floor in
                      if ak_nonce k < min_nonce
                      then Some (set_access_key signer_id tx_pk (k \<lparr> ak_nonce := min_nonce \<rparr>) s1, Ok True)
                      else Some (s1, Ok True)))))"

definition get_signer_and_access_key ::
  "TrieUpdate \<Rightarrow> Transaction \<Rightarrow> (Account \<times> AccessKey, InvalidTxError) result" where
  "get_signer_and_access_key s tx =
     (let signer_id = tx_signer_id tx in
      result_bind (map_err TxStorageError (get_account s signer_id)) (\<lambda>a.
      case a of
        None \<Rightarrow> Err (SignerDoesNotExist signer_id)
      | Some signer \<Rightarrow>
          result_bind (map_err TxStorageError (get_access_key s signer_id (tx_public_key tx))) (\<lambda>k.
          case k of
            None \<Rightarrow> Err (InvalidAccessKey (AccessKeyNotFound signer_id (tx_public_key tx)))
          | Some access_key \<Rightarrow> Ok (signer, access_key))))"

definition set_tx_state_changes :: "Transaction \<Rightarrow> Account \<Rightarrow> AccessKey \<Rightarrow> TrieUpdate \<Rightarrow> TrieUpdate" where
  "set_tx_state_changes tx signer access_key s =
     set_account (tx_signer_id tx) signer
       (set_access_key (tx_signer_id tx) (tx_public_key tx) access_key s)"

section \<open>Permissions, nonces and allowances\<close>

definition verify_function_call_permission ::
  "FunctionCallPermission \<Rightarrow> Transaction \<Rightarrow> (unit, InvalidTxError) result" where
  "verify_function_call_permission fcp tx =
     (if length (tx_actions tx) \<noteq> 1 then Err (InvalidAccessKey RequiresFullAccess)
      else case hd (tx_actions tx) of
        FunctionCall fc \<Rightarrow>
          if fc_deposit fc > 0 then Err (InvalidAccessKey DepositWithFunctionCall)
          else if tx_receiver_id tx \<noteq> fcp_receiver_id fcp
          then Err (InvalidAccessKey (ReceiverMismatch (tx_receiver_id tx) (fcp_receiver_id fcp)))
          else if method_names fcp \<noteq> [] \<and> list_all (\<lambda>m. method_name fc \<noteq> m) (method_names fcp)
          then Err (InvalidAccessKey (MethodNameMismatch (method_name fc)))
          else Ok ()
      | _ \<Rightarrow> Err (InvalidAccessKey RequiresFullAccess))"

definition verify_nonce ::
  "Nonce \<Rightarrow> Nonce \<Rightarrow> BlockHeight option \<Rightarrow> (unit, InvalidTxError) result" where
  "verify_nonce nonce current_nonce block_height =
     (if nonce \<le> current_nonce then Err (InvalidNonce nonce current_nonce)
      else case block_height of
        None \<Rightarrow> Ok ()
      | Some height \<Rightarrow>
          (let upper_bound = saturating_mul height ACCESS_KEY_NONCE_RANGE_MULTIPLIER in
           if nonce \<ge> upper_bound then Err (NonceTooLarge nonce upper_bound) else Ok ()))"

definition check_and_compute_new_allowance ::
  "AccessKey \<Rightarrow> AccountId \<Rightarrow> PublicKey \<Rightarrow> Balance \<Rightarrow> (Balance option, InvalidTxError) result" where
  "check_and_compute_new_allowance k account_id pk tot =
     (case function_call_permission (permission k) of
        None \<Rightarrow> Ok None
      | Some fc \<Rightarrow>
          (case allowance fc of
             None \<Rightarrow> Ok None
           | Some a \<Rightarrow>
               result_bind (ok_or (checked_sub a tot)
                   (InvalidAccessKey (NotEnoughAllowance account_id pk a tot)))
                 (\<lambda>new_allowance. Ok (Some new_allowance))))"

section \<open>Verification and charging\<close>

text \<open>
  The access key is passed by mutable reference: protocol versions before
  \<open>FixAccessKeyAllowanceCharging\<close> write the reduced allowance to it before the remaining
  checks. The function returns that key with the verdict.
\<close>

definition legacy_key :: "ProtocolVersion \<Rightarrow> Balance option \<Rightarrow> AccessKey \<Rightarrow> AccessKey" where
  "legacy_key pv new_allowance k =
     (if \<not> feature_enabled FixAccessKeyAllowanceCharging pv
      then (case (new_allowance, function_call_permission (permission k)) of
              (Some new, Some fc) \<Rightarrow> k \<lparr> permission :=
                set_function_call_permission (fc \<lparr> allowance := Some new \<rparr>) (permission k) \<rparr>
            | _ \<Rightarrow> k)
      else k)"

definition verify_and_charge_tx_ephemeral ::
  "RuntimeConfig \<Rightarrow> Account \<Rightarrow> AccessKey \<Rightarrow> Transaction \<Rightarrow> TransactionCost \<Rightarrow> BlockHeight option
     \<Rightarrow> ProtocolVersion \<Rightarrow> (AccessKey \<times> TxVerdict) option" where
  "verify_and_charge_tx_ephemeral config account k tx cost block_height pv =
     (if nonce_index_of (tx_nonce tx) \<noteq> None then None
      else case gas_key_info k of
        Some g \<Rightarrow> Some (k, Failed (InvalidNonceIndex None (num_nonces g)))
      | None \<Rightarrow>
          (let account_id = tx_signer_id tx; nonce = nonce_of (tx_nonce tx) in
           case verify_nonce nonce (ak_nonce k) block_height of
             Err e \<Rightarrow> Some (k, Failed e)
           | Ok _ \<Rightarrow>
               (case checked_sub (amount account) (total_cost cost) of
                  None \<Rightarrow> Some (k, Failed (NotEnoughBalance account_id (amount account) (total_cost cost)))
                | Some new_amount \<Rightarrow>
                    (case check_and_compute_new_allowance k account_id (tx_public_key tx) (total_cost cost) of
                       Err e \<Rightarrow> Some (k, Failed e)
                     | Ok new_allowance \<Rightarrow>
                         (let k1 = legacy_key pv new_allowance k in
                          case check_storage_stake account new_amount config of
                            Err (LackBalanceForStorageStaking am) \<Rightarrow>
                              Some (k1, Failed (LackBalanceForState account_id am))
                          | Err (StakingStorageError err) \<Rightarrow>
                              Some (k1, Failed (TxStorageError (StorageInconsistentState err)))
                          | Ok _ \<Rightarrow>
                              (case (case function_call_permission (permission k1) of
                                       Some fc \<Rightarrow> verify_function_call_permission fc tx
                                     | None \<Rightarrow> Ok ()) of
                                 Err e \<Rightarrow> Some (k1, Failed e)
                               | Ok _ \<Rightarrow> Some (k1, Success \<lparr>
                                   vr_gas_burnt = gas_burnt cost, vr_gas_remaining = gas_remaining cost,
                                   vr_receipt_gas_price = receipt_gas_price cost,
                                   vr_burnt_amount = burnt_amount cost, new_account_amount = new_amount,
                                   access_key_update = Regular nonce new_allowance \<rparr>)))))))"

definition gas_key_result :: "TransactionCost \<Rightarrow> AccessKeyUpdate \<Rightarrow> Balance \<Rightarrow> VerificationResult" where
  "gas_key_result cost upd new_amount = \<lparr>
     vr_gas_burnt = gas_burnt cost, vr_gas_remaining = gas_remaining cost,
     vr_receipt_gas_price = receipt_gas_price cost, vr_burnt_amount = burnt_amount cost,
     new_account_amount = new_amount, access_key_update = upd \<rparr>"

definition verify_and_charge_gas_key_tx_ephemeral ::
  "RuntimeConfig \<Rightarrow> Account \<Rightarrow> AccessKey \<Rightarrow> Nonce \<Rightarrow> Transaction \<Rightarrow> TransactionCost
     \<Rightarrow> BlockHeight option \<Rightarrow> TxVerdict option" where
  "verify_and_charge_gas_key_tx_ephemeral config account k current_nonce tx cost block_height =
     (case nonce_index_of (tx_nonce tx) of
        None \<Rightarrow> None
      | Some i \<Rightarrow> Some
          (let account_id = tx_signer_id tx; nonce = nonce_of (tx_nonce tx) in
           case gas_key_info k of
             None \<Rightarrow> Failed (InvalidAccessKey (AccessKeyNotFound account_id (tx_public_key tx)))
           | Some g \<Rightarrow>
               if num_nonces g \<le> i then Failed (InvalidNonceIndex (Some i) (num_nonces g))
               else (case verify_nonce nonce current_nonce block_height of
                 Err e \<Rightarrow> Failed e
               | Ok _ \<Rightarrow>
                   (case checked_sub (gk_balance g) (gas_cost cost) of
                      None \<Rightarrow> Failed (NotEnoughGasKeyBalance account_id (gk_balance g) (gas_cost cost))
                    | Some new_balance \<Rightarrow>
                        (case (case function_call_permission (permission k) of
                                 Some fc \<Rightarrow> verify_function_call_permission fc tx
                               | None \<Rightarrow> Ok ()) of
                           Err e \<Rightarrow> Failed e
                         | Ok _ \<Rightarrow>
                             (let make_result = gas_key_result cost (GasKeyUpdate new_balance i nonce);
                                  account_balance = amount account in
                              case checked_sub account_balance (deposit_cost cost) of
                                None \<Rightarrow> DepositFailed (make_result account_balance)
                                  (NotEnoughBalanceForDeposit account_id account_balance
                                     (deposit_cost cost) DepositNotEnoughBalance)
                              | Some new_amount \<Rightarrow>
                                  (case check_storage_stake account new_amount config of
                                     Err (LackBalanceForStorageStaking am) \<Rightarrow>
                                       DepositFailed (make_result account_balance)
                                         (NotEnoughBalanceForDeposit account_id new_amount am
                                            DepositLackBalanceForState)
                                   | Err (StakingStorageError err) \<Rightarrow>
                                       Failed (TxStorageError (StorageInconsistentState err))
                                   | Ok _ \<Rightarrow> Success (make_result new_amount))))))))"

section \<open>What each check accepts\<close>

lemma check_storage_stake_Ok:
  "check_storage_stake account balance config = Ok u
     \<longleftrightarrow> unat (config_storage_amount_per_byte config) * unat (storage_usage account) < 2 ^ 128
       \<and> unat balance + unat (locked account) < 2 ^ 128
       \<and> (unat (config_storage_amount_per_byte config) * unat (storage_usage account)
             \<le> unat balance + unat (locked account)
          \<or> unat (storage_usage account) \<le> 770)"
proof -
  have u: "unat (ucast (storage_usage account) :: u128) = unat (storage_usage account)"
    by (rule unat_ucast_up) simp
  show ?thesis
    by (auto simp: check_storage_stake_def result_simps checked_mul_def checked_add_def u
        is_zero_balance_account_def ZERO_BALANCE_ACCOUNT_STORAGE_LIMIT_def word_le_nat_alt
        unat_add_exact unat_mul_exact split: if_splits)
qed

lemma verify_nonce_Ok:
  "verify_nonce n cur h = Ok u \<longleftrightarrow> cur < n
     \<and> (case h of None \<Rightarrow> True | Some b \<Rightarrow> n < saturating_mul b ACCESS_KEY_NONCE_RANGE_MULTIPLIER)"
  by (auto simp: verify_nonce_def Let_def split: option.splits)

lemma verify_nonce_used: "n \<le> cur \<Longrightarrow> verify_nonce n cur h = Err (InvalidNonce n cur)"
  by (simp add: verify_nonce_def)

lemma function_call_permission_set:
  "function_call_permission p = Some fc
     \<Longrightarrow> function_call_permission (set_function_call_permission fc' p) = Some fc'"
  by (cases p) simp_all

lemma gas_key_of_set_function_call [simp]:
  "permission_gas_key (set_function_call_permission fc p) = permission_gas_key p"
  by (cases p) simp_all

lemma new_allowance_Ok:
  "check_and_compute_new_allowance k aid pk c = Ok na \<longleftrightarrow>
     (case Option.bind (function_call_permission (permission k)) allowance of
        None \<Rightarrow> na = None
      | Some a \<Rightarrow> (\<exists>b. na = Some b \<and> unat a = unat b + unat c))"
  by (auto simp: check_and_compute_new_allowance_def result_simps checked_sub_Some
      split: option.splits)

lemma legacy_key_nonce [simp]: "ak_nonce (legacy_key pv na k) = ak_nonce k"
  by (simp add: legacy_key_def split: option.splits)

lemma legacy_key_gas_key [simp]: "gas_key_info (legacy_key pv na k) = gas_key_info k"
  by (simp add: legacy_key_def gas_key_info_def split: option.splits)

lemma legacy_key_fc:
  assumes "function_call_permission (permission k) = Some fc"
  shows "\<exists>fc1. function_call_permission (permission (legacy_key pv na k)) = Some fc1
    \<and> fcp_receiver_id fc1 = fcp_receiver_id fc \<and> method_names fc1 = method_names fc"
  using assms function_call_permission_set [OF assms]
  by (cases na) (simp_all add: legacy_key_def)

lemma charge_SuccessD:
  assumes "verify_and_charge_tx_ephemeral config account k tx cost h pv = Some (k1, Success r)"
  shows "\<exists>na. nonce_index_of (tx_nonce tx) = None \<and> gas_key_info k = None
    \<and> verify_nonce (nonce_of (tx_nonce tx)) (ak_nonce k) h = Ok ()
    \<and> unat (amount account) = unat (new_account_amount r) + unat (total_cost cost)
    \<and> check_and_compute_new_allowance k (tx_signer_id tx) (tx_public_key tx) (total_cost cost) = Ok na
    \<and> k1 = legacy_key pv na k
    \<and> check_storage_stake account (new_account_amount r) config = Ok ()
    \<and> (case function_call_permission (permission k1) of
          None \<Rightarrow> True | Some fc \<Rightarrow> verify_function_call_permission fc tx = Ok ())
    \<and> access_key_update r = Regular (nonce_of (tx_nonce tx)) na
    \<and> vr_burnt_amount r = burnt_amount cost \<and> vr_gas_burnt r = gas_burnt cost
    \<and> vr_receipt_gas_price r = receipt_gas_price cost"
  using assms
  unfolding verify_and_charge_tx_ephemeral_def Let_def
  by (auto simp: checked_sub_Some split: if_splits option.splits result.splits StorageStakingError.splits)

lemma charge_not_DepositFailed:
  "verify_and_charge_tx_ephemeral config account k tx cost h pv \<noteq> Some (k1, DepositFailed r e)"
  unfolding verify_and_charge_tx_ephemeral_def Let_def
  by (auto split: if_splits option.splits result.splits StorageStakingError.splits)

definition gas_key_charged ::
  "Account \<Rightarrow> AccessKey \<Rightarrow> Nonce \<Rightarrow> Transaction \<Rightarrow> TransactionCost \<Rightarrow> BlockHeight option \<Rightarrow> VerificationResult \<Rightarrow> bool" where
  "gas_key_charged account k cur tx cost h r \<longleftrightarrow>
     (\<exists>i g b. nonce_index_of (tx_nonce tx) = Some i \<and> gas_key_info k = Some g \<and> i < num_nonces g
        \<and> verify_nonce (nonce_of (tx_nonce tx)) cur h = Ok ()
        \<and> unat (gk_balance g) = unat b + unat (gas_cost cost)
        \<and> access_key_update r = GasKeyUpdate b i (nonce_of (tx_nonce tx))
        \<and> vr_burnt_amount r = burnt_amount cost \<and> vr_gas_burnt r = gas_burnt cost
        \<and> vr_receipt_gas_price r = receipt_gas_price cost)"

lemma gas_charge_SuccessD:
  assumes "verify_and_charge_gas_key_tx_ephemeral config account k cur tx cost h = Some (Success r)"
  shows "gas_key_charged account k cur tx cost h r"
    "unat (amount account) = unat (new_account_amount r) + unat (deposit_cost cost)"
    "check_storage_stake account (new_account_amount r) config = Ok ()"
  using assms
  unfolding verify_and_charge_gas_key_tx_ephemeral_def Let_def gas_key_charged_def gas_key_result_def
  by (auto simp: checked_sub_Some not_le split: if_splits option.splits result.splits StorageStakingError.splits)

lemma gas_charge_DepositFailedD:
  assumes "verify_and_charge_gas_key_tx_ephemeral config account k cur tx cost h = Some (DepositFailed r e)"
  shows "gas_key_charged account k cur tx cost h r" "new_account_amount r = amount account"
  using assms
  unfolding verify_and_charge_gas_key_tx_ephemeral_def Let_def gas_key_charged_def gas_key_result_def
  by (auto simp: checked_sub_Some not_le split: if_splits option.splits result.splits StorageStakingError.splits)

lemma gas_charge_permission:
  assumes "verify_and_charge_gas_key_tx_ephemeral config account k cur tx cost h = Some (Success r)"
    and "function_call_permission (permission k) = Some fc"
  shows "verify_function_call_permission fc tx = Ok ()"
  using assms
  unfolding verify_and_charge_gas_key_tx_ephemeral_def Let_def
  by (simp split: if_splits option.splits result.splits)

section \<open>Properties\<close>

lemma verify_and_register_spec:
  assumes "verify_and_register_bitcoin_transaction C sig msg signer s = (s1, res)"
  shows "s1 = s \<and> (\<forall>pk. res \<noteq> Ok (True, Some pk))
    \<or> (\<exists>b pk. sig = SigSECP256K1 b \<and> length msg = 32 \<and> secp_recover C b msg = Ok pk
         \<and> is_bitcoin_address C signer \<and> signer \<in> set (derive_all_bitcoin_addresses C pk)
         \<and> ((\<exists>e. res = Err e) \<and> s1 = s
            \<or> res = Ok (True, Some (SECP256K1 pk))
               \<and> (s1 = s \<and> bt_get (t_access_keys s) (signer, SECP256K1 pk) \<noteq> None
                  \<or> bt_get (t_access_keys s) (signer, SECP256K1 pk) = None
                    \<and> s1 = set_access_key signer (SECP256K1 pk) full_access s)))"
  using assms
  unfolding verify_and_register_bitcoin_transaction_def recover_secp256k1_signature_def
    auto_register_access_key_if_needed_def
  by (auto simp: get_access_key_Ok result_simps
      split: if_splits result.splits Signature.splits PublicKey.splits option.splits prod.splits)

lemma nonce_floor_le:
  "min y (saturating_mul (n div ACCESS_KEY_NONCE_RANGE_MULTIPLIER) ACCESS_KEY_NONCE_RANGE_MULTIPLIER)
     \<le> (n :: u64)"
proof -
  have "unat n div 1000000 * 1000000 \<le> unat n" by simp
  then have "unat (saturating_mul (n div ACCESS_KEY_NONCE_RANGE_MULTIPLIER)
      ACCESS_KEY_NONCE_RANGE_MULTIPLIER) \<le> unat n"
    by (simp add: unat_saturating_mul unat_div ACCESS_KEY_NONCE_RANGE_MULTIPLIER_def min.coboundedI1)
  then show ?thesis by (simp add: word_le_nat_alt unat_min)
qed

text \<open>Concrete objects for the witnesses: a call signed with a restricted key that has an allowance.\<close>

definition w_call :: FunctionCallAction where
  "w_call = \<lparr> method_name = ''mint'', fc_args = [], fc_gas = 7, fc_deposit = 0 \<rparr>"

definition w_fcp :: FunctionCallPermission where
  "w_fcp = \<lparr> allowance = Some 500, fcp_receiver_id = ''bob'', method_names = [''mint''] \<rparr>"

definition w_key :: AccessKey where
  "w_key = \<lparr> ak_nonce = 4, permission = FunctionCallPerm w_fcp \<rparr>"

definition w_gas_key :: AccessKey where
  "w_gas_key = \<lparr> ak_nonce = 4,
     permission = GasKeyFunctionCall \<lparr> gk_balance = 90, num_nonces = 3 \<rparr>
       (w_fcp \<lparr> allowance := None \<rparr>) \<rparr>"

definition w_account :: Account where
  "w_account = account_new 1000 50 NoContract 120"

definition w_tx :: Transaction where
  "w_tx = TxV0 \<lparr> v0_signer_id = ''alice'', v0_public_key = ED25519 [1], v0_nonce = 5,
     v0_receiver_id = ''bob'', v0_block_hash = [], v0_actions = [FunctionCall w_call] \<rparr>"

definition w_gas_tx :: Transaction where
  "w_gas_tx = TxV1 \<lparr> v1_signer_id = ''alice'', v1_public_key = ED25519 [1],
     v1_nonce = GasKeyNonce 5 2, v1_receiver_id = ''bob'', v1_block_hash = [],
     v1_actions = [FunctionCall w_call] \<rparr>"

definition w_cost :: TransactionCost where
  "w_cost = \<lparr> gas_burnt = 10, gas_remaining = 20, receipt_gas_price = 2, burnt_amount = 20,
     gas_cost = 60, deposit_cost = 0, total_cost = 60 \<rparr>"

lemmas w_defs = w_call_def w_fcp_def w_key_def w_gas_key_def w_account_def w_tx_def w_gas_tx_def
  w_cost_def

lemma w_stake: "check_storage_stake w_account am unit_config = Ok ()" if "unat am < 2000" for am
  using that by (simp add: check_storage_stake_Ok w_account_def unit_config_def config_storage_amount_per_byte_def)

lemma w_charge:
  "\<exists>r. verify_and_charge_tx_ephemeral unit_config w_account w_key w_tx w_cost (Some 9) 84
     = Some (w_key, Success r) \<and> new_account_amount r = 940
     \<and> access_key_update r = Regular 5 (Some 440)"
  using w_stake [of 940] unfolding verify_and_charge_tx_ephemeral_def
  by (simp add: w_defs gas_key_info_def verify_nonce_def saturating_mul_def
      ACCESS_KEY_NONCE_RANGE_MULTIPLIER_def checked_sub_def check_and_compute_new_allowance_def
      legacy_key_def feature_enabled_def verify_function_call_permission_def)

lemma w_gas_charge:
  "\<exists>r. verify_and_charge_gas_key_tx_ephemeral unit_config w_account w_gas_key 4 w_gas_tx w_cost (Some 9)
     = Some (Success r)"
  using w_stake [of 1000] unfolding verify_and_charge_gas_key_tx_ephemeral_def
  by (simp add: w_defs gas_key_info_def verify_nonce_def saturating_mul_def
      ACCESS_KEY_NONCE_RANGE_MULTIPLIER_def checked_sub_def verify_function_call_permission_def)

lemma account_tokens_set_amount:
  "account_tokens (set_amount am a) = unat am + unat (locked a)"
  by (simp add: account_tokens_def)

text \<open>
  C28: The charge of a transaction signed with an ordinary key is exact. When verification
  succeeds, applying its result does not panic; it takes exactly the total cost from the
  signer's liquid balance and leaves the stake alone; the key's nonce becomes the
  transaction's, which is larger than before; an allowance, where the key has one, falls by
  the same cost; and the charged account still covers its storage.
\<close>

theorem regular_tx_charge_exact:
  assumes "verify_and_charge_tx_ephemeral config account k tx cost h pv = Some (k1, Success r)"
  shows "\<exists>account' k'. vr_apply r account k1 = Some (account', k')
    \<and> account_tokens account = account_tokens account' + unat (total_cost cost)
    \<and> locked account' = locked account
    \<and> ak_nonce k' = nonce_of (tx_nonce tx) \<and> ak_nonce k < ak_nonce k'
    \<and> (\<forall>a. Option.bind (function_call_permission (permission k)) allowance = Some a \<longrightarrow>
         (\<exists>b. Option.bind (function_call_permission (permission k')) allowance = Some b
            \<and> unat a = unat b + unat (total_cost cost)))
    \<and> check_storage_stake account' (amount account') config = Ok ()"
proof -
  obtain na where na: "gas_key_info k = None"
    "verify_nonce (nonce_of (tx_nonce tx)) (ak_nonce k) h = Ok ()"
    "unat (amount account) = unat (new_account_amount r) + unat (total_cost cost)"
    "check_and_compute_new_allowance k (tx_signer_id tx) (tx_public_key tx) (total_cost cost) = Ok na"
    "k1 = legacy_key pv na k" "check_storage_stake account (new_account_amount r) config = Ok ()"
    "access_key_update r = Regular (nonce_of (tx_nonce tx)) na"
    using charge_SuccessD [OF assms] by auto
  let ?a = "set_amount (new_account_amount r) account"
  have acc: "account_tokens account = account_tokens ?a + unat (total_cost cost)"
    using na(3) by (simp add: account_tokens_set_amount) (simp add: account_tokens_def)
  have st: "check_storage_stake ?a (amount ?a) config = Ok ()"
    using na(6) by (simp add: check_storage_stake_Ok)
  have n: "ak_nonce k < nonce_of (tx_nonce tx)" using na(2) by (simp add: verify_nonce_Ok)
  show ?thesis
  proof (cases "Option.bind (function_call_permission (permission k)) allowance")
    case None
    then have "na = None" using na(4) by (simp add: new_allowance_Ok)
    then show ?thesis using None acc st n na(7) by (simp add: vr_apply_def Let_def)
  next
    case (Some a)
    then obtain b where b: "na = Some b" "unat a = unat b + unat (total_cost cost)"
      using na(4) by (auto simp: new_allowance_Ok)
    obtain fc where fc: "function_call_permission (permission k) = Some fc"
      using Some by (cases "function_call_permission (permission k)") auto
    then obtain fc1 where fc1: "function_call_permission (permission k1) = Some fc1"
      unfolding na(5) using legacy_key_fc by blast
    show ?thesis
      using acc st n na(7) b fc1 Some
      by (simp add: vr_apply_def Let_def function_call_permission_set [OF fc1])
  qed
qed

theorem regular_tx_charge_exact_witness:
  "\<exists>r account' k'.
     verify_and_charge_tx_ephemeral unit_config w_account w_key w_tx w_cost (Some 9) 84
       = Some (w_key, Success r)
     \<and> vr_apply r w_account w_key = Some (account', k')
     \<and> account_tokens w_account = account_tokens account' + 60 \<and> ak_nonce k' = 5"
proof -
  obtain r where r: "verify_and_charge_tx_ephemeral unit_config w_account w_key w_tx w_cost (Some 9) 84
      = Some (w_key, Success r)"
    using w_charge by blast
  have "unat (total_cost w_cost) = 60" "nonce_of (tx_nonce w_tx) = 5" by (simp_all add: w_defs)
  then show ?thesis using r regular_tx_charge_exact [OF r] by auto
qed

text \<open>
  C29: A transaction cannot be replayed. After a verified transaction of an ordinary key has
  been applied, every transaction of that key whose nonce is not larger is rejected with
  \<open>InvalidNonce\<close>, whatever the account, the cost, the block height and the configuration are
  by then, and the rejection leaves the key as it is.
\<close>

theorem applied_tx_cannot_replay:
  assumes "verify_and_charge_tx_ephemeral config account k tx cost h pv = Some (k1, Success r)"
    and "vr_apply r account k1 = Some (account', k')"
    and "nonce_index_of (tx_nonce tx') = None" "nonce_of (tx_nonce tx') \<le> nonce_of (tx_nonce tx)"
  shows "verify_and_charge_tx_ephemeral config' account'' k' tx' cost' h' pv'
    = Some (k', Failed (InvalidNonce (nonce_of (tx_nonce tx')) (nonce_of (tx_nonce tx))))"
proof -
  obtain na where na: "gas_key_info k = None" "k1 = legacy_key pv na k"
    "access_key_update r = Regular (nonce_of (tx_nonce tx)) na"
    using charge_SuccessD [OF assms(1)] by auto
  have "ak_nonce k' = nonce_of (tx_nonce tx) \<and> gas_key_info k' = gas_key_info k1"
    using assms(2) na(3)
    by (auto simp: vr_apply_def Let_def gas_key_info_def split: option.splits)
  then show ?thesis
    using na(1,2) assms(3,4) by (simp add: verify_and_charge_tx_ephemeral_def verify_nonce_used Let_def)
qed

theorem applied_tx_cannot_replay_witness:
  "\<exists>r account' k'.
     verify_and_charge_tx_ephemeral unit_config w_account w_key w_tx w_cost (Some 9) 84
       = Some (w_key, Success r)
     \<and> vr_apply r w_account w_key = Some (account', k')
     \<and> verify_and_charge_tx_ephemeral unit_config account' k' w_tx w_cost (Some 10) 84
       = Some (k', Failed (InvalidNonce 5 5))"
proof -
  obtain r where r: "verify_and_charge_tx_ephemeral unit_config w_account w_key w_tx w_cost (Some 9) 84
      = Some (w_key, Success r)" "access_key_update r = Regular 5 (Some 440)"
    using w_charge by blast
  obtain account' k' where a: "vr_apply r w_account w_key = Some (account', k')"
    using r(2) by (simp add: vr_apply_def w_defs)
  have n: "nonce_of (tx_nonce w_tx) = 5" "nonce_index_of (tx_nonce w_tx) = None"
    by (simp_all add: w_defs)
  show ?thesis using r(1) a applied_tx_cannot_replay [OF r(1) a n(2) order_refl] n by auto
qed

text \<open>
  C30: The charge of a gas-key transaction is exact. Whether the deposit could be paid or not,
  applying the result takes exactly the gas cost from the key's balance, changes nothing else
  of the key, and asks for the nonce of the transaction to be stored under its index, which
  is within the key's range and larger than the nonce stored there; the account pays exactly
  the deposits on success and nothing when the deposit failed.
\<close>

theorem gas_key_charge_exact:
  assumes "verify_and_charge_gas_key_tx_ephemeral config account k cur tx cost h = Some v"
    and "v = Success r \<and> paid = unat (deposit_cost cost) \<or> v = DepositFailed r e \<and> paid = 0"
  shows "\<exists>account' k' i. vr_apply r account k = Some (account', k')
    \<and> key_tokens k = key_tokens k' + unat (gas_cost cost) \<and> ak_nonce k' = ak_nonce k
    \<and> account_tokens account = account_tokens account' + paid \<and> locked account' = locked account
    \<and> gas_key_nonce_update r = Some (i, nonce_of (tx_nonce tx))
    \<and> nonce_index_of (tx_nonce tx) = Some i
    \<and> map_option num_nonces (gas_key_info k') = map_option num_nonces (gas_key_info k)
    \<and> (\<exists>g. gas_key_info k = Some g \<and> i < num_nonces g) \<and> cur < nonce_of (tx_nonce tx)"
proof -
  have ch: "gas_key_charged account k cur tx cost h r"
    and am: "unat (amount account) = unat (new_account_amount r) + paid"
    using assms gas_charge_SuccessD [of config account k cur tx cost h r]
      gas_charge_DepositFailedD [of config account k cur tx cost h r e] by auto
  then obtain i g b where g: "nonce_index_of (tx_nonce tx) = Some i" "gas_key_info k = Some g"
    "i < num_nonces g" "verify_nonce (nonce_of (tx_nonce tx)) cur h = Ok ()"
    "unat (gk_balance g) = unat b + unat (gas_cost cost)"
    "access_key_update r = GasKeyUpdate b i (nonce_of (tx_nonce tx))"
    unfolding gas_key_charged_def by blast
  then show ?thesis
    using am by (simp add: vr_apply_def gas_key_nonce_update_def key_tokens_def Let_def
        account_tokens_set_amount verify_nonce_Ok) (simp add: account_tokens_def)
qed

theorem gas_key_charge_exact_witness:
  "\<exists>r account' k'.
     verify_and_charge_gas_key_tx_ephemeral unit_config w_account w_gas_key 4 w_gas_tx w_cost (Some 9)
       = Some (Success r)
     \<and> vr_apply r w_account w_gas_key = Some (account', k')
     \<and> key_tokens w_gas_key = key_tokens k' + 60"
proof -
  obtain r where r: "verify_and_charge_gas_key_tx_ephemeral unit_config w_account w_gas_key 4 w_gas_tx
      w_cost (Some 9) = Some (Success r)"
    using w_gas_charge by blast
  have "unat (gas_cost w_cost) = 60" by (simp add: w_defs)
  then show ?thesis using r gas_key_charge_exact [OF r, of r 0] by (auto simp: w_defs)
qed

text \<open>
  C31: A function-call key is confined, as an ordinary key and as a gas key. If a transaction
  signed with a key restricted to function calls is accepted, it consists of a single
  function call without deposit, to the contract the key names, of a method the key lists
  (of any method when the list is empty).
\<close>

theorem function_call_key_confined:
  assumes "verify_and_charge_tx_ephemeral config account k tx cost h pv = Some (k1, Success r)
      \<or> verify_and_charge_gas_key_tx_ephemeral config account k cur tx cost h = Some (Success r)"
    and "function_call_permission (permission k) = Some fc"
  shows "\<exists>f. tx_actions tx = [FunctionCall f] \<and> fc_deposit f = 0
    \<and> tx_receiver_id tx = fcp_receiver_id fc
    \<and> (method_names fc = [] \<or> method_name f \<in> set (method_names fc))"
proof -
  have "\<exists>fc1. verify_function_call_permission fc1 tx = Ok ()
      \<and> fcp_receiver_id fc1 = fcp_receiver_id fc \<and> method_names fc1 = method_names fc"
    using assms(1)
  proof
    assume "verify_and_charge_tx_ephemeral config account k tx cost h pv = Some (k1, Success r)"
    then obtain na where na: "k1 = legacy_key pv na k"
      "case function_call_permission (permission k1) of
         None \<Rightarrow> True | Some fc \<Rightarrow> verify_function_call_permission fc tx = Ok ()"
      using charge_SuccessD by blast
    obtain fc1 where "function_call_permission (permission k1) = Some fc1"
      "fcp_receiver_id fc1 = fcp_receiver_id fc" "method_names fc1 = method_names fc"
      using legacy_key_fc [OF assms(2)] unfolding na(1) by blast
    then show ?thesis using na(2) by auto
  next
    assume "verify_and_charge_gas_key_tx_ephemeral config account k cur tx cost h = Some (Success r)"
    then have "verify_function_call_permission fc tx = Ok ()"
      using gas_charge_permission [OF _ assms(2)] by blast
    then show ?thesis by blast
  qed
  then obtain fc1 where fc1: "verify_function_call_permission fc1 tx = Ok ()"
    "fcp_receiver_id fc1 = fcp_receiver_id fc" "method_names fc1 = method_names fc" by blast
  then obtain a where "tx_actions tx = [a]"
    unfolding verify_function_call_permission_def
    by (cases "tx_actions tx") (auto split: if_splits list.splits)
  then show ?thesis
    using fc1 unfolding verify_function_call_permission_def
    by (auto simp: list_all_iff word_gt_0 split: Action.splits if_splits)
qed

theorem function_call_key_confined_witness:
  "\<exists>f. tx_actions w_tx = [FunctionCall f] \<and> fc_deposit f = 0 \<and> tx_receiver_id w_tx = ''bob''"
proof -
  obtain r where r: "verify_and_charge_tx_ephemeral unit_config w_account w_key w_tx w_cost (Some 9) 84
      = Some (w_key, Success r)"
    using w_charge by blast
  have "function_call_permission (permission w_key) = Some w_fcp" by (simp add: w_defs)
  then show ?thesis
    using function_call_key_confined [OF disjI1, OF r] by (auto simp: w_fcp_def)
qed

text \<open>
  C32: Only the owner of a Bitcoin address gets a key registered for it. Whatever the automatic
  registration returns, it leaves the balances and the contract data alone; if it changes the
  state at all, the signature recovers to a public key whose addresses include the signer, and
  the only entry that differs is that key of the signer, which ends with the permission it had
  or, if it was missing, with full access. If it reports success, the recovered key is the
  transaction's key, the entry exists, and its nonce is the old one or a floor that does not
  exceed the transaction's nonce.
\<close>

theorem auto_register_owner_only:
  assumes "maybe_auto_register_bitcoin_access_key C signer tx_pk sig msg h n s = Some (s', res)"
  shows "t_accounts s' = t_accounts s \<and> t_data s' = t_data s
    \<and> (s' \<noteq> s \<or> res = Ok True \<longrightarrow>
        (\<exists>b pk. sig = SigSECP256K1 b \<and> secp_recover C b msg = Ok pk
           \<and> is_bitcoin_address C signer \<and> signer \<in> set (derive_all_bitcoin_addresses C pk)
           \<and> (res = Ok True \<longrightarrow> tx_pk = SECP256K1 pk)
           \<and> (\<forall>p. p \<noteq> (signer, SECP256K1 pk)
                 \<longrightarrow> bt_get (t_access_keys s') p = bt_get (t_access_keys s) p)
           \<and> (\<exists>k'. bt_get (t_access_keys s') (signer, SECP256K1 pk) = Some k'
                 \<and> (let old = (case bt_get (t_access_keys s) (signer, SECP256K1 pk) of
                                None \<Rightarrow> full_access | Some k \<Rightarrow> k)
                    in permission k' = permission old \<and> (ak_nonce k' = ak_nonce old \<or> ak_nonce k' \<le> n)))))"
proof -
  obtain s1 r1 where v: "verify_and_register_bitcoin_transaction C sig msg signer s = (s1, r1)"
    by (cases "verify_and_register_bitcoin_transaction C sig msg signer s")
  show ?thesis
  proof (cases "\<exists>pk. r1 = Ok (True, Some pk)")
    case False
    then have "s1 = s" using verify_and_register_spec [OF v] by auto
    moreover have "s' = s1 \<and> res \<noteq> Ok True \<or> s' = s \<and> res = Ok False"
      using assms False unfolding maybe_auto_register_bitcoin_access_key_def v
      by (auto split: if_splits result.splits prod.splits option.splits)
    ultimately show ?thesis by auto
  next
    case True
    then obtain b pk where b: "sig = SigSECP256K1 b" "secp_recover C b msg = Ok pk"
      "is_bitcoin_address C signer" "signer \<in> set (derive_all_bitcoin_addresses C pk)"
      "r1 = Ok (True, Some (SECP256K1 pk))"
      "s1 = s \<and> bt_get (t_access_keys s) (signer, SECP256K1 pk) \<noteq> None
        \<or> bt_get (t_access_keys s) (signer, SECP256K1 pk) = None
          \<and> s1 = set_access_key signer (SECP256K1 pk) full_access s"
      using verify_and_register_spec [OF v] by auto
    have s': "res \<noteq> Ok True \<and> s' = s1 \<or> tx_pk = SECP256K1 pk
        \<and> (s' = s1 \<or> (\<exists>k m. bt_get (t_access_keys s1) (signer, tx_pk) = Some k \<and> m \<le> n
              \<and> s' = set_access_key signer tx_pk (k \<lparr> ak_nonce := m \<rparr>) s1))"
      using assms b(3) nonce_floor_le [of _ n]
      unfolding maybe_auto_register_bitcoin_access_key_def v b(5)
      by (simp add: get_access_key_Ok Let_def bind_eq_Some_conv
          split: if_splits result.splits option.splits) blast+
    then have "t_accounts s' = t_accounts s \<and> t_data s' = t_data s" using b(6) by auto
    then show ?thesis
      using b s' by (auto simp: bt_get_insert Let_def)
  qed
qed

definition w_empty :: TrieUpdate where
  "w_empty = \<lparr> t_accounts = [], t_code = [], t_access_keys = [], t_gas_key_nonces = [], t_data = [],
     t_global_code = Map.empty, t_global_nonces = Map.empty, t_received_data = Map.empty,
     t_postponed_ids = Map.empty, t_pending_counts = Map.empty, t_postponed = Map.empty, t_yields = Map.empty,
     t_yield_resumed = Map.empty, t_fault = (\<lambda>_. None) \<rparr>"

theorem auto_register_owner_only_witness:
  "\<exists>s' k'. maybe_auto_register_bitcoin_access_key toy_crypto
       (derive_bitcoin_p2wpkh_from_pubkey toy_crypto (replicate 64 7)) (SECP256K1 (replicate 64 7))
       (SigSECP256K1 (replicate 64 7 @ [0])) (replicate 32 1) 5 3000007 w_empty = Some (s', Ok True)
     \<and> bt_get (t_access_keys s') (derive_bitcoin_p2wpkh_from_pubkey toy_crypto (replicate 64 7),
         SECP256K1 (replicate 64 7)) = Some k'"
proof -
  let ?pk = "replicate 64 7 :: bytes"
  let ?sig = "?pk @ [0]"
  let ?a = "derive_bitcoin_p2wpkh_from_pubkey toy_crypto ?pk"
  have b: "is_bitcoin_address toy_crypto ?a"
    using p2wpkh_bitcoin_implicit [OF toy_digest_sizes]
    by (simp add: is_bitcoin_address_def get_account_type_def)
  have "?sig ! length ?pk = 0" by (rule nth_append_length)
  then have n: "?sig ! 64 = 0" by (simp only: length_replicate)
  have t: "take 64 ?sig = ?pk" by simp
  have r: "secp_recover toy_crypto ?sig m = Ok ?pk" for m
    unfolding secp_recover_def n t by (simp add: toy_crypto_def)
  have d: "?a \<in> set (derive_all_bitcoin_addresses toy_crypto ?pk)"
    by (simp add: derive_all_bitcoin_addresses_def Let_def)
  have i: "initial_nonce_value (max (saturating_sub 5 1) 1) = Some 3000000"
    by (simp add: initial_nonce_value_def saturating_sub_def max_def checked_sub_def checked_mul_def
        word_le_nat_alt ACCESS_KEY_NONCE_RANGE_MULTIPLIER_def)
  have f: "saturating_mul (3000007 div ACCESS_KEY_NONCE_RANGE_MULTIPLIER)
      ACCESS_KEY_NONCE_RANGE_MULTIPLIER = 3000000"
    by (simp add: saturating_mul_def ACCESS_KEY_NONCE_RANGE_MULTIPLIER_def)
  obtain s' where s': "maybe_auto_register_bitcoin_access_key toy_crypto ?a (SECP256K1 ?pk)
      (SigSECP256K1 ?sig) (replicate 32 1) 5 3000007 w_empty = Some (s', Ok True)"
    using b r d i f unfolding maybe_auto_register_bitcoin_access_key_def
      verify_and_register_bitcoin_transaction_def recover_secp256k1_signature_def
      auto_register_access_key_if_needed_def
    by (simp add: w_empty_def get_access_key_def trie_read_def full_access_def)
  show ?thesis using s' auto_register_owner_only [OF s'] r by auto
qed

end
