(* ===== verification/Borsh_Tx.thy ===== *)
theory Borsh_Tx
  imports Tx_Types Account_Id Codec "HOL-Library.Product_Lexorder"
begin

text \<open>
  The Borsh wire format of transactions: the encoders and decoders of keys, signatures, access
  keys, actions (\<open>core/primitives/src/action\<close>, derived from the struct and enum
  declarations), of delegate actions with the rule that they do not nest, and of the two
  transaction versions with the hand-written decoder of \<open>core/primitives/src/transaction.rs\<close>
  that tells them apart by their second byte. A decoder takes the bytes and returns the value
  with the bytes left, or \<open>None\<close> for an I/O error.
\<close>

named_theorems codec_simps \<open>reading back what was just written\<close>

section \<open>Leaves\<close>

definition borsh_bytes :: "bytes \<Rightarrow> bytes" where
  "borsh_bytes b = borsh_len (length b) @ b"

definition read_bytes :: "bytes \<Rightarrow> (bytes \<times> bytes) option" where
  "read_bytes b = Option.bind (read_le 4 b) (\<lambda>(n :: u32, b'). take_exact (unat n) b')"

definition read_u8 :: "bytes \<Rightarrow> (u8 \<times> bytes) option" where
  "read_u8 b = (case b of [] \<Rightarrow> None | x # r \<Rightarrow> Some (x, r))"

definition read_account_id :: "'e crypto_scheme \<Rightarrow> bytes \<Rightarrow> (AccountId \<times> bytes) option" where
  "read_account_id C b =
     Option.bind (read_string b) (\<lambda>(s, r). if is_ok (validate C s) then Some (s, r) else None)"

fun borsh_public_key :: "PublicKey \<Rightarrow> bytes" where
  "borsh_public_key (ED25519 k) = 0 # k"
| "borsh_public_key (SECP256K1 k) = 1 # k"

definition read_public_key :: "bytes \<Rightarrow> (PublicKey \<times> bytes) option" where
  "read_public_key b = Option.bind (read_u8 b) (\<lambda>(t, r).
     if t = 0 then map_option (\<lambda>(k, r'). (ED25519 k, r')) (take_exact 32 r)
     else if t = 1 then map_option (\<lambda>(k, r'). (SECP256K1 k, r')) (take_exact 64 r)
     else None)"

fun borsh_signature :: "Signature \<Rightarrow> bytes" where
  "borsh_signature (SigED25519 s) = 0 # s"
| "borsh_signature (SigSECP256K1 s) = 1 # s"

definition read_signature :: "bytes \<Rightarrow> (Signature \<times> bytes) option" where
  "read_signature b = Option.bind (read_u8 b) (\<lambda>(t, r).
     if t = 0 then Option.bind (take_exact 64 r) (\<lambda>(s, r').
       if (s ! 63) AND 0xE0 \<noteq> 0 then None else Some (SigED25519 s, r'))
     else if t = 1 then map_option (\<lambda>(s, r'). (SigSECP256K1 s, r')) (take_exact 65 r)
     else None)"

section \<open>Access keys\<close>

definition borsh_fcp :: "FunctionCallPermission \<Rightarrow> bytes" where
  "borsh_fcp p = borsh_option (to_le_bytes 16) (allowance p) @ borsh_string (fcp_receiver_id p)
     @ borsh_vec borsh_string (method_names p)"

definition read_fcp :: "bytes \<Rightarrow> (FunctionCallPermission \<times> bytes) option" where
  "read_fcp b =
     Option.bind (read_option (read_le 16) b) (\<lambda>(a, b1).
     Option.bind (read_string b1) (\<lambda>(rid, b2).
     Option.bind (read_vec read_string b2) (\<lambda>(ms, b3).
       Some (\<lparr> allowance = a, fcp_receiver_id = rid, method_names = ms \<rparr>, b3))))"

definition borsh_gas_key_info :: "GasKeyInfo \<Rightarrow> bytes" where
  "borsh_gas_key_info g = to_le_bytes 16 (gk_balance g) @ to_le_bytes 2 (num_nonces g)"

definition read_gas_key_info :: "bytes \<Rightarrow> (GasKeyInfo \<times> bytes) option" where
  "read_gas_key_info b =
     Option.bind (read_le 16 b) (\<lambda>(bal, b1).
     Option.bind (read_le 2 b1) (\<lambda>(n, b2). Some (\<lparr> gk_balance = bal, num_nonces = n \<rparr>, b2)))"

fun borsh_permission :: "AccessKeyPermission \<Rightarrow> bytes" where
  "borsh_permission (FunctionCallPerm p) = 0 # borsh_fcp p"
| "borsh_permission FullAccess = [1]"
| "borsh_permission (GasKeyFunctionCall g p) = 2 # borsh_gas_key_info g @ borsh_fcp p"
| "borsh_permission (GasKeyFullAccess g) = 3 # borsh_gas_key_info g"

definition read_permission :: "bytes \<Rightarrow> (AccessKeyPermission \<times> bytes) option" where
  "read_permission b = Option.bind (read_u8 b) (\<lambda>(t, r).
     if t = 0 then map_option (\<lambda>(p, r'). (FunctionCallPerm p, r')) (read_fcp r)
     else if t = 1 then Some (FullAccess, r)
     else if t = 2 then Option.bind (read_gas_key_info r) (\<lambda>(g, r1).
       map_option (\<lambda>(p, r'). (GasKeyFunctionCall g p, r')) (read_fcp r1))
     else if t = 3 then map_option (\<lambda>(g, r'). (GasKeyFullAccess g, r')) (read_gas_key_info r)
     else None)"

definition borsh_access_key :: "AccessKey \<Rightarrow> bytes" where
  "borsh_access_key k = to_le_bytes 8 (ak_nonce k) @ borsh_permission (permission k)"

definition read_access_key :: "bytes \<Rightarrow> (AccessKey \<times> bytes) option" where
  "read_access_key b =
     Option.bind (read_le 8 b) (\<lambda>(n, b1).
     Option.bind (read_permission b1) (\<lambda>(p, b2). Some (\<lparr> ak_nonce = n, permission = p \<rparr>, b2)))"

section \<open>Actions\<close>

definition borsh_function_call :: "FunctionCallAction \<Rightarrow> bytes" where
  "borsh_function_call a = borsh_string (method_name a) @ borsh_bytes (fc_args a)
     @ to_le_bytes 8 (fc_gas a) @ to_le_bytes 16 (fc_deposit a)"

definition read_function_call :: "bytes \<Rightarrow> (FunctionCallAction \<times> bytes) option" where
  "read_function_call b =
     Option.bind (read_string b) (\<lambda>(m, b1).
     Option.bind (read_bytes b1) (\<lambda>(a, b2).
     Option.bind (read_le 8 b2) (\<lambda>(g, b3).
     Option.bind (read_le 16 b3) (\<lambda>(d, b4).
       Some (\<lparr> method_name = m, fc_args = a, fc_gas = g, fc_deposit = d \<rparr>, b4)))))"

fun borsh_deploy_mode :: "GlobalContractDeployMode \<Rightarrow> bytes" where
  "borsh_deploy_mode ModeCodeHash = [0]"
| "borsh_deploy_mode ModeAccountId = [1]"

definition read_deploy_mode :: "bytes \<Rightarrow> (GlobalContractDeployMode \<times> bytes) option" where
  "read_deploy_mode b = Option.bind (read_u8 b) (\<lambda>(t, r).
     if t = 0 then Some (ModeCodeHash, r) else if t = 1 then Some (ModeAccountId, r) else None)"

fun borsh_contract_id :: "GlobalContractIdentifier \<Rightarrow> bytes" where
  "borsh_contract_id (IdCodeHash h) = 0 # h"
| "borsh_contract_id (IdAccountId a) = 1 # borsh_string a"

definition read_contract_id :: "'e crypto_scheme \<Rightarrow> bytes \<Rightarrow> (GlobalContractIdentifier \<times> bytes) option" where
  "read_contract_id C b = Option.bind (read_u8 b) (\<lambda>(t, r).
     if t = 0 then map_option (\<lambda>(h, r'). (IdCodeHash h, r')) (take_exact 32 r)
     else if t = 1 then map_option (\<lambda>(a, r'). (IdAccountId a, r')) (read_account_id C r)
     else None)"

text \<open>A map is written as the vector of its entries in key order and read back by inserting them.\<close>

definition borsh_entry :: "bytes \<times> bytes \<Rightarrow> bytes" where
  "borsh_entry kv = borsh_bytes (fst kv) @ borsh_bytes (snd kv)"

definition read_entry :: "bytes \<Rightarrow> ((bytes \<times> bytes) \<times> bytes) option" where
  "read_entry b =
     Option.bind (read_bytes b) (\<lambda>(k, b1). Option.bind (read_bytes b1) (\<lambda>(v, b2). Some ((k, v), b2)))"

definition bt_from_iter :: "('k::linorder \<times> 'v) list \<Rightarrow> ('k, 'v) btree" where
  "bt_from_iter kvs = fold (\<lambda>(k, v) m. bt_insert k v m) kvs []"

definition borsh_state_init :: "DeterministicAccountStateInit \<Rightarrow> bytes" where
  "borsh_state_init si = 0 # borsh_contract_id (si_code si) @ borsh_vec borsh_entry (si_data si)"

definition read_state_init :: "'e crypto_scheme \<Rightarrow> bytes \<Rightarrow> (DeterministicAccountStateInit \<times> bytes) option" where
  "read_state_init C b = Option.bind (read_u8 b) (\<lambda>(t, r).
     if t \<noteq> 0 then None
     else Option.bind (read_contract_id C r) (\<lambda>(c, r1).
          Option.bind (read_vec read_entry r1) (\<lambda>(es, r2).
            Some (\<lparr> si_code = c, si_data = bt_from_iter es \<rparr>, r2))))"

fun borsh_action :: "Action \<Rightarrow> bytes" and borsh_delegate_action :: "DelegateAction \<Rightarrow> bytes" where
  "borsh_action CreateAccount = [0]"
| "borsh_action (DeployContract code) = 1 # borsh_bytes code"
| "borsh_action (FunctionCall a) = 2 # borsh_function_call a"
| "borsh_action (Transfer d) = 3 # to_le_bytes 16 d"
| "borsh_action (Stake am pk) = 4 # to_le_bytes 16 am @ borsh_public_key pk"
| "borsh_action (AddKey pk k) = 5 # borsh_public_key pk @ borsh_access_key k"
| "borsh_action (DeleteKey pk) = 6 # borsh_public_key pk"
| "borsh_action (DeleteAccount b) = 7 # borsh_string b"
| "borsh_action (Delegate d sig) = 8 # borsh_delegate_action d @ borsh_signature sig"
| "borsh_action (DeployGlobalContract code mode) = 9 # borsh_bytes code @ borsh_deploy_mode mode"
| "borsh_action (UseGlobalContract c) = 10 # borsh_contract_id c"
| "borsh_action (DeterministicStateInit si d) = 11 # borsh_state_init si @ to_le_bytes 16 d"
| "borsh_action (TransferToGasKey pk d) = 12 # borsh_public_key pk @ to_le_bytes 16 d"
| "borsh_action (WithdrawFromGasKey pk am) = 13 # borsh_public_key pk @ to_le_bytes 16 am"
| "borsh_delegate_action (DelegateAction s r as n h pk) =
     borsh_string s @ borsh_string r @ (borsh_len (length as) @ concat (map borsh_action as))
     @ to_le_bytes 8 n @ to_le_bytes 8 h @ borsh_public_key pk"

text \<open>
  \<open>deserialize_variant\<close> of the enum \<open>Action\<close> for every tag but the one of a delegate
  action; \<open>NonDelegateAction\<close> refuses that tag, \<open>Action\<close> reads a delegate action of
  non-delegate actions.
\<close>

definition ACTION_DELEGATE_NUMBER :: u8 where
  "ACTION_DELEGATE_NUMBER = 8"

definition read_variant :: "'e crypto_scheme \<Rightarrow> u8 \<Rightarrow> bytes \<Rightarrow> (Action \<times> bytes) option" where
  "read_variant C t b =
     (if t = 0 then Some (CreateAccount, b)
      else if t = 1 then map_option (\<lambda>(c, r). (DeployContract c, r)) (read_bytes b)
      else if t = 2 then map_option (\<lambda>(a, r). (FunctionCall a, r)) (read_function_call b)
      else if t = 3 then map_option (\<lambda>(d, r). (Transfer d, r)) (read_le 16 b)
      else if t = 4 then Option.bind (read_le 16 b) (\<lambda>(am, r).
        map_option (\<lambda>(pk, r'). (Stake am pk, r')) (read_public_key r))
      else if t = 5 then Option.bind (read_public_key b) (\<lambda>(pk, r).
        map_option (\<lambda>(k, r'). (AddKey pk k, r')) (read_access_key r))
      else if t = 6 then map_option (\<lambda>(pk, r). (DeleteKey pk, r)) (read_public_key b)
      else if t = 7 then map_option (\<lambda>(a, r). (DeleteAccount a, r)) (read_account_id C b)
      else if t = 9 then Option.bind (read_bytes b) (\<lambda>(c, r).
        map_option (\<lambda>(m, r'). (DeployGlobalContract c m, r')) (read_deploy_mode r))
      else if t = 10 then map_option (\<lambda>(c, r). (UseGlobalContract c, r)) (read_contract_id C b)
      else if t = 11 then Option.bind (read_state_init C b) (\<lambda>(si, r).
        map_option (\<lambda>(d, r'). (DeterministicStateInit si d, r')) (read_le 16 r))
      else if t = 12 then Option.bind (read_public_key b) (\<lambda>(pk, r).
        map_option (\<lambda>(d, r'). (TransferToGasKey pk d, r')) (read_le 16 r))
      else if t = 13 then Option.bind (read_public_key b) (\<lambda>(pk, r).
        map_option (\<lambda>(am, r'). (WithdrawFromGasKey pk am, r')) (read_le 16 r))
      else None)"

definition read_non_delegate :: "'e crypto_scheme \<Rightarrow> bytes \<Rightarrow> (Action \<times> bytes) option" where
  "read_non_delegate C b = Option.bind (read_u8 b) (\<lambda>(t, r).
     if t = ACTION_DELEGATE_NUMBER then None else read_variant C t r)"

definition read_delegate_action :: "'e crypto_scheme \<Rightarrow> bytes \<Rightarrow> (DelegateAction \<times> bytes) option" where
  "read_delegate_action C b =
     Option.bind (read_account_id C b) (\<lambda>(s, b1).
     Option.bind (read_account_id C b1) (\<lambda>(r, b2).
     Option.bind (read_vec (read_non_delegate C) b2) (\<lambda>(as, b3).
     Option.bind (read_le 8 b3) (\<lambda>(n, b4).
     Option.bind (read_le 8 b4) (\<lambda>(h, b5).
     Option.bind (read_public_key b5) (\<lambda>(pk, b6). Some (DelegateAction s r as n h pk, b6)))))))"

definition read_action :: "'e crypto_scheme \<Rightarrow> bytes \<Rightarrow> (Action \<times> bytes) option" where
  "read_action C b = Option.bind (read_u8 b) (\<lambda>(t, r).
     if t = ACTION_DELEGATE_NUMBER then
       Option.bind (read_delegate_action C r) (\<lambda>(d, r1).
         map_option (\<lambda>(sig, r2). (Delegate d sig, r2)) (read_signature r1))
     else read_variant C t r)"

section \<open>Transactions\<close>

fun borsh_nonce :: "TransactionNonce \<Rightarrow> bytes" where
  "borsh_nonce (PlainNonce n) = 0 # to_le_bytes 8 n"
| "borsh_nonce (GasKeyNonce n i) = 1 # to_le_bytes 8 n @ to_le_bytes 2 i"

definition read_nonce :: "bytes \<Rightarrow> (TransactionNonce \<times> bytes) option" where
  "read_nonce b = Option.bind (read_u8 b) (\<lambda>(t, r).
     if t = 0 then map_option (\<lambda>(n, r'). (PlainNonce n, r')) (read_le 8 r)
     else if t = 1 then Option.bind (read_le 8 r) (\<lambda>(n, r1).
       map_option (\<lambda>(i, r'). (GasKeyNonce n i, r')) (read_le 2 r1))
     else None)"

definition borsh_v0 :: "TransactionV0 \<Rightarrow> bytes" where
  "borsh_v0 t = borsh_string (v0_signer_id t) @ borsh_public_key (v0_public_key t)
     @ to_le_bytes 8 (v0_nonce t) @ borsh_string (v0_receiver_id t) @ v0_block_hash t
     @ borsh_vec borsh_action (v0_actions t)"

definition borsh_v1 :: "TransactionV1 \<Rightarrow> bytes" where
  "borsh_v1 t = borsh_string (v1_signer_id t) @ borsh_public_key (v1_public_key t)
     @ borsh_nonce (v1_nonce t) @ borsh_string (v1_receiver_id t) @ v1_block_hash t
     @ borsh_vec borsh_action (v1_actions t)"

fun borsh_transaction :: "Transaction \<Rightarrow> bytes" where
  "borsh_transaction (TxV0 t) = borsh_v0 t"
| "borsh_transaction (TxV1 t) = 1 # borsh_v1 t"

definition read_signer_id :: "'e crypto_scheme \<Rightarrow> bytes \<Rightarrow> bytes \<Rightarrow> (AccountId \<times> bytes) option" where
  "read_signer_id C buf b =
     (let str_len = from_le_bytes buf :: u32 in
      if unat str_len > MAX_LEN then None
      else Option.bind (take_exact (unat str_len) b) (\<lambda>(x, r).
        if is_str (str_of x) \<and> is_ok (validate C (str_of x)) then Some (str_of x, r) else None))"

definition read_v0_rest ::
  "'e crypto_scheme \<Rightarrow> AccountId \<Rightarrow> bytes \<Rightarrow> (Transaction \<times> bytes) option" where
  "read_v0_rest C sid b =
     Option.bind (read_public_key b) (\<lambda>(pk, b1).
     Option.bind (read_le 8 b1) (\<lambda>(n, b2).
     Option.bind (read_account_id C b2) (\<lambda>(rid, b3).
     Option.bind (take_exact 32 b3) (\<lambda>(h, b4).
     Option.bind (read_vec (read_action C) b4) (\<lambda>(as, b5).
       Some (TxV0 \<lparr> v0_signer_id = sid, v0_public_key = pk, v0_nonce = n, v0_receiver_id = rid,
               v0_block_hash = h, v0_actions = as \<rparr>, b5))))))"

definition read_v1_rest ::
  "'e crypto_scheme \<Rightarrow> AccountId \<Rightarrow> bytes \<Rightarrow> (Transaction \<times> bytes) option" where
  "read_v1_rest C sid b =
     Option.bind (read_public_key b) (\<lambda>(pk, b1).
     Option.bind (read_nonce b1) (\<lambda>(n, b2).
     Option.bind (read_account_id C b2) (\<lambda>(rid, b3).
     Option.bind (take_exact 32 b3) (\<lambda>(h, b4).
     Option.bind (read_vec (read_action C) b4) (\<lambda>(as, b5).
       Some (TxV1 \<lparr> v1_signer_id = sid, v1_public_key = pk, v1_nonce = n, v1_receiver_id = rid,
               v1_block_hash = h, v1_actions = as \<rparr>, b5))))))"

text \<open>The first byte of a version 1 encoding is consumed but not compared with 1, as in the code.\<close>

definition read_transaction :: "'e crypto_scheme \<Rightarrow> bytes \<Rightarrow> (Transaction \<times> bytes) option" where
  "read_transaction C b =
     (case b of
        u1 # u2 # u3 # u4 # r \<Rightarrow>
          if u2 = 0 then
            Option.bind (read_signer_id C [u1, u2, u3, u4] r) (\<lambda>(sid, r1). read_v0_rest C sid r1)
          else Option.bind (read_u8 r) (\<lambda>(u5, r1).
            Option.bind (read_signer_id C [u2, u3, u4, u5] r1) (\<lambda>(sid, r2). read_v1_rest C sid r2))
      | _ \<Rightarrow> None)"

definition get_hash_and_size :: "'e crypto_scheme \<Rightarrow> Transaction \<Rightarrow> CryptoHash \<times> u64" where
  "get_hash_and_size C tx =
     (let b = borsh_transaction tx in (sha256 C b, word_of_nat (length b)))"

definition signed_tx_new :: "'e crypto_scheme \<Rightarrow> Signature \<Rightarrow> Transaction \<Rightarrow> SignedTransaction" where
  "signed_tx_new C sig tx =
     (let (h, n) = get_hash_and_size C tx in
      \<lparr> st_transaction = tx, st_signature = sig, st_hash = h, st_size = n \<rparr>)"

definition borsh_signed_tx :: "SignedTransaction \<Rightarrow> bytes" where
  "borsh_signed_tx t = borsh_transaction (st_transaction t) @ borsh_signature (st_signature t)"

definition read_signed_tx :: "'e crypto_scheme \<Rightarrow> bytes \<Rightarrow> (SignedTransaction \<times> bytes) option" where
  "read_signed_tx C b =
     Option.bind (read_transaction C b) (\<lambda>(tx, b1).
     Option.bind (read_signature b1) (\<lambda>(sig, b2). Some (signed_tx_new C sig tx, b2)))"

section \<open>Signatures\<close>

definition signature_verify :: "'e crypto_scheme \<Rightarrow> Signature \<Rightarrow> bytes \<Rightarrow> PublicKey \<Rightarrow> bool" where
  "signature_verify C sig data pk =
     (case (sig, pk) of
        (SigED25519 s, ED25519 k) \<Rightarrow> ed25519_verify C k data s
      | (SigSECP256K1 s, SECP256K1 k) \<Rightarrow>
          (case recovery_id_from_i32 C (unat (s ! 64)) of
             Err _ \<Rightarrow> False
           | Ok rec_id \<Rightarrow>
               (case from_compact C (take 64 s) rec_id of
                  Err _ \<Rightarrow> False
                | Ok rsig \<Rightarrow> verify_ecdsa C data rsig (4 # k)))
      | _ \<Rightarrow> False)"

text \<open>The message that signs a delegate action: the discriminant of NEP-366 and the action.\<close>

definition MIN_ON_CHAIN_DISCRIMINANT :: u32 where
  "MIN_ON_CHAIN_DISCRIMINANT = 2 ^ 30"

definition NEP_366_META_TRANSACTIONS :: u32 where
  "NEP_366_META_TRANSACTIONS = 366"

definition borsh_signable :: "DelegateAction \<Rightarrow> bytes" where
  "borsh_signable d =
     to_le_bytes 4 (MIN_ON_CHAIN_DISCRIMINANT + NEP_366_META_TRANSACTIONS) @ borsh_delegate_action d"

definition get_nep461_hash :: "'e crypto_scheme \<Rightarrow> DelegateAction \<Rightarrow> CryptoHash" where
  "get_nep461_hash C d = sha256 C (borsh_signable d)"

definition signed_delegate_verify :: "'e crypto_scheme \<Rightarrow> DelegateAction \<Rightarrow> Signature \<Rightarrow> bool" where
  "signed_delegate_verify C d sig = signature_verify C sig (get_nep461_hash C d) (da_public_key d)"

section \<open>Values that a Rust program can hold\<close>

text \<open>
  Strings are UTF-8 and shorter than $2^{32}$ bytes, account identifiers are valid, keys, hashes
  and signatures have their sizes, maps are sorted, and delegate actions do not nest.
\<close>

definition str_ok :: "string \<Rightarrow> bool" where
  "str_ok s \<longleftrightarrow> length s < 2 ^ 32 \<and> is_str s"

definition bytes_ok :: "bytes \<Rightarrow> bool" where
  "bytes_ok b \<longleftrightarrow> length b < 2 ^ 32"

definition aid_ok :: "'e crypto_scheme \<Rightarrow> AccountId \<Rightarrow> bool" where
  "aid_ok C a \<longleftrightarrow> validate C a = Ok () \<and> is_str a"

fun pk_ok :: "PublicKey \<Rightarrow> bool" where
  "pk_ok (ED25519 k) \<longleftrightarrow> length k = 32"
| "pk_ok (SECP256K1 k) \<longleftrightarrow> length k = 64"

fun sig_ok :: "Signature \<Rightarrow> bool" where
  "sig_ok (SigED25519 s) \<longleftrightarrow> length s = 64 \<and> (s ! 63) AND 0xE0 = 0"
| "sig_ok (SigSECP256K1 s) \<longleftrightarrow> length s = 65"

definition fcp_ok :: "FunctionCallPermission \<Rightarrow> bool" where
  "fcp_ok p \<longleftrightarrow> str_ok (fcp_receiver_id p) \<and> length (method_names p) < 2 ^ 32 \<and> list_all str_ok (method_names p)"

fun permission_ok :: "AccessKeyPermission \<Rightarrow> bool" where
  "permission_ok (FunctionCallPerm p) \<longleftrightarrow> fcp_ok p"
| "permission_ok (GasKeyFunctionCall _ p) \<longleftrightarrow> fcp_ok p"
| "permission_ok _ \<longleftrightarrow> True"

fun contract_id_ok :: "'e crypto_scheme \<Rightarrow> GlobalContractIdentifier \<Rightarrow> bool" where
  "contract_id_ok C (IdCodeHash h) \<longleftrightarrow> length h = 32"
| "contract_id_ok C (IdAccountId a) \<longleftrightarrow> aid_ok C a"

definition state_init_ok :: "'e crypto_scheme \<Rightarrow> DeterministicAccountStateInit \<Rightarrow> bool" where
  "state_init_ok C si \<longleftrightarrow> contract_id_ok C (si_code si) \<and> length (si_data si) < 2 ^ 32
     \<and> list_all (\<lambda>(k, v). bytes_ok k \<and> bytes_ok v) (si_data si) \<and> bt_inv (si_data si)"

fun action_ok :: "'e crypto_scheme \<Rightarrow> Action \<Rightarrow> bool" where
  "action_ok C CreateAccount \<longleftrightarrow> True"
| "action_ok C (DeployContract code) \<longleftrightarrow> bytes_ok code"
| "action_ok C (FunctionCall a) \<longleftrightarrow> str_ok (method_name a) \<and> bytes_ok (fc_args a)"
| "action_ok C (Transfer _) \<longleftrightarrow> True"
| "action_ok C (Stake _ pk) \<longleftrightarrow> pk_ok pk"
| "action_ok C (AddKey pk k) \<longleftrightarrow> pk_ok pk \<and> permission_ok (permission k)"
| "action_ok C (DeleteKey pk) \<longleftrightarrow> pk_ok pk"
| "action_ok C (DeleteAccount a) \<longleftrightarrow> aid_ok C a"
| "action_ok C (Delegate (DelegateAction s r as n h pk) sig) \<longleftrightarrow>
     aid_ok C s \<and> aid_ok C r \<and> pk_ok pk \<and> sig_ok sig \<and> length as < 2 ^ 32
     \<and> (\<forall>a \<in> set as. non_delegate a \<and> action_ok C a)"
| "action_ok C (DeployGlobalContract code _) \<longleftrightarrow> bytes_ok code"
| "action_ok C (UseGlobalContract c) \<longleftrightarrow> contract_id_ok C c"
| "action_ok C (DeterministicStateInit si _) \<longleftrightarrow> state_init_ok C si"
| "action_ok C (TransferToGasKey pk _) \<longleftrightarrow> pk_ok pk"
| "action_ok C (WithdrawFromGasKey pk _) \<longleftrightarrow> pk_ok pk"

definition tx_ok :: "'e crypto_scheme \<Rightarrow> Transaction \<Rightarrow> bool" where
  "tx_ok C tx \<longleftrightarrow> aid_ok C (tx_signer_id tx) \<and> aid_ok C (tx_receiver_id tx) \<and> pk_ok (tx_public_key tx)
     \<and> length (case tx of TxV0 t \<Rightarrow> v0_block_hash t | TxV1 t \<Rightarrow> v1_block_hash t) = 32
     \<and> length (tx_actions tx) < 2 ^ 32 \<and> list_all (action_ok C) (tx_actions tx)"

section \<open>Reading back\<close>

lemma read_u8_Cons [codec_simps]: "read_u8 (x # r) = Some (x, r)"
  by (simp add: read_u8_def)

lemma read_words [codec_simps]:
  "read_le 2 (to_le_bytes 2 (w2 :: u16) @ r) = Some (w2, r)"
  "read_le 8 (to_le_bytes 8 (w8 :: u64) @ r) = Some (w8, r)"
  "read_le 16 (to_le_bytes 16 (w16 :: u128) @ r) = Some (w16, r)"
  by (simp_all add: read_le_to_le)

lemma read_string_ok [codec_simps]: "str_ok s \<Longrightarrow> read_string (borsh_string s @ r) = Some (s, r)"
  unfolding str_ok_def by (rule string_codec.dec_enc)

lemma read_bytes_ok [codec_simps]: "bytes_ok b \<Longrightarrow> read_bytes (borsh_bytes b @ r) = Some (b, r)"
  by (simp add: read_bytes_def borsh_bytes_def bytes_ok_def read_borsh_len unat_word_of_nat)

lemma validate_length: "validate C a = Ok () \<Longrightarrow> 2 \<le> length a \<and> length a \<le> 64"
  by (auto simp: validate_def MIN_LEN_def MAX_LEN_def split: if_splits)

lemma aid_ok_str: "aid_ok C a \<Longrightarrow> str_ok a"
  using validate_length by (fastforce simp: aid_ok_def str_ok_def)

lemma read_account_id_ok [codec_simps]:
  "aid_ok C a \<Longrightarrow> read_account_id C (borsh_string a @ r) = Some (a, r)"
  by (frule aid_ok_str) (simp add: read_account_id_def codec_simps aid_ok_def)

lemma read_public_key_ok [codec_simps]:
  "pk_ok pk \<Longrightarrow> read_public_key (borsh_public_key pk @ r) = Some (pk, r)"
  by (cases pk) (simp_all add: read_public_key_def codec_simps)

lemma read_signature_ok [codec_simps]:
  "sig_ok sig \<Longrightarrow> read_signature (borsh_signature sig @ r) = Some (sig, r)"
  by (cases sig) (simp_all add: read_signature_def codec_simps)

lemma read_allowance [codec_simps]:
  "read_option (read_le 16) (borsh_option (to_le_bytes 16) (a :: u128 option) @ r) = Some (a, r)"
  by (cases a) (simp_all add: codec_simps)

lemma read_strings_ok [codec_simps]:
  "length xs < 2 ^ 32 \<Longrightarrow> list_all str_ok xs
     \<Longrightarrow> read_vec read_string (borsh_vec borsh_string xs @ r) = Some (xs, r)"
  by (rule strings_codec.dec_enc) (simp add: str_ok_def [abs_def])

lemma read_fcp_ok [codec_simps]: "fcp_ok p \<Longrightarrow> read_fcp (borsh_fcp p @ r) = Some (p, r)"
  by (simp add: fcp_ok_def read_fcp_def borsh_fcp_def codec_simps)

lemma read_gas_key_info_ok [codec_simps]:
  "read_gas_key_info (borsh_gas_key_info g @ r) = Some (g, r)"
  by (simp add: read_gas_key_info_def borsh_gas_key_info_def codec_simps)

lemma read_permission_ok [codec_simps]:
  "permission_ok p \<Longrightarrow> read_permission (borsh_permission p @ r) = Some (p, r)"
  by (cases p) (simp_all add: read_permission_def codec_simps)

lemma read_access_key_ok [codec_simps]:
  "permission_ok (permission k) \<Longrightarrow> read_access_key (borsh_access_key k @ r) = Some (k, r)"
  by (simp add: read_access_key_def borsh_access_key_def codec_simps)

lemma read_function_call_ok [codec_simps]:
  "str_ok (method_name a) \<Longrightarrow> bytes_ok (fc_args a)
     \<Longrightarrow> read_function_call (borsh_function_call a @ r) = Some (a, r)"
  by (simp add: read_function_call_def borsh_function_call_def codec_simps)

lemma read_deploy_mode_ok [codec_simps]: "read_deploy_mode (borsh_deploy_mode m @ r) = Some (m, r)"
  by (cases m) (simp_all add: read_deploy_mode_def codec_simps)

lemma read_contract_id_ok [codec_simps]:
  "contract_id_ok C c \<Longrightarrow> read_contract_id C (borsh_contract_id c @ r) = Some (c, r)"
  by (cases c) (simp_all add: read_contract_id_def codec_simps)

lemma entry_codec: "prefix_codec borsh_entry read_entry (\<lambda>(k, v). bytes_ok k \<and> bytes_ok v)"
  by unfold_locales (auto simp: read_entry_def borsh_entry_def codec_simps)

lemma bt_insert_last:
  "\<forall>k' \<in> fst ` set m. k' < k \<Longrightarrow> bt_insert k v m = m @ [(k, v)]"
  by (induction k v m rule: bt_insert.induct) auto

lemma bt_from_iter_sorted: "bt_inv m \<Longrightarrow> bt_from_iter m = m"
proof -
  assume "bt_inv m"
  then have "fold (\<lambda>(k, v) m. bt_insert k v m) m1 m0 = m0 @ m1" if "m = m0 @ m1" for m0 m1
    using that
  proof (induction m1 arbitrary: m0)
    case (Cons kv m1)
    obtain k v where kv: "kv = (k, v)" by (cases kv)
    have "bt_insert k v m0 = m0 @ [(k, v)]"
      by (rule bt_insert_last) (use Cons.prems kv in \<open>auto simp: bt_inv_def sorted_wrt_append\<close>)
    then show ?case using Cons kv by simp
  qed simp
  from this [of "[]" m] show ?thesis by (simp add: bt_from_iter_def)
qed

lemma read_state_init_ok [codec_simps]:
  assumes "state_init_ok C si"
  shows "read_state_init C (borsh_state_init si @ r) = Some (si, r)"
proof -
  have "read_vec read_entry (borsh_vec borsh_entry (si_data si) @ r) = Some (si_data si, r)" for r
    by (rule prefix_codec.dec_enc [OF prefix_codec_vec [OF entry_codec]])
      (use assms in \<open>simp add: state_init_ok_def\<close>)
  then show ?thesis
    using assms by (simp add: state_init_ok_def read_state_init_def borsh_state_init_def codec_simps
        bt_from_iter_sorted)
qed

lemma read_variant_ok:
  assumes "action_ok C a" "non_delegate a"
  shows "\<exists>t b. borsh_action a = t # b \<and> t \<noteq> 8 \<and> (\<forall>r. read_variant C t (b @ r) = Some (a, r))"
  using assms by (cases a) (simp_all add: read_variant_def codec_simps)

lemma read_non_delegate_ok:
  "action_ok C a \<and> non_delegate a \<Longrightarrow> read_non_delegate C (borsh_action a @ r) = Some (a, r)"
  using read_variant_ok [of C a]
  by (auto simp: read_non_delegate_def ACTION_DELEGATE_NUMBER_def codec_simps)

lemma non_delegate_codec:
  "prefix_codec borsh_action (read_non_delegate C) (\<lambda>a. action_ok C a \<and> non_delegate a)"
  by unfold_locales (rule read_non_delegate_ok)

lemma read_delegate_ok:
  assumes "action_ok C (Delegate d sig)"
  shows "read_delegate_action C (borsh_delegate_action d @ r) = Some (d, r)"
proof (cases d)
  case (DelegateAction s rid as n h pk)
  have "read_vec (read_non_delegate C) (borsh_vec borsh_action as @ r) = Some (as, r)" for r
    by (rule prefix_codec.dec_enc [OF prefix_codec_vec [OF non_delegate_codec]])
      (use assms DelegateAction in \<open>simp add: list_all_iff\<close>)
  then show ?thesis
    using assms DelegateAction
    by (simp add: read_delegate_action_def codec_simps borsh_vec_def)
qed

interpretation action_codec: prefix_codec borsh_action "read_action C" "action_ok C"
proof
  fix a rest assume a: "action_ok C a"
  show "read_action C (borsh_action a @ rest) = Some (a, rest)"
  proof (cases "non_delegate a")
    case True
    then show ?thesis
      using read_variant_ok [OF a] by (auto simp: read_action_def ACTION_DELEGATE_NUMBER_def codec_simps)
  next
    case False
    then obtain d sig where d: "a = Delegate d sig" by (cases a) auto
    then have "sig_ok sig" using a by (cases d) simp
    then show ?thesis
      using read_delegate_ok [OF a [unfolded d]] unfolding d
      by (simp add: read_action_def ACTION_DELEGATE_NUMBER_def codec_simps)
  qed
qed

interpretation actions_codec: prefix_codec "borsh_vec borsh_action" "read_vec (read_action C)"
  "\<lambda>as. length as < 2 ^ 32 \<and> list_all (action_ok C) as"
  by (rule prefix_codec_vec) (rule action_codec.prefix_codec_axioms)

lemma borsh_len_small: "n < 256 \<Longrightarrow> borsh_len n = [word_of_nat n, 0, 0, 0]"
proof -
  assume n: "n < 256"
  then have "unat (word_of_nat n :: u32) = n" by (simp add: unat_word_of_nat)
  moreover have "(4::nat) = Suc (Suc (Suc (Suc 0)))" by simp
  ultimately show ?thesis using n by (simp only: borsh_len_def to_le_bytes_def) simp
qed

lemma unat_from_le_u32: "length b = 4 \<Longrightarrow> unat (from_le_bytes b :: u32) = nat_of_le b"
  unfolding from_le_bytes_def
  by (rule unat_word_of_nat) (use nat_of_le_bound [of b] in simp)

lemma from_le_borsh_len: "n < 2 ^ 32 \<Longrightarrow> from_le_bytes (borsh_len n) = (word_of_nat n :: u32)"
  by (simp add: borsh_len_def from_to_le_bytes)

lemma read_signer_id_ok:
  assumes "aid_ok C a"
  shows "read_signer_id C (borsh_len (length a)) (as_bytes a @ r) = Some (a, r)"
proof -
  have "length a \<le> 64" "validate C a = Ok ()" "is_str a"
    using assms validate_length by (auto simp: aid_ok_def)
  then show ?thesis
    by (simp add: read_signer_id_def from_le_borsh_len unat_word_of_nat MAX_LEN_def)
qed

lemma read_nonce_ok [codec_simps]: "read_nonce (borsh_nonce n @ r) = Some (n, r)"
  by (cases n) (simp_all add: read_nonce_def codec_simps)

lemma read_actions_ok [codec_simps]:
  "length as < 2 ^ 32 \<Longrightarrow> list_all (action_ok C) as
     \<Longrightarrow> read_vec (read_action C) (borsh_vec borsh_action as @ r) = Some (as, r)"
  by (rule actions_codec.dec_enc) simp

lemma read_transaction_v0:
  assumes "tx_ok C (TxV0 t)"
  shows "read_transaction C (borsh_v0 t @ r) = Some (TxV0 t, r)"
proof -
  let ?n = "length (v0_signer_id t)"
  have a: "aid_ok C (v0_signer_id t)" using assms by (simp add: tx_ok_def)
  then have n: "?n < 256" using validate_length [of C "v0_signer_id t"] by (simp add: aid_ok_def)
  have e: "borsh_string (v0_signer_id t) @ x = word_of_nat ?n # 0 # 0 # 0 # as_bytes (v0_signer_id t) @ x"
    for x by (simp add: borsh_string_def borsh_len_small [OF n])
  show ?thesis
    using assms read_signer_id_ok [OF a, unfolded borsh_len_small [OF n]]
    by (simp add: tx_ok_def read_transaction_def borsh_v0_def e read_v0_rest_def codec_simps)
qed

lemma read_transaction_v1:
  assumes "tx_ok C (TxV1 t)"
  shows "read_transaction C (1 # borsh_v1 t @ r) = Some (TxV1 t, r)"
proof -
  let ?n = "length (v1_signer_id t)"
  have a: "aid_ok C (v1_signer_id t)" using assms by (simp add: tx_ok_def)
  then have n: "?n < 256" "0 < ?n" using validate_length [of C "v1_signer_id t"] by (auto simp: aid_ok_def)
  then have z: "(word_of_nat ?n :: u8) \<noteq> 0"
    by (simp add: word_unat_eq_iff unat_word_of_nat)
  have e: "borsh_string (v1_signer_id t) @ x = word_of_nat ?n # 0 # 0 # 0 # as_bytes (v1_signer_id t) @ x"
    for x by (simp add: borsh_string_def borsh_len_small [OF n(1)])
  show ?thesis
    using assms z read_signer_id_ok [OF a, unfolded borsh_len_small [OF n(1)]]
    by (simp add: tx_ok_def read_transaction_def borsh_v1_def e read_v1_rest_def codec_simps)
qed

interpretation tx_codec: prefix_codec borsh_transaction "read_transaction C" "tx_ok C"
proof
  fix tx rest assume "tx_ok C tx"
  then show "read_transaction C (borsh_transaction tx @ rest) = Some (tx, rest)"
    by (cases tx) (simp_all add: read_transaction_v0 read_transaction_v1)
qed

section \<open>Properties\<close>

text \<open>Concrete values for the witnesses.\<close>

definition bw_delegate :: DelegateAction where
  "bw_delegate = DelegateAction ''alice'' ''bob'' [Transfer 5, DeleteAccount ''bob''] 3 9 (ED25519 (replicate 32 1))"

definition bw_sig :: Signature where
  "bw_sig = SigSECP256K1 (replicate 65 1)"

definition bw_tx :: Transaction where
  "bw_tx = TxV1 \<lparr> v1_signer_id = ''alice'', v1_public_key = SECP256K1 (replicate 64 7),
     v1_nonce = GasKeyNonce 4 1, v1_receiver_id = ''bob'', v1_block_hash = replicate 32 2,
     v1_actions = [CreateAccount, Delegate bw_delegate bw_sig] \<rparr>"

lemma bw_names: "aid_ok toy_crypto ''alice''" "aid_ok toy_crypto ''bob''"
  by (simp_all add: aid_ok_def validate_def MIN_LEN_def MAX_LEN_def is_str_def is_bitcoin_implicit_def
      has_valid_base58check_address_def has_valid_segwit_address_def is_legacy_lowercased_bitcoin_def
      starts_with_def lower_alnum_def separator_def toy_crypto_def Let_def)

lemma bw_delegate_ok: "action_ok toy_crypto (Delegate bw_delegate bw_sig)"
  using bw_names by (simp add: bw_delegate_def bw_sig_def)

lemma bw_tx_ok: "tx_ok toy_crypto bw_tx"
  using bw_names bw_delegate_ok by (simp add: tx_ok_def bw_tx_def)

text \<open>
  C33: The wire format of signed transactions is unambiguous. Decoding the encoding of any
  well-formed signed transaction, of either version and with anything after it, gives the
  transaction back with the hash and the size that signing computed; and two well-formed
  transactions with the same bytes are equal, so their hashes are taken over distinct messages.
\<close>

theorem signed_tx_round_trip:
  assumes "tx_ok C tx" "sig_ok sig"
  shows "read_signed_tx C (borsh_signed_tx (signed_tx_new C sig tx) @ r) = Some (signed_tx_new C sig tx, r)
    \<and> (\<forall>tx'. tx_ok C tx' \<longrightarrow> borsh_transaction tx' = borsh_transaction tx \<longrightarrow> tx' = tx)"
proof -
  have s: "st_transaction (signed_tx_new C sig tx) = tx" "st_signature (signed_tx_new C sig tx) = sig"
    by (simp_all add: signed_tx_new_def get_hash_and_size_def Let_def)
  have "read_signed_tx C (borsh_signed_tx (signed_tx_new C sig tx) @ r) = Some (signed_tx_new C sig tx, r)"
    using tx_codec.dec_enc [OF assms(1)] assms(2)
    by (simp add: read_signed_tx_def borsh_signed_tx_def s read_signature_ok)
  moreover have "tx' = tx" if "tx_ok C tx'" "borsh_transaction tx' = borsh_transaction tx" for tx'
    using tx_codec.enc_inj that assms(1) by blast
  ultimately show ?thesis by blast
qed

theorem signed_tx_round_trip_witness:
  "read_signed_tx toy_crypto (borsh_signed_tx (signed_tx_new toy_crypto bw_sig bw_tx) @ [7])
     = Some (signed_tx_new toy_crypto bw_sig bw_tx, [7])"
  using signed_tx_round_trip [OF bw_tx_ok, of bw_sig "[7]"] by (simp add: bw_sig_def)



text \<open>
  C37: The message signed for a delegate action cannot be taken for a transaction: its bytes,
  with anything after them, are rejected by the transaction decoder. A relayer who holds a
  signed delegate action holds no signature of a transaction.
\<close>

theorem delegate_message_is_no_transaction:
  "read_transaction C (borsh_signable d @ r) = None"
proof -
  have four: "(4::nat) = Suc (Suc (Suc (Suc 0)))" by simp
  have "unat (MIN_ON_CHAIN_DISCRIMINANT + NEP_366_META_TRANSACTIONS) = 1073742190"
    by (simp add: MIN_ON_CHAIN_DISCRIMINANT_def NEP_366_META_TRANSACTIONS_def)
  then have b: "borsh_signable d @ r = 110 # 1 # 0 # 64 # (borsh_delegate_action d @ r)"
    by (simp only: borsh_signable_def to_le_bytes_def four) simp
  have "read_signer_id C [1, 0, 64, u5] x = None" for u5 x
  proof -
    have "unat (from_le_bytes [1, 0, 64, u5] :: u32) = 4194305 + 16777216 * unat u5"
      by (simp add: unat_from_le_u32)
    then show ?thesis by (simp add: read_signer_id_def MAX_LEN_def)
  qed
  then show ?thesis
    by (auto simp: b read_transaction_def read_u8_def split: list.splits)
qed

end
