(* ===== verification/Near_Tx_Builder.thy ===== *)
theory Near_Tx_Builder
  imports Borsh_Tx
begin

text \<open>
  \<open>bitinfinity-btcrpc/src/near_tx_builder.rs\<close>: the RPC service writes the Borsh bytes of NEAR
  transactions by hand, without the node's types. The theory models every constructor of
  \<open>NearAction\<close> and the builder, and compares the bytes with what the node's own encoder and
  decoder (theory \<open>Borsh_Tx\<close>) use. ECDSA signing and the Base64 engine are parameters.
\<close>

section \<open>Actions\<close>

definition borsh_write_string :: "bytes \<Rightarrow> string \<Rightarrow> bytes" where
  "borsh_write_string buf s = buf @ to_le_bytes 4 (word_of_nat (length s) :: u32) @ as_bytes s"

definition near_create_account :: bytes where
  "near_create_account = [0x00]"

definition near_deploy_contract :: "bytes \<Rightarrow> bytes" where
  "near_deploy_contract code = [0x01] @ to_le_bytes 4 (word_of_nat (length code) :: u32) @ code"

definition near_function_call :: "string \<Rightarrow> bytes \<Rightarrow> u64 \<Rightarrow> u128 \<Rightarrow> bytes" where
  "near_function_call name args gas deposit =
     borsh_write_string [0x02] name @ to_le_bytes 4 (word_of_nat (length args) :: u32) @ args
     @ to_le_bytes 8 gas @ to_le_bytes 16 deposit"

definition near_transfer :: "u128 \<Rightarrow> bytes" where
  "near_transfer deposit = [0x03] @ to_le_bytes 16 deposit"

definition near_stake :: "u128 \<Rightarrow> bytes \<Rightarrow> bytes" where
  "near_stake stake_amount pk = [0x04] @ to_le_bytes 16 stake_amount @ [0x01] @ pk"

definition near_stake_ed25519 :: "u128 \<Rightarrow> bytes \<Rightarrow> bytes" where
  "near_stake_ed25519 stake_amount pk = [0x04] @ to_le_bytes 16 stake_amount @ [0x00] @ pk"

definition near_add_full_access_key :: "bytes \<Rightarrow> bytes" where
  "near_add_full_access_key pk = [0x05] @ [0x01] @ pk @ to_le_bytes 8 (0 :: u64) @ [0x01]"

definition near_add_function_call_key :: "bytes \<Rightarrow> u128 option \<Rightarrow> string \<Rightarrow> string list \<Rightarrow> bytes" where
  "near_add_function_call_key pk allow receiver names =
     (let buf1 = [0x05] @ [0x01] @ pk @ to_le_bytes 8 (0 :: u64) @ [0x00];
          buf2 = (case allow of Some a \<Rightarrow> buf1 @ [0x01] @ to_le_bytes 16 a | None \<Rightarrow> buf1 @ [0x00]);
          buf3 = borsh_write_string buf2 receiver;
          buf4 = buf3 @ to_le_bytes 4 (word_of_nat (length names) :: u32)
      in foldl borsh_write_string buf4 names)"

definition near_delete_key :: "bytes \<Rightarrow> bytes" where
  "near_delete_key pk = [0x06] @ [0x01] @ pk"

definition near_add_full_access_key_ed25519 :: "bytes \<Rightarrow> bytes" where
  "near_add_full_access_key_ed25519 pk = [0x05] @ [0x00] @ pk @ to_le_bytes 8 (0 :: u64) @ [0x01]"

definition near_delete_key_ed25519 :: "bytes \<Rightarrow> bytes" where
  "near_delete_key_ed25519 pk = [0x06] @ [0x00] @ pk"

definition near_delete_account :: "string \<Rightarrow> bytes" where
  "near_delete_account beneficiary = borsh_write_string [0x07] beneficiary"

definition near_deploy_global_contract :: "bytes \<Rightarrow> bytes" where
  "near_deploy_global_contract code =
     [0x09] @ [0x00] @ to_le_bytes 4 (word_of_nat (length code) :: u32) @ code"

definition near_deploy_global_contract_by_hash :: "bytes \<Rightarrow> bytes" where
  "near_deploy_global_contract_by_hash code_hash = [0x09] @ [0x01] @ code_hash"

definition near_use_global_contract_by_hash :: "bytes \<Rightarrow> bytes" where
  "near_use_global_contract_by_hash code_hash = [0x0A] @ [0x00] @ code_hash"

definition near_use_global_contract_by_account :: "string \<Rightarrow> bytes" where
  "near_use_global_contract_by_account account_id = borsh_write_string ([0x0A] @ [0x01]) account_id"

definition near_transfer_to_gas_key :: "bytes \<Rightarrow> u128 \<Rightarrow> bytes" where
  "near_transfer_to_gas_key pk deposit = [0x0C] @ [0x01] @ pk @ to_le_bytes 16 deposit"

definition near_withdraw_from_gas_key :: "bytes \<Rightarrow> u128 \<Rightarrow> bytes" where
  "near_withdraw_from_gas_key pk am = [0x0D] @ [0x01] @ pk @ to_le_bytes 16 am"

definition near_deterministic_state_init :: bytes where
  "near_deterministic_state_init = [0x0B]"

definition near_delegate :: "bytes \<Rightarrow> bytes \<Rightarrow> bytes" where
  "near_delegate delegate_bytes signature_bytes =
     [0x08] @ to_le_bytes 4 (word_of_nat (length delegate_bytes) :: u32) @ delegate_bytes
     @ to_le_bytes 4 (word_of_nat (length signature_bytes) :: u32) @ signature_bytes"

section \<open>The builder\<close>

record NearTxBuilder =
  nb_signer_id :: string
  nb_public_key :: bytes
  nb_nonce :: u64
  nb_receiver_id :: string
  nb_block_hash :: bytes
  nb_actions :: "bytes list"

definition near_tx_builder_new :: "string \<Rightarrow> bytes \<Rightarrow> u64 \<Rightarrow> string \<Rightarrow> bytes \<Rightarrow> NearTxBuilder" where
  "near_tx_builder_new sid pk n rid h = \<lparr> nb_signer_id = sid, nb_public_key = pk, nb_nonce = n,
     nb_receiver_id = rid, nb_block_hash = h, nb_actions = [] \<rparr>"

definition add_action :: "bytes \<Rightarrow> NearTxBuilder \<Rightarrow> NearTxBuilder" where
  "add_action a b = b \<lparr> nb_actions := nb_actions b @ [a] \<rparr>"

definition builder_serialize_tx :: "NearTxBuilder \<Rightarrow> bytes" where
  "builder_serialize_tx b =
     (let buf1 = borsh_write_string [] (nb_signer_id b) @ [0x01] @ nb_public_key b
            @ to_le_bytes 8 (nb_nonce b);
          buf2 = borsh_write_string buf1 (nb_receiver_id b) @ nb_block_hash b
            @ to_le_bytes 4 (word_of_nat (length (nb_actions b)) :: u32)
      in foldl (@) buf2 (nb_actions b))"

text \<open>
  \<open>sign\<close> is \<open>sign_ecdsa_recoverable\<close> with the secret key followed by
  \<open>serialize_compact\<close>: from the hash to the recovery byte and the 64 compact bytes.
\<close>

definition signed_bytes :: "'e crypto_scheme \<Rightarrow> (bytes \<Rightarrow> u8 \<times> bytes) \<Rightarrow> NearTxBuilder \<Rightarrow> bytes" where
  "signed_bytes C sign b =
     (let tx_bytes = builder_serialize_tx b;
          (rec_id, sig_compact) = sign (sha256 C tx_bytes)
      in tx_bytes @ [0x01] @ sig_compact @ [rec_id])"

definition builder_sign_and_encode ::
  "'e crypto_scheme \<Rightarrow> (bytes \<Rightarrow> u8 \<times> bytes) \<Rightarrow> (bytes \<Rightarrow> string) \<Rightarrow> NearTxBuilder \<Rightarrow> (string, string) result" where
  "builder_sign_and_encode C sign base64 b =
     (if nb_actions b = [] then Err ''Transaction must have at least one action''
      else if length (sha256 C (builder_serialize_tx b)) \<noteq> 32 then Err ''Failed to create message''
      else Ok (base64 (signed_bytes C sign b)))"

definition transfer_sign_and_encode ::
  "'e crypto_scheme \<Rightarrow> (bytes \<Rightarrow> u8 \<times> bytes) \<Rightarrow> (bytes \<Rightarrow> string) \<Rightarrow> string \<Rightarrow> bytes \<Rightarrow> u64 \<Rightarrow> string \<Rightarrow> bytes \<Rightarrow> u128
     \<Rightarrow> (string, string) result" where
  "transfer_sign_and_encode C sign base64 sid pk n rid h deposit =
     builder_sign_and_encode C sign base64 (add_action (near_transfer deposit)
       (near_tx_builder_new sid pk n rid h))"

definition transfer_serialize_tx :: "string \<Rightarrow> bytes \<Rightarrow> u64 \<Rightarrow> string \<Rightarrow> bytes \<Rightarrow> u128 \<Rightarrow> bytes" where
  "transfer_serialize_tx sid pk n rid h deposit =
     borsh_write_string (borsh_write_string [] sid @ [0x01] @ pk @ to_le_bytes 8 n) rid @ h
     @ to_le_bytes 4 (1 :: u32) @ [0x03] @ to_le_bytes 16 deposit"

definition function_call_sign_and_encode ::
  "'e crypto_scheme \<Rightarrow> (bytes \<Rightarrow> u8 \<times> bytes) \<Rightarrow> (bytes \<Rightarrow> string) \<Rightarrow> string \<Rightarrow> bytes \<Rightarrow> u64 \<Rightarrow> string \<Rightarrow> bytes
     \<Rightarrow> string \<Rightarrow> bytes \<Rightarrow> u64 \<Rightarrow> u128 \<Rightarrow> (string, string) result" where
  "function_call_sign_and_encode C sign base64 sid pk n rid h name args gas deposit =
     builder_sign_and_encode C sign base64 (add_action (near_function_call name args gas deposit)
       (near_tx_builder_new sid pk n rid h))"

definition decode_block_hash :: "'e crypto_scheme \<Rightarrow> string \<Rightarrow> (bytes, string) result" where
  "decode_block_hash C s =
     result_bind (ok_or (bs58_decode C s) ''Invalid base58 block hash'') (\<lambda>b.
       if length b \<noteq> 32 then Err (''Block hash must be 32 bytes, got '' @ fmt_dec (length b)) else Ok b)"

section \<open>The bytes are the node's\<close>

lemma write_string: "borsh_write_string buf s = buf @ borsh_string s"
  by (simp add: borsh_write_string_def borsh_string_def borsh_len_def)

lemma foldl_write_string: "foldl borsh_write_string buf names = buf @ concat (map borsh_string names)"
  by (induction names arbitrary: buf) (simp_all add: write_string)

lemma foldl_append: "foldl (@) buf xs = buf @ concat xs"
  by (induction xs arbitrary: buf) simp_all

lemmas near_actions = near_create_account_def near_deploy_contract_def near_function_call_def
  near_transfer_def near_stake_def near_stake_ed25519_def near_add_full_access_key_def
  near_add_function_call_key_def near_delete_key_def near_add_full_access_key_ed25519_def
  near_delete_key_ed25519_def near_delete_account_def near_use_global_contract_by_hash_def
  near_use_global_contract_by_account_def near_transfer_to_gas_key_def near_withdraw_from_gas_key_def

definition builder_tx :: "NearTxBuilder \<Rightarrow> Action list \<Rightarrow> Transaction" where
  "builder_tx b as = TxV0 \<lparr> v0_signer_id = nb_signer_id b, v0_public_key = SECP256K1 (nb_public_key b),
     v0_nonce = nb_nonce b, v0_receiver_id = nb_receiver_id b, v0_block_hash = nb_block_hash b,
     v0_actions = as \<rparr>"

lemma builder_serialize_tx_borsh:
  "nb_actions b = map borsh_action as \<Longrightarrow> builder_serialize_tx b = borsh_transaction (builder_tx b as)"
  by (simp add: builder_serialize_tx_def builder_tx_def borsh_v0_def borsh_vec_def borsh_len_def
      foldl_append write_string Let_def)

lemma signed_bytes_read:
  assumes "nb_actions b = map borsh_action as" "tx_ok C (builder_tx b as)"
    and "sign (sha256 C (builder_serialize_tx b)) = (v, compact)" "length compact = 64"
  shows "read_signed_tx C (signed_bytes C sign b) = Some (signed_tx_new C (SigSECP256K1 (compact @ [v])) (builder_tx b as), [])"
proof -
  let ?sig = "SigSECP256K1 (compact @ [v])"
  have "signed_bytes C sign b = borsh_transaction (builder_tx b as) @ borsh_signature ?sig @ []"
    using assms(3) by (simp add: signed_bytes_def builder_serialize_tx_borsh [OF assms(1)])
  moreover have "sig_ok ?sig" using assms(4) by simp
  ultimately show ?thesis
    using tx_codec.dec_enc [OF assms(2)] read_signature_ok [of ?sig "[]"] by (simp add: read_signed_tx_def)
qed

section \<open>Properties\<close>

text \<open>
  C36: Sixteen of the action constructors of the RPC service write exactly the bytes that the
  node's encoder writes for the action they stand for.
\<close>

theorem near_action_bytes:
  "near_create_account = borsh_action CreateAccount
   \<and> near_deploy_contract code = borsh_action (DeployContract code)
   \<and> near_function_call name args gas deposit = borsh_action (FunctionCall
       \<lparr> method_name = name, fc_args = args, fc_gas = gas, fc_deposit = deposit \<rparr>)
   \<and> near_transfer deposit = borsh_action (Transfer deposit)
   \<and> near_stake deposit pk = borsh_action (Stake deposit (SECP256K1 pk))
   \<and> near_stake_ed25519 deposit pk = borsh_action (Stake deposit (ED25519 pk))
   \<and> near_add_full_access_key pk = borsh_action (AddKey (SECP256K1 pk) full_access)
   \<and> near_add_function_call_key pk allow receiver names = borsh_action (AddKey (SECP256K1 pk)
       \<lparr> ak_nonce = 0, permission = FunctionCallPerm
           \<lparr> allowance = allow, fcp_receiver_id = receiver, method_names = names \<rparr> \<rparr>)
   \<and> near_delete_key pk = borsh_action (DeleteKey (SECP256K1 pk))
   \<and> near_add_full_access_key_ed25519 pk = borsh_action (AddKey (ED25519 pk) full_access)
   \<and> near_delete_key_ed25519 pk = borsh_action (DeleteKey (ED25519 pk))
   \<and> near_delete_account receiver = borsh_action (DeleteAccount receiver)
   \<and> near_use_global_contract_by_hash h = borsh_action (UseGlobalContract (IdCodeHash h))
   \<and> near_use_global_contract_by_account receiver = borsh_action (UseGlobalContract (IdAccountId receiver))
   \<and> near_transfer_to_gas_key pk deposit = borsh_action (TransferToGasKey (SECP256K1 pk) deposit)
   \<and> near_withdraw_from_gas_key pk deposit = borsh_action (WithdrawFromGasKey (SECP256K1 pk) deposit)"
  by (cases allow)
    (simp_all add: near_actions write_string foldl_write_string borsh_bytes_def borsh_len_def
      borsh_function_call_def borsh_access_key_def borsh_fcp_def borsh_vec_def full_access_def Let_def)

text \<open>
  C35: A transaction that the RPC service builds and signs is the transaction the node reads. If
  each action of the builder has the bytes of an action, the service encodes a byte string that
  the node's decoder turns into the signed version 0 transaction with exactly these fields, the
  signature the service made, and as its hash the message that was signed.
\<close>

theorem built_tx_is_read:
  assumes "nb_actions b = map borsh_action as" "as \<noteq> []" "tx_ok C (builder_tx b as)" "digest_sizes C"
    and "sign (sha256 C (builder_serialize_tx b)) = (v, compact)" "length compact = 64"
  shows "builder_sign_and_encode C sign base64 b = Ok (base64 (signed_bytes C sign b))
    \<and> read_signed_tx C (signed_bytes C sign b)
      = Some (signed_tx_new C (SigSECP256K1 (compact @ [v])) (builder_tx b as), [])
    \<and> st_hash (signed_tx_new C (SigSECP256K1 (compact @ [v])) (builder_tx b as))
      = sha256 C (builder_serialize_tx b)"
  using signed_bytes_read [where sign = sign, OF assms(1,3,5,6)] builder_serialize_tx_borsh [OF assms(1)] assms(1,2,4)
  by (simp add: builder_sign_and_encode_def digest_sizes_def signed_tx_new_def get_hash_and_size_def Let_def)

definition bw_builder :: NearTxBuilder where
  "bw_builder = add_action (near_transfer 5)
     (near_tx_builder_new ''alice'' (replicate 64 7) 3 ''bob'' (replicate 32 2))"

theorem built_tx_is_read_witness:
  "read_signed_tx toy_crypto (signed_bytes toy_crypto (\<lambda>_. (0, replicate 64 9)) bw_builder)
     = Some (signed_tx_new toy_crypto (SigSECP256K1 (replicate 64 9 @ [0]))
         (builder_tx bw_builder [Transfer 5]), [])"
proof -
  have a: "nb_actions bw_builder = map borsh_action [Transfer 5]"
    by (simp add: bw_builder_def add_action_def near_tx_builder_new_def near_transfer_def)
  have t: "tx_ok toy_crypto (builder_tx bw_builder [Transfer 5])"
    using bw_names
    by (simp add: tx_ok_def builder_tx_def bw_builder_def add_action_def near_tx_builder_new_def)
  show ?thesis
    using built_tx_is_read [OF a _ t toy_digest_sizes, of "\<lambda>_. (0, replicate 64 9)" 0 "replicate 64 9"]
    by simp
qed

lemma rotate_zero: "0 # xs = xs @ [0] \<Longrightarrow> list_all (\<lambda>x. x = 0) xs"
  by (induction xs) auto

lemma nat_of_le_zeros: "list_all (\<lambda>x. x = 0) b \<Longrightarrow> nat_of_le b = 0"
  by (induction b) auto

lemma borsh_len_zeros: "n < 2 ^ 32 \<Longrightarrow> list_all (\<lambda>x. x = 0) (borsh_len n) \<Longrightarrow> n = 0"
  using from_le_borsh_len [of n] unat_word_of_nat [of n, where 'a = 32]
  by (simp add: from_le_bytes_def nat_of_le_zeros)



end
