(* ===== verification/Validate_Actions.thy ===== *)
theory Validate_Actions
  imports Borsh_Tx Fees
begin

text \<open>
  Stateless validation of transactions: \<open>validate_actions\<close> and its helpers of
  \<open>runtime/runtime/src/verifier.rs\<close>, and \<open>ValidatedTransaction\<close> of
  \<open>core/primitives/src/transaction.rs\<close>. The actions of a delegate action are validated
  by the same function, so the loop and the validator of one action are mutually recursive.
\<close>

section \<open>Single actions\<close>

definition require_protocol_feature ::
  "ProtocolFeature \<Rightarrow> string \<Rightarrow> ProtocolVersion \<Rightarrow> (unit, ActionsValidationError) result" where
  "require_protocol_feature f name pv =
     (if \<not> feature_enabled f pv then Err (UnsupportedProtocolFeature name pv) else Ok ())"

definition validate_action_account_id :: "'e crypto_scheme \<Rightarrow> AccountId \<Rightarrow> (unit, ActionsValidationError) result" where
  "validate_action_account_id C a = map_err (\<lambda>_. InvalidAccountId a) (validate C a)"

fun validate_global_contract_identifier ::
  "'e crypto_scheme \<Rightarrow> GlobalContractIdentifier \<Rightarrow> (unit, ActionsValidationError) result" where
  "validate_global_contract_identifier C (IdAccountId a) = validate_action_account_id C a"
| "validate_global_contract_identifier C (IdCodeHash _) = Ok ()"

definition validate_deploy_contract_action :: "LimitConfig \<Rightarrow> bytes \<Rightarrow> (unit, ActionsValidationError) result" where
  "validate_deploy_contract_action lc code =
     (if word_of_nat (length code) > max_contract_size lc
      then Err (ContractSizeExceeded (word_of_nat (length code)) (max_contract_size lc)) else Ok ())"

definition validate_deploy_global_contract_action :: "LimitConfig \<Rightarrow> bytes \<Rightarrow> (unit, ActionsValidationError) result" where
  "validate_deploy_global_contract_action lc code =
     (if word_of_nat (length code) > max_contract_size lc
      then Err (ContractSizeExceeded (word_of_nat (length code)) (max_contract_size lc)) else Ok ())"

definition validate_function_call_action ::
  "LimitConfig \<Rightarrow> FunctionCallAction \<Rightarrow> (unit, ActionsValidationError) result" where
  "validate_function_call_action lc a =
     (if fc_gas a = 0 then Err FunctionCallZeroAttachedGas
      else if word_of_nat (length (method_name a)) > max_length_method_name lc
      then Err (FunctionCallMethodNameLengthExceeded (word_of_nat (length (method_name a)))
                  (max_length_method_name lc))
      else if word_of_nat (length (fc_args a)) > max_arguments_length lc
      then Err (FunctionCallArgumentsLengthExceeded (word_of_nat (length (fc_args a)))
                  (max_arguments_length lc))
      else Ok ())"

fun is_valid_staking_key :: "'e crypto_scheme \<Rightarrow> PublicKey \<Rightarrow> bool" where
  "is_valid_staking_key C (ED25519 k) = torsion_free_point C k"
| "is_valid_staking_key C (SECP256K1 _) = False"

definition validate_stake_action :: "'e crypto_scheme \<Rightarrow> PublicKey \<Rightarrow> (unit, ActionsValidationError) result" where
  "validate_stake_action C pk =
     (if \<not> is_valid_staking_key C pk then Err (UnsuitableStakingKey pk) else Ok ())"

text \<open>\<open>str::get(..i)\<close> succeeds at character boundaries; the loop takes the longest one.\<close>

definition char_boundary :: "string \<Rightarrow> nat \<Rightarrow> bool" where
  "char_boundary s i \<longleftrightarrow> i = 0 \<or> i = length s \<or> i < length s \<and> \<not> cont_byte (of_char (s ! i))"

fun truncate_string :: "string \<Rightarrow> nat \<Rightarrow> string" where
  "truncate_string s 0 = []"
| "truncate_string s (Suc i) = (if char_boundary s (Suc i) then take (Suc i) s else truncate_string s i)"

fun check_method_names ::
  "LimitConfig \<Rightarrow> string list \<Rightarrow> u64 \<Rightarrow> (u64, ActionsValidationError) result" where
  "check_method_names lc [] tot = Ok tot"
| "check_method_names lc (m # ms) tot =
     (let len = word_of_nat (length m) in
      if len > max_length_method_name lc
      then Err (AddKeyMethodNameLengthExceeded len (max_length_method_name lc))
      else check_method_names lc ms (tot + (len + 1)))"

definition validate_access_key_permission ::
  "'e crypto_scheme \<Rightarrow> LimitConfig \<Rightarrow> AccessKeyPermission \<Rightarrow> (unit, ActionsValidationError) result" where
  "validate_access_key_permission C lc p =
     (case function_call_permission p of
        None \<Rightarrow> Ok ()
      | Some fc \<Rightarrow>
          if account_id_validity_rules_version lc \<noteq> RulesV0 \<and> \<not> is_ok (account_id_new C (fcp_receiver_id fc))
          then Err (InvalidAccountId (truncate_string (fcp_receiver_id fc) (MAX_LEN * 2)))
          else result_bind (check_method_names lc (method_names fc) 0) (\<lambda>tot.
            if tot > max_number_bytes_method_names lc
            then Err (AddKeyMethodNamesNumberOfBytesExceeded tot (max_number_bytes_method_names lc))
            else Ok ()))"

definition validate_add_key_action ::
  "'e crypto_scheme \<Rightarrow> LimitConfig \<Rightarrow> AccessKey \<Rightarrow> ProtocolVersion \<Rightarrow> (unit, ActionsValidationError) result" where
  "validate_add_key_action C lc k pv =
     result_bind (validate_access_key_permission C lc (permission k)) (\<lambda>_.
       case gas_key_info k of
         None \<Rightarrow> Ok ()
       | Some g \<Rightarrow>
           result_bind (require_protocol_feature GasKeys ''GasKeys'' pv) (\<lambda>_.
             if Option.bind (function_call_permission (permission k)) allowance \<noteq> None
             then Err GasKeyFunctionCallAllowanceNotAllowed
             else if num_nonces g = 0 \<or> num_nonces g > MAX_NONCES_FOR_GAS_KEY
             then Err (GasKeyInvalidNumNonces (num_nonces g) MAX_NONCES_FOR_GAS_KEY)
             else if gk_balance g \<noteq> 0 then Err (AddGasKeyWithNonZeroBalance (gk_balance g))
             else Ok ()))"

definition hex_digit :: "nat \<Rightarrow> char" where
  "hex_digit n = ''0123456789abcdef'' ! n"

definition hex_encode :: "bytes \<Rightarrow> string" where
  "hex_encode b = concat (map (\<lambda>x. [hex_digit (unat x div 16), hex_digit (unat x mod 16)]) b)"

definition derive_near_deterministic_account_id ::
  "'e crypto_scheme \<Rightarrow> DeterministicAccountStateInit \<Rightarrow> AccountId" where
  "derive_near_deterministic_account_id C si =
     ''0s'' @ hex_encode (take 20 (drop 12 (keccak256 C (borsh_state_init si))))"

fun check_state_entries ::
  "LimitConfig \<Rightarrow> (bytes \<times> bytes) list \<Rightarrow> (unit, ActionsValidationError) result" where
  "check_state_entries lc [] = Ok ()"
| "check_state_entries lc ((k, v) # es) =
     (if word_of_nat (length k) > max_length_storage_key lc
      then Err (DeterministicStateInitKeyLengthExceeded (word_of_nat (length k)) (max_length_storage_key lc))
      else if word_of_nat (length v) > max_length_storage_value lc
      then Err (DeterministicStateInitValueLengthExceeded (word_of_nat (length v)) (max_length_storage_value lc))
      else check_state_entries lc es)"

definition validate_deterministic_state_init ::
  "'e crypto_scheme \<Rightarrow> LimitConfig \<Rightarrow> DeterministicAccountStateInit \<Rightarrow> AccountId \<Rightarrow> ProtocolVersion
     \<Rightarrow> (unit, ActionsValidationError) result" where
  "validate_deterministic_state_init C lc si receiver_id pv =
     result_bind (require_protocol_feature DeterministicAccountIds ''DeterministicAccountIds'' pv) (\<lambda>_.
     result_bind (validate_global_contract_identifier C (si_code si)) (\<lambda>_.
       let derived_id = derive_near_deterministic_account_id C si in
       if derived_id \<noteq> receiver_id
       then Err (InvalidDeterministicStateInitReceiver derived_id receiver_id)
       else check_state_entries lc (si_data si)))"

section \<open>Lists of actions\<close>

fun is_delete_account :: "Action \<Rightarrow> bool" where
  "is_delete_account (DeleteAccount _) = True"
| "is_delete_account _ = False"

text \<open>The checks of \<open>validate_actions\<close> before and after its loop, whose result is \<open>loop\<close>.\<close>

definition with_action_limits ::
  "LimitConfig \<Rightarrow> Action list \<Rightarrow> (unit, ActionsValidationError) result \<Rightarrow> (unit, ActionsValidationError) result" where
  "with_action_limits lc actions loop =
     (if word_of_nat (length actions) > max_actions_per_receipt lc
      then Err (TotalNumberOfActionsExceeded (word_of_nat (length actions)) (max_actions_per_receipt lc))
      else result_bind loop (\<lambda>_.
           result_bind (map_err (\<lambda>_. IntegerOverflow) (total_prepaid_gas actions 0)) (\<lambda>tot.
             if tot > max_total_prepaid_gas lc
             then Err (TotalPrepaidGasExceeded tot (max_total_prepaid_gas lc)) else Ok ())))"

fun validate_loop ::
  "'e crypto_scheme \<Rightarrow> LimitConfig \<Rightarrow> AccountId \<Rightarrow> ProtocolVersion \<Rightarrow> bool \<Rightarrow> Action list
     \<Rightarrow> (unit, ActionsValidationError) result"
and validate_action ::
  "'e crypto_scheme \<Rightarrow> LimitConfig \<Rightarrow> AccountId \<Rightarrow> ProtocolVersion \<Rightarrow> Action
     \<Rightarrow> (unit, ActionsValidationError) result"
where
  "validate_loop C lc rcv pv found [] = Ok ()"
| "validate_loop C lc rcv pv found (a # as) =
     (if is_delete_account a \<and> as \<noteq> [] then Err DeleteActionMustBeFinal
      else if \<not> non_delegate a \<and> found then Err DelegateActionMustBeOnlyOne
      else result_bind (validate_action C lc rcv pv a)
             (\<lambda>_. validate_loop C lc rcv pv (found \<or> \<not> non_delegate a) as))"
| "validate_action C lc rcv pv CreateAccount = Ok ()"
| "validate_action C lc rcv pv (DeployContract code) = validate_deploy_contract_action lc code"
| "validate_action C lc rcv pv (DeployGlobalContract code _) = validate_deploy_global_contract_action lc code"
| "validate_action C lc rcv pv (UseGlobalContract c) = validate_global_contract_identifier C c"
| "validate_action C lc rcv pv (FunctionCall a) = validate_function_call_action lc a"
| "validate_action C lc rcv pv (Transfer _) = Ok ()"
| "validate_action C lc rcv pv (Stake _ pk) = validate_stake_action C pk"
| "validate_action C lc rcv pv (AddKey _ k) = validate_add_key_action C lc k pv"
| "validate_action C lc rcv pv (DeleteKey _) = Ok ()"
| "validate_action C lc rcv pv (DeleteAccount b) = validate_action_account_id C b"
| "validate_action C lc rcv pv (Delegate (DelegateAction s r as n h pk) sig) =
     with_action_limits lc as (validate_loop C lc rcv pv False as)"
| "validate_action C lc rcv pv (DeterministicStateInit si _) = validate_deterministic_state_init C lc si rcv pv"
| "validate_action C lc rcv pv (TransferToGasKey _ _) = require_protocol_feature GasKeys ''GasKeys'' pv"
| "validate_action C lc rcv pv (WithdrawFromGasKey _ _) = require_protocol_feature GasKeys ''GasKeys'' pv"

definition validate_actions ::
  "'e crypto_scheme \<Rightarrow> LimitConfig \<Rightarrow> Action list \<Rightarrow> AccountId \<Rightarrow> ProtocolVersion
     \<Rightarrow> (unit, ActionsValidationError) result" where
  "validate_actions C lc actions rcv pv =
     with_action_limits lc actions (validate_loop C lc rcv pv False actions)"

section \<open>Transactions\<close>

definition validate_transaction_actions ::
  "'e crypto_scheme \<Rightarrow> RuntimeConfig \<Rightarrow> SignedTransaction \<Rightarrow> ProtocolVersion \<Rightarrow> (unit, InvalidTxError) result" where
  "validate_transaction_actions C config t pv =
     map_err ActionsValidation (validate_actions C (limit_config config) (tx_actions (st_transaction t))
       (tx_receiver_id (st_transaction t)) pv)"

definition check_valid_for_config ::
  "RuntimeConfig \<Rightarrow> SignedTransaction \<Rightarrow> ProtocolVersion \<Rightarrow> (unit, InvalidTxError) result" where
  "check_valid_for_config config t pv =
     (if \<not> feature_enabled GasKeys pv \<and> is_v1 (st_transaction t) then Err InvalidTransactionVersion
      else if st_size t > max_transaction_size (limit_config config)
      then Err (TransactionSizeExceeded (st_size t) (max_transaction_size (limit_config config)))
      else Ok ())"

definition validated_transaction_new ::
  "'e crypto_scheme \<Rightarrow> RuntimeConfig \<Rightarrow> SignedTransaction \<Rightarrow> ProtocolVersion
     \<Rightarrow> (SignedTransaction, InvalidTxError \<times> SignedTransaction) result" where
  "validated_transaction_new C config t pv =
     (case check_valid_for_config config t pv of
        Err e \<Rightarrow> Err (e, t)
      | Ok _ \<Rightarrow>
          if \<not> signature_verify C (st_signature t) (st_hash t) (tx_public_key (st_transaction t))
          then Err (InvalidSignature, t) else Ok t)"

definition validate_transaction ::
  "'e crypto_scheme \<Rightarrow> RuntimeConfig \<Rightarrow> SignedTransaction \<Rightarrow> ProtocolVersion
     \<Rightarrow> (SignedTransaction, InvalidTxError \<times> SignedTransaction) result" where
  "validate_transaction C config t pv =
     (case validate_transaction_actions C config t pv of
        Err e \<Rightarrow> Err (e, t)
      | Ok _ \<Rightarrow> validated_transaction_new C config t pv)"

definition validate_transaction_well_formed ::
  "'e crypto_scheme \<Rightarrow> RuntimeConfig \<Rightarrow> SignedTransaction \<Rightarrow> ProtocolVersion \<Rightarrow> (unit, InvalidTxError) result" where
  "validate_transaction_well_formed C config t pv =
     result_bind (validate_transaction_actions C config t pv) (\<lambda>_. check_valid_for_config config t pv)"

section \<open>The shape of valid lists\<close>

definition delegates :: "Action list \<Rightarrow> nat" where
  "delegates as = length (filter (\<lambda>a. \<not> non_delegate a) as)"

lemma delegates_simps [simp]:
  "delegates [] = 0" "delegates (a # as) = (if non_delegate a then 0 else 1) + delegates as"
  by (simp_all add: delegates_def)

lemma validate_loop_Ok:
  "validate_loop C lc rcv pv found as = Ok ()
     \<longleftrightarrow> (\<forall>a \<in> set (butlast as). \<not> is_delete_account a)
       \<and> (if found then 1 else 0) + delegates as \<le> 1
       \<and> (\<forall>a \<in> set as. validate_action C lc rcv pv a = Ok ())"
proof (induction as arbitrary: found)
  case (Cons a as)
  then show ?case by (cases as) (auto simp: result_simps)
qed simp

lemma with_action_limits_Ok:
  "with_action_limits lc as loop = Ok () \<longleftrightarrow> word_of_nat (length as) \<le> max_actions_per_receipt lc
     \<and> loop = Ok () \<and> prepaid_gas_sum as \<le> unat (max_total_prepaid_gas lc)"
proof -
  have "(\<exists>t. total_prepaid_gas as 0 = Ok t \<and> \<not> max_total_prepaid_gas lc < t)
      \<longleftrightarrow> prepaid_gas_sum as \<le> unat (max_total_prepaid_gas lc)"
  proof
    assume le: "prepaid_gas_sum as \<le> unat (max_total_prepaid_gas lc)"
    then have "prepaid_gas_sum as < 2 ^ LENGTH(64)"
      using unat_bound [of "max_total_prepaid_gas lc"] by simp
    then have "unat (word_of_nat (prepaid_gas_sum as) :: u64) = prepaid_gas_sum as"
      by (rule unat_word_of_nat)
    then show "\<exists>t. total_prepaid_gas as 0 = Ok t \<and> \<not> max_total_prepaid_gas lc < t"
      using le by (intro exI [of _ "word_of_nat (prepaid_gas_sum as)"])
        (simp add: total_prepaid_gas_iff word_less_nat_alt)
  qed (auto simp: total_prepaid_gas_iff word_less_nat_alt)
  then show ?thesis
    by (auto simp: with_action_limits_def result_simps split: if_splits)
qed

section \<open>Properties\<close>

definition actions_valid :: "'e crypto_scheme \<Rightarrow> LimitConfig \<Rightarrow> Action list \<Rightarrow> AccountId \<Rightarrow> ProtocolVersion \<Rightarrow> bool" where
  "actions_valid C lc as rcv pv \<longleftrightarrow>
     word_of_nat (length as) \<le> max_actions_per_receipt lc
     \<and> (\<forall>a \<in> set (butlast as). \<not> is_delete_account a) \<and> delegates as \<le> 1
     \<and> (\<forall>a \<in> set as. validate_action C lc rcv pv a = Ok ())
     \<and> prepaid_gas_sum as \<le> unat (max_total_prepaid_gas lc)"

lemma validate_actions_Ok: "validate_actions C lc as rcv pv = Ok () \<longleftrightarrow> actions_valid C lc as rcv pv"
  by (auto simp: validate_actions_def with_action_limits_Ok validate_loop_Ok actions_valid_def)


definition vw_tx :: SignedTransaction where
  "vw_tx = signed_tx_new toy_crypto (SigSECP256K1 (replicate 64 7 @ [0])) (TxV0
     \<lparr> v0_signer_id = ''alice'', v0_public_key = SECP256K1 (replicate 64 7), v0_nonce = 1,
        v0_receiver_id = ''bob'', v0_block_hash = replicate 32 2, v0_actions = [Transfer 5] \<rparr>)"


end
