(* ===== verification/Process_Tx.thy ===== *)
theory Process_Tx
  imports Verifier Validate_Actions
begin

text \<open>
  \<open>Runtime::process_transactions\<close> of \<open>runtime/runtime/src/lib.rs\<close>: the loop that turns the
  transactions of a chunk into receipts. The accounts, access keys and gas-key nonces of the
  signers are prefetched into caches that the loop updates next to the trie; here a cache is a
  function that is first read from the trie. A transaction that fails leaves an outcome; a
  storage error or an overflow aborts the chunk. Receipts for other accounts go to the
  receipt sink, whose congestion control is not modelled: they are collected in order.
\<close>

section \<open>Receipt identifiers\<close>

definition create_hash_index :: "'e crypto_scheme \<Rightarrow> CryptoHash \<Rightarrow> BlockHeight \<Rightarrow> u64 \<Rightarrow> CryptoHash" where
  "create_hash_index C base block_height salt =
     sha256 C (base @ to_le_bytes 8 block_height @ to_le_bytes 8 salt)"

definition create_receipt_id_from_transaction :: "'e crypto_scheme \<Rightarrow> CryptoHash \<Rightarrow> BlockHeight \<Rightarrow> CryptoHash" where
  "create_receipt_id_from_transaction C tx_hash block_height = create_hash_index C tx_hash block_height 0"

section \<open>State\<close>

record ApplyState =
  as_block_height :: BlockHeight
  as_prev_block_hash :: CryptoHash
  as_shard_id :: ShardId
  as_epoch_height :: EpochHeight
  as_gas_price :: Balance
  as_protocol_version :: ProtocolVersion
  as_config :: RuntimeConfig

record ProcState =
  ps_trie :: TrieUpdate
  ps_accounts :: "AccountId \<Rightarrow> (Account option, StorageError) result"
  ps_access_keys :: "AccountId \<times> PublicKey \<Rightarrow> (AccessKey option, StorageError) result"
  ps_gas_key_nonces :: "AccountId \<times> PublicKey \<times> NonceIndex \<Rightarrow> (Nonce option, StorageError) result"
  ps_outcomes :: "ExecutionOutcomeWithId list"
  ps_local_receipts :: "Receipt list"
  ps_forwarded :: "Receipt list"
  ps_tx_burnt_amount :: Balance
  ps_total_gas :: u64
  ps_total_compute :: u64

definition prefetch :: "TrieUpdate \<Rightarrow> ProcState \<Rightarrow> ProcState" where
  "prefetch s ps = ps \<lparr> ps_trie := s, ps_accounts := get_account s,
     ps_access_keys := (\<lambda>(a, pk). get_access_key s a pk),
     ps_gas_key_nonces := (\<lambda>(a, pk, i). get_gas_key_nonce s a pk i) \<rparr>"

definition register_outcome :: "ProtocolVersion \<Rightarrow> ExecutionOutcomeWithId \<Rightarrow> ProcState \<Rightarrow> ProcState" where
  "register_outcome pv outcome ps =
     (if feature_enabled InvalidTxGenerateOutcomes pv then ps \<lparr> ps_outcomes := ps_outcomes ps @ [outcome] \<rparr>
      else case eo_status outcome of
        StatusSuccessReceiptId _ \<Rightarrow> ps \<lparr> ps_outcomes := ps_outcomes ps @ [outcome] \<rparr>
      | _ \<Rightarrow> ps)"

definition tx_failed :: "ApplyState \<Rightarrow> SignedTransaction \<Rightarrow> InvalidTxError \<Rightarrow> ProcState \<Rightarrow> ProcState" where
  "tx_failed st t e ps = register_outcome (as_protocol_version st) (failed_outcome t e) ps"

section \<open>The access key of the signer\<close>

text \<open>First attempt: a Bitcoin signer without a cached key is registered before the lookup.\<close>

definition recover_key ::
  "'e crypto_scheme \<Rightarrow> ApplyState \<Rightarrow> SignedTransaction \<Rightarrow> ProcState \<Rightarrow> (ProcState, RuntimeError) result" where
  "recover_key C st t ps =
     (let tx = st_transaction t; sid = tx_signer_id tx; pk = tx_public_key tx in
      if is_bitcoin_address C sid \<and> ps_access_keys ps (sid, pk) = Ok None then
        (case maybe_auto_register_bitcoin_access_key C sid pk (st_signature t) (st_hash t)
                (as_block_height st) (nonce_of (tx_nonce tx)) (ps_trie ps) of
           None \<Rightarrow> Err (RuntimePanic ''nonce floor'')
         | Some (s', Ok True) \<Rightarrow>
             result_bind (map_err RStorageError (get_access_key s' sid pk)) (\<lambda>k.
               Ok (ps \<lparr> ps_trie := s', ps_access_keys := (ps_access_keys ps)((sid, pk) := Ok k) \<rparr>))
         | Some (s', _) \<Rightarrow> Ok (ps \<lparr> ps_trie := s' \<rparr>))
      else Ok ps)"

text \<open>The lookup, with a second attempt when the key is still missing; no key means a failed outcome.\<close>

definition lookup_key ::
  "'e crypto_scheme \<Rightarrow> ApplyState \<Rightarrow> SignedTransaction \<Rightarrow> ProcState
     \<Rightarrow> (ProcState \<times> AccessKey option, RuntimeError) result" where
  "lookup_key C st t ps =
     (let tx = st_transaction t; sid = tx_signer_id tx; pk = tx_public_key tx;
          not_found = InvalidAccessKey (AccessKeyNotFound sid pk) in
      case ps_access_keys ps (sid, pk) of
        Err e \<Rightarrow> Err (RStorageError e)
      | Ok (Some k) \<Rightarrow> Ok (ps, Some k)
      | Ok None \<Rightarrow>
          if is_bitcoin_address C sid then
            (case maybe_auto_register_bitcoin_access_key C sid pk (st_signature t) (st_hash t)
                    (as_block_height st) (nonce_of (tx_nonce tx)) (ps_trie ps) of
               None \<Rightarrow> Err (RuntimePanic ''nonce floor'')
             | Some (s', Ok True) \<Rightarrow>
                 result_bind (map_err RStorageError (get_access_key s' sid pk)) (\<lambda>reloaded.
                   let ps' = ps \<lparr> ps_trie := s',
                               ps_access_keys := (ps_access_keys ps)((sid, pk) := Ok reloaded) \<rparr> in
                   case reloaded of
                     Some k \<Rightarrow> Ok (ps', Some k)
                   | None \<Rightarrow> Ok (tx_failed st t not_found ps', None))
             | Some (s', Ok False) \<Rightarrow> Ok (tx_failed st t not_found (ps \<lparr> ps_trie := s' \<rparr>), None)
             | Some (s', Err e) \<Rightarrow> Ok (tx_failed st t e (ps \<lparr> ps_trie := s' \<rparr>), None))
          else Ok (tx_failed st t not_found ps, None))"

text \<open>The verdict, by the kind of nonce; \<open>None\<close> when an outcome was registered instead.\<close>

definition tx_verdict ::
  "ApplyState \<Rightarrow> SignedTransaction \<Rightarrow> TransactionCost \<Rightarrow> Account \<Rightarrow> AccessKey \<Rightarrow> ProcState
     \<Rightarrow> (ProcState \<times> (AccessKey \<times> TxVerdict) option, RuntimeError) result" where
  "tx_verdict st t cost account k ps =
     (let tx = st_transaction t; sid = tx_signer_id tx; pk = tx_public_key tx in
      case nonce_index_of (tx_nonce tx) of
        Some i \<Rightarrow>
          (case ps_gas_key_nonces ps (sid, pk, i) of
             Err e \<Rightarrow> Err (RStorageError e)
           | Ok None \<Rightarrow>
               Ok (tx_failed st t (InvalidNonceIndex (Some i)
                     (case gas_key_info k of Some g \<Rightarrow> num_nonces g | None \<Rightarrow> 0)) ps, None)
           | Ok (Some current_nonce) \<Rightarrow>
               (case verify_and_charge_gas_key_tx_ephemeral (as_config st) account k current_nonce tx cost
                       (Some (as_block_height st)) of
                  None \<Rightarrow> Err (RuntimePanic ''non-gas key transaction'')
                | Some v \<Rightarrow> Ok (ps, Some (k, v))))
      | None \<Rightarrow>
          (case verify_and_charge_tx_ephemeral (as_config st) account k tx cost
                  (Some (as_block_height st)) (as_protocol_version st) of
             None \<Rightarrow> Err (RuntimePanic ''gas key transaction'')
           | Some kv \<Rightarrow> Ok (ps, Some kv)))"

section \<open>One transaction\<close>

text \<open>The Patoshi guard: an error rejects the transaction, an accepted trigger schedules the unlock.\<close>

definition patoshi_guard ::
  "ApplyState \<Rightarrow> SignedTransaction \<Rightarrow> Account \<Rightarrow> VerificationResult \<Rightarrow> ProcState
     \<Rightarrow> (ProcState \<times> InvalidTxError option, RuntimeError) result" where
  "patoshi_guard st t account r ps =
     (let tx = st_transaction t; sid = tx_signer_id tx in
      result_bind (map_err RStorageError (get_patoshi_record (ps_trie ps) sid)) (\<lambda>rec.
      case rec of
        None \<Rightarrow> Ok (ps, None)
      | Some record \<Rightarrow>
          result_bind (ok_or (checked_add (new_account_amount r) (locked account)) overflow_error)
            (\<lambda>post_tx_total_balance.
            case validate_locked_patoshi_transaction sid (tx_receiver_id tx) (tx_actions tx)
                   post_tx_total_balance (as_epoch_height st) (as_protocol_version st) record of
              Err e \<Rightarrow> Ok (ps, Some e)
            | Ok _ \<Rightarrow>
                (case maybe_schedule_patoshi_unlock record (tx_receiver_id tx) (tx_actions tx)
                        (as_epoch_height st) of
                   (record', Some _) \<Rightarrow>
                     Ok (ps \<lparr> ps_trie := set_patoshi_record sid record' (ps_trie ps) \<rparr>, None)
                 | (_, None) \<Rightarrow> Ok (ps, None)))))"

definition tx_receipt :: "'e crypto_scheme \<Rightarrow> ApplyState \<Rightarrow> SignedTransaction \<Rightarrow> VerificationResult \<Rightarrow> Receipt" where
  "tx_receipt C st t r =
     (let tx = st_transaction t in
      receipt_from_tx (create_receipt_id_from_transaction C (st_hash t) (as_block_height st))
        (tx_signer_id tx) (tx_receiver_id tx) (tx_public_key tx) (vr_receipt_gas_price r) (tx_actions tx))"

definition emit_receipt :: "AccountId \<Rightarrow> Receipt \<Rightarrow> ProcState \<Rightarrow> ProcState" where
  "emit_receipt sid receipt ps =
     (if r_receiver_id receipt = sid
      then ps \<lparr> ps_local_receipts := ps_local_receipts ps @ [receipt] \<rparr>
      else ps \<lparr> ps_forwarded := ps_forwarded ps @ [receipt] \<rparr>)"

definition success_outcome :: "SignedTransaction \<Rightarrow> VerificationResult \<Rightarrow> Receipt \<Rightarrow> ExecutionOutcomeWithId" where
  "success_outcome t r receipt =
     \<lparr> eo_id = st_hash t, eo_logs = [], eo_receipt_ids = [r_receipt_id receipt],
       eo_gas_burnt = vr_gas_burnt r, eo_compute_usage = Some (vr_gas_burnt r),
       eo_tokens_burnt = vr_burnt_amount r, eo_executor_id = tx_signer_id (st_transaction t),
       eo_status = StatusSuccessReceiptId (r_receipt_id receipt) \<rparr>"

text \<open>The end of an iteration: statistics, then the charge on the account, the nonce and the key.\<close>

definition finish_tx ::
  "SignedTransaction \<Rightarrow> Account \<Rightarrow> AccessKey \<Rightarrow> VerificationResult \<Rightarrow> ExecutionOutcomeWithId \<Rightarrow> ProcState
     \<Rightarrow> (ProcState, RuntimeError) result" where
  "finish_tx t account k r outcome ps =
     (let tx = st_transaction t; sid = tx_signer_id tx; pk = tx_public_key tx in
      case safe_add_balance (ps_tx_burnt_amount ps) (eo_tokens_burnt outcome) of
        Err _ \<Rightarrow> Ok ps
      | Ok new_burnt \<Rightarrow>
          (case eo_compute_usage outcome of
             None \<Rightarrow> Err (RuntimePanic ''compute usage'')
           | Some compute \<Rightarrow>
               result_bind (ok_or (checked_add (ps_total_gas ps) (eo_gas_burnt outcome)) overflow_error) (\<lambda>gas.
               result_bind (ok_or (checked_add (ps_total_compute ps) compute) overflow_error) (\<lambda>comp.
               case vr_apply r account k of
                 None \<Rightarrow> Err (RuntimePanic ''apply'')
               | Some (account', k') \<Rightarrow>
                   (let s1 = set_account sid account' (ps_trie ps);
                        (s2, nonces) = (case gas_key_nonce_update r of
                           None \<Rightarrow> (s1, ps_gas_key_nonces ps)
                         | Some (i, n) \<Rightarrow> (set_gas_key_nonce sid pk i n s1,
                             (ps_gas_key_nonces ps)((sid, pk, i) := Ok (Some n))));
                        s3 = set_access_key sid pk k' s2
                    in Ok (ps \<lparr> ps_trie := s3, ps_accounts := (ps_accounts ps)(sid := Ok (Some account')),
                         ps_access_keys := (ps_access_keys ps)((sid, pk) := Ok (Some k')),
                         ps_gas_key_nonces := nonces, ps_outcomes := ps_outcomes ps @ [outcome],
                         ps_tx_burnt_amount := new_burnt, ps_total_gas := gas, ps_total_compute := comp \<rparr>))))))"

definition settle_tx ::
  "'e crypto_scheme \<Rightarrow> ApplyState \<Rightarrow> SignedTransaction \<Rightarrow> TransactionCost \<Rightarrow> Account \<Rightarrow> AccessKey \<Rightarrow> TxVerdict
     \<Rightarrow> ProcState \<Rightarrow> (ProcState, RuntimeError) result" where
  "settle_tx C st t cost account k verdict ps =
     (case verdict of
        Failed e \<Rightarrow> Ok (tx_failed st t e ps)
      | DepositFailed r e \<Rightarrow>
          result_bind (ok_or (checked_add (gas_burnt cost) (gas_remaining cost)) overflow_error) (\<lambda>total_gas.
            finish_tx t account k r (failed_with_gas_burnt t e total_gas (gas_cost cost)) ps)
      | Success r \<Rightarrow>
          result_bind (patoshi_guard st t account r ps) (\<lambda>(ps1, rejected).
            case rejected of
              Some e \<Rightarrow> Ok (tx_failed st t e ps1)
            | None \<Rightarrow>
                (let receipt = tx_receipt C st t r in
                 finish_tx t account k r (success_outcome t r receipt)
                   (emit_receipt (tx_signer_id (st_transaction t)) receipt ps1))))"

definition process_transaction ::
  "'e crypto_scheme \<Rightarrow> ApplyState \<Rightarrow> SignedTransaction \<Rightarrow> InvalidTxError option \<Rightarrow> ProcState
     \<Rightarrow> (ProcState, RuntimeError) result" where
  "process_transaction C st t invalid ps =
     (let tx = st_transaction t; sid = tx_signer_id tx in
      case invalid of
        Some e \<Rightarrow> Ok (tx_failed st t e ps)
      | None \<Rightarrow>
          (case calculate_tx_cost C (tx_receiver_id tx) sid (tx_actions tx) (as_config st) (as_gas_price st) of
             Err IntegerOverflowError \<Rightarrow> Ok (tx_failed st t CostOverflow ps)
           | Err FeePanic \<Rightarrow> Err (RuntimePanic ''fees'')
           | Ok cost \<Rightarrow>
               (case ps_accounts ps sid of
                  Err e \<Rightarrow> Err (RStorageError e)
                | Ok None \<Rightarrow> Ok (tx_failed st t (InvalidSignerId sid) ps)
                | Ok (Some account) \<Rightarrow>
                    result_bind (recover_key C st t ps) (\<lambda>ps1.
                    result_bind (lookup_key C st t ps1) (\<lambda>(ps2, key).
                    case key of
                      None \<Rightarrow> Ok ps2
                    | Some k \<Rightarrow>
                        result_bind (tx_verdict st t cost account k ps2) (\<lambda>(ps3, kv).
                        case kv of
                          None \<Rightarrow> Ok ps3
                        | Some (k1, verdict) \<Rightarrow> settle_tx C st t cost account k1 verdict ps3))))))"

fun process_transactions ::
  "'e crypto_scheme \<Rightarrow> ApplyState \<Rightarrow> (SignedTransaction \<times> InvalidTxError option) list \<Rightarrow> ProcState
     \<Rightarrow> (ProcState, RuntimeError) result" where
  "process_transactions C st [] ps = Ok ps"
| "process_transactions C st ((t, invalid) # ts) ps =
     result_bind (process_transaction C st t invalid ps) (process_transactions C st ts)"

text \<open>
  The validations of a chunk: an expired transaction is invalid, every other one is validated
  with its signature. (The code verifies Ed25519 signatures in batches and falls back to the
  single verification when a batch fails.)
\<close>

definition tx_validation ::
  "'e crypto_scheme \<Rightarrow> ApplyState \<Rightarrow> SignedTransaction \<Rightarrow> bool \<Rightarrow> InvalidTxError option" where
  "tx_validation C st t non_expired =
     (if \<not> non_expired then Some Expired
      else case validate_transaction C (as_config st) t (as_protocol_version st) of
        Err (e, _) \<Rightarrow> Some e | Ok _ \<Rightarrow> None)"

definition process_chunk ::
  "'e crypto_scheme \<Rightarrow> ApplyState \<Rightarrow> (SignedTransaction \<times> bool) list \<Rightarrow> TrieUpdate \<Rightarrow> ProcState
     \<Rightarrow> (ProcState, RuntimeError) result" where
  "process_chunk C st ts s ps =
     process_transactions C st (map (\<lambda>(t, live). (t, tx_validation C st t live)) ts) (prefetch s ps)"

end
