(* ===== verification/Chunk_Ledger.thy ===== *)
theory Chunk_Ledger
  imports Process_Tx
begin

text \<open>
  The ledger of a chunk: what \<open>process_transactions\<close> does to the tokens in the state, to the
  caches and to the balances of locked Patoshi accounts. The caches stay coherent with the
  trie; the tokens of the state, the tokens burnt and the tokens carried by the receipts add up
  to the same total; and a locked account keeps its floor.
\<close>

section \<open>Key registration moves no tokens\<close>

definition key_step :: "AccountId \<Rightarrow> PublicKey \<Rightarrow> TrieUpdate \<Rightarrow> TrieUpdate \<Rightarrow> bool" where
  "key_step sid tx_pk s s' \<longleftrightarrow>
     (\<exists>s1. (s1 = s \<or> (\<exists>pk. bt_get (t_access_keys s) (sid, pk) = None
                       \<and> s1 = set_access_key sid pk full_access s))
        \<and> (s' = s1 \<or> (\<exists>k m. bt_get (t_access_keys s1) (sid, tx_pk) = Some k
                         \<and> s' = set_access_key sid tx_pk (k \<lparr> ak_nonce := m \<rparr>) s1)))"

lemma key_step_refl: "key_step sid pk s s"
  unfolding key_step_def by blast

lemma auto_register_key_step:
  assumes "maybe_auto_register_bitcoin_access_key C sid tx_pk sig msg h n s = Some (s', res)"
  shows "key_step sid tx_pk s s'"
proof -
  obtain s1 r1 where v: "verify_and_register_bitcoin_transaction C sig msg sid s = (s1, r1)"
    by (cases "verify_and_register_bitcoin_transaction C sig msg sid s")
  have s1: "s1 = s \<or> (\<exists>pk. bt_get (t_access_keys s) (sid, pk) = None
      \<and> s1 = set_access_key sid pk full_access s)"
    using verify_and_register_spec [OF v] by blast
  have "s' = s \<or> s' = s1 \<or> (\<exists>k m. bt_get (t_access_keys s1) (sid, tx_pk) = Some k
      \<and> s' = set_access_key sid tx_pk (k \<lparr> ak_nonce := m \<rparr>) s1)"
    using assms unfolding maybe_auto_register_bitcoin_access_key_def v
    by (simp add: get_access_key_Ok Let_def bind_eq_Some_conv
        split: if_splits result.splits option.splits prod.splits) blast+
  then show ?thesis using s1 unfolding key_step_def by blast
qed

lemma key_tokens_nonce [simp]: "key_tokens (k \<lparr> ak_nonce := m \<rparr>) = key_tokens k"
  by (simp add: key_tokens_def gas_key_info_def)

lemma key_tokens_full [simp]: "key_tokens full_access = 0"
  by (simp add: key_tokens_def gas_key_info_def full_access_def)

lemma nonces_of_writes [simp]:
  "t_gas_key_nonces (set_account aid a s) = t_gas_key_nonces s"
  "t_gas_key_nonces (set_access_key aid pk k s) = t_gas_key_nonces s"
  "t_gas_key_nonces (set_data aid kk v s) = t_gas_key_nonces s"
  "t_gas_key_nonces (set_gas_key_nonce aid pk i n s) = bt_insert (aid, pk, i) n (t_gas_key_nonces s)"
  by (simp_all add: trie_ops)

lemma state_tokens_new_key:
  "bt_get (t_access_keys s) (a, pk) = None
     \<Longrightarrow> state_tokens (set_access_key a pk k s) = state_tokens s + key_tokens k"
  by (simp add: state_tokens_def bt_sum_new)

lemma key_step_frame:
  assumes "key_step sid tx_pk s s'" "trie_inv s"
  shows "trie_inv s' \<and> state_tokens s' = state_tokens s \<and> t_accounts s' = t_accounts s
    \<and> t_data s' = t_data s \<and> t_gas_key_nonces s' = t_gas_key_nonces s \<and> t_fault s' = t_fault s"
proof -
  obtain s1 where s1: "s1 = s \<or> (\<exists>pk. bt_get (t_access_keys s) (sid, pk) = None
      \<and> s1 = set_access_key sid pk full_access s)"
    "s' = s1 \<or> (\<exists>k m. bt_get (t_access_keys s1) (sid, tx_pk) = Some k
      \<and> s' = set_access_key sid tx_pk (k \<lparr> ak_nonce := m \<rparr>) s1)"
    using assms(1) unfolding key_step_def by blast
  have 1: "trie_inv s1 \<and> state_tokens s1 = state_tokens s \<and> t_accounts s1 = t_accounts s
    \<and> t_data s1 = t_data s \<and> t_gas_key_nonces s1 = t_gas_key_nonces s \<and> t_fault s1 = t_fault s"
    using s1(1) assms(2) by (auto simp: state_tokens_new_key)
  moreover have "state_tokens s' = state_tokens s1"
    using s1(2) 1 state_tokens_set_key [of s1 sid tx_pk] by (metis add_right_cancel key_tokens_nonce)
  moreover have "trie_inv s' \<and> t_accounts s' = t_accounts s1 \<and> t_data s' = t_data s1
    \<and> t_gas_key_nonces s' = t_gas_key_nonces s1 \<and> t_fault s' = t_fault s1"
    using s1(2) 1 by auto
  ultimately show ?thesis by simp
qed

section \<open>Coherent caches\<close>

definition coherent :: "ProcState \<Rightarrow> bool" where
  "coherent ps \<longleftrightarrow> trie_inv (ps_trie ps)
     \<and> (\<forall>a. ps_accounts ps a = get_account (ps_trie ps) a)
     \<and> (\<forall>a pk k. ps_access_keys ps (a, pk) = Ok (Some k)
           \<longrightarrow> bt_get (t_access_keys (ps_trie ps)) (a, pk) = Some k)
     \<and> (\<forall>a pk i. ps_gas_key_nonces ps (a, pk, i) = get_gas_key_nonce (ps_trie ps) a pk i)"

lemma coherent_prefetch: "trie_inv s \<Longrightarrow> coherent (prefetch s ps)"
  by (simp add: coherent_def prefetch_def get_access_key_Ok)

lemma reads_of_key_step:
  assumes "key_step sid tx_pk s s'" "trie_inv s"
  shows "get_account s' a = get_account s a" "get_gas_key_nonce s' a pk i = get_gas_key_nonce s a pk i"
  using key_step_frame [OF assms] by (simp_all add: get_account_def get_gas_key_nonce_def trie_read_def)

lemma key_step_keeps_cached:
  assumes "key_step sid tx_pk s s'" "(a, pk) \<noteq> (sid, tx_pk)" "bt_get (t_access_keys s) (a, pk) = Some k"
  shows "bt_get (t_access_keys s') (a, pk) = Some k"
  using assms unfolding key_step_def by (auto simp: bt_get_insert)

lemma coherent_key_step:
  assumes "coherent ps" "key_step sid tx_pk (ps_trie ps) s'" "\<And>k. ps_access_keys ps (sid, tx_pk) \<noteq> Ok (Some k)"
  shows "coherent (ps \<lparr> ps_trie := s' \<rparr>)"
    and "get_access_key s' sid tx_pk = Ok k
      \<Longrightarrow> coherent (ps \<lparr> ps_trie := s', ps_access_keys := (ps_access_keys ps)((sid, tx_pk) := Ok k) \<rparr>)"
proof -
  have inv: "trie_inv (ps_trie ps)" using assms(1) by (simp add: coherent_def)
  have keys: "bt_get (t_access_keys s') (a, pk) = Some k" if "ps_access_keys ps (a, pk) = Ok (Some k)" for a pk k
  proof -
    have "(a, pk) \<noteq> (sid, tx_pk)" using assms(3) that by auto
    moreover have "bt_get (t_access_keys (ps_trie ps)) (a, pk) = Some k"
      using assms(1) that by (simp add: coherent_def)
    ultimately show ?thesis by (rule key_step_keeps_cached [OF assms(2)])
  qed
  show "coherent (ps \<lparr> ps_trie := s' \<rparr>)"
    using assms(1) keys key_step_frame [OF assms(2) inv] reads_of_key_step [OF assms(2) inv]
    by (simp add: coherent_def)
  then show "coherent (ps \<lparr> ps_trie := s', ps_access_keys := (ps_access_keys ps)((sid, tx_pk) := Ok k) \<rparr>)"
    if "get_access_key s' sid tx_pk = Ok k"
    using that by (auto simp: coherent_def get_access_key_Ok)
qed


section \<open>One transaction, up to its charge\<close>

text \<open>
  \<open>quiet\<close> relates two states of the loop that differ in registered keys and outcomes only: no
  account, no token, no receipt and no Patoshi record has changed.
\<close>

definition quiet :: "ProcState \<Rightarrow> ProcState \<Rightarrow> bool" where
  "quiet ps ps' \<longleftrightarrow> coherent ps' \<and> state_tokens (ps_trie ps') = state_tokens (ps_trie ps)
     \<and> t_accounts (ps_trie ps') = t_accounts (ps_trie ps) \<and> t_data (ps_trie ps') = t_data (ps_trie ps)
     \<and> t_fault (ps_trie ps') = t_fault (ps_trie ps)
     \<and> ps_tx_burnt_amount ps' = ps_tx_burnt_amount ps
     \<and> ps_local_receipts ps' = ps_local_receipts ps \<and> ps_forwarded ps' = ps_forwarded ps"

lemma quiet_refl: "coherent ps \<Longrightarrow> quiet ps ps"
  by (simp add: quiet_def)

lemma quiet_trans: "quiet a b \<Longrightarrow> quiet b c \<Longrightarrow> quiet a c"
  by (simp add: quiet_def)

lemma quiet_coherent: "quiet a b \<Longrightarrow> coherent b"
  by (simp add: quiet_def)

lemma tx_failed_frame [simp]:
  "ps_trie (tx_failed st t e ps) = ps_trie ps" "ps_accounts (tx_failed st t e ps) = ps_accounts ps"
  "ps_access_keys (tx_failed st t e ps) = ps_access_keys ps"
  "ps_gas_key_nonces (tx_failed st t e ps) = ps_gas_key_nonces ps"
  "ps_tx_burnt_amount (tx_failed st t e ps) = ps_tx_burnt_amount ps"
  "ps_local_receipts (tx_failed st t e ps) = ps_local_receipts ps"
  "ps_forwarded (tx_failed st t e ps) = ps_forwarded ps"
  by (simp_all add: tx_failed_def register_outcome_def split: ExecutionStatus.split)

lemma quiet_failed: "quiet ps ps' \<Longrightarrow> quiet ps (tx_failed st t e ps')"
  by (simp add: quiet_def coherent_def)

lemma quiet_key_step:
  assumes "coherent ps" "key_step sid tx_pk (ps_trie ps) s'" "ps_access_keys ps (sid, tx_pk) = Ok None"
  shows "quiet ps (ps \<lparr> ps_trie := s' \<rparr>)"
    and "get_access_key s' sid tx_pk = Ok k
      \<Longrightarrow> quiet ps (ps \<lparr> ps_trie := s', ps_access_keys := (ps_access_keys ps)((sid, tx_pk) := Ok k) \<rparr>)"
  using coherent_key_step [OF assms(1,2)] assms(3) key_step_frame [OF assms(2)] assms(1)
  by (simp_all add: quiet_def coherent_def)

lemma recover_key_quiet:
  assumes "coherent ps" "recover_key C st t ps = Ok ps'"
  shows "quiet ps ps'"
  using assms
  by (auto simp: recover_key_def Let_def result_simps
      intro: quiet_refl quiet_key_step [OF _ auto_register_key_step]
      split: if_splits option.splits prod.splits result.splits bool.splits)

lemma lookup_key_quiet:
  assumes "coherent ps" "lookup_key C st t ps = Ok (ps', key)"
  shows "quiet ps ps'"
  using assms
  by (auto simp: lookup_key_def Let_def result_simps
      intro: quiet_refl quiet_failed quiet_key_step [OF _ auto_register_key_step]
      split: if_splits option.splits prod.splits result.splits bool.splits)

lemma lookup_key_found:
  assumes "coherent ps" "lookup_key C st t ps = Ok (ps', Some k)"
  shows "bt_get (t_access_keys (ps_trie ps')) (tx_signer_id (st_transaction t), tx_public_key (st_transaction t)) = Some k"
  using assms
  by (auto simp: lookup_key_def Let_def result_simps get_access_key_Ok coherent_def
      split: if_splits option.splits prod.splits result.splits bool.splits)

lemma tx_verdict_quiet:
  assumes "coherent ps" "tx_verdict st t cost account k ps = Ok (ps', kv)"
  shows "quiet ps ps' \<and> (kv \<noteq> None \<longrightarrow> ps' = ps)"
  using assms
  by (auto simp: tx_verdict_def Let_def intro: quiet_refl quiet_failed split: option.splits result.splits)

text \<open>What a verdict charges: the account and the key together pay the cost, or the gas part of it.\<close>

definition charges :: "VerificationResult \<Rightarrow> Account \<Rightarrow> AccessKey \<Rightarrow> AccessKey \<Rightarrow> nat \<Rightarrow> bool" where
  "charges r account k k1 paid \<longleftrightarrow>
     (\<exists>account' k'. vr_apply r account k1 = Some (account', k') \<and> locked account' = locked account
        \<and> amount account' = new_account_amount r
        \<and> account_tokens account + key_tokens k = account_tokens account' + key_tokens k' + paid)"

lemma gas_key_charges:
  assumes "gas_key_charged account k cur tx cost h r"
    and "unat (amount account) = unat (new_account_amount r) + paid"
  shows "charges r account k k (paid + unat (gas_cost cost))"
proof -
  obtain i g b where g: "gas_key_info k = Some g" "unat (gk_balance g) = unat b + unat (gas_cost cost)"
    "access_key_update r = GasKeyUpdate b i (nonce_of (tx_nonce tx))"
    using assms(1) unfolding gas_key_charged_def by blast
  then show ?thesis
    using assms(2) by (simp add: charges_def vr_apply_def key_tokens_def Let_def account_tokens_def)
qed

lemma regular_charges:
  assumes "verify_and_charge_tx_ephemeral config account k tx cost h pv = Some (k1, Success r)"
  shows "charges r account k k1 (unat (total_cost cost))"
proof -
  obtain na where na: "gas_key_info k = None"
    "unat (amount account) = unat (new_account_amount r) + unat (total_cost cost)"
    "check_and_compute_new_allowance k (tx_signer_id tx) (tx_public_key tx) (total_cost cost) = Ok na"
    "k1 = legacy_key pv na k" "access_key_update r = Regular (nonce_of (tx_nonce tx)) na"
    using charge_SuccessD [OF assms] by auto
  have k1: "key_tokens k1 = 0" using na(1,4) by (simp add: key_tokens_def)
  have "na = None \<or> (\<exists>a fc. na = Some a \<and> function_call_permission (permission k1) = Some fc)"
    using na(3,4) legacy_key_fc [of k _ pv na]
    by (cases "function_call_permission (permission k)") (auto simp: new_allowance_Ok split: option.splits)
  then obtain k' where "vr_apply r account k1 = Some (set_amount (new_account_amount r) account, k')"
    "gas_key_info k' = gas_key_info k1"
    using na(5) by (auto simp: vr_apply_def Let_def gas_key_info_def)
  moreover from this(2) have "key_tokens k' = 0" using k1 by (simp add: key_tokens_def)
  ultimately show ?thesis
    using na(1,2) by (simp add: charges_def account_tokens_set_amount key_tokens_def)
      (simp add: account_tokens_def)
qed


lemma tx_verdict_charges:
  assumes "tx_verdict st t cost account k ps = Ok (ps', Some (k1, v))"
    and "unat (total_cost cost) = unat (gas_cost cost) + unat (deposit_cost cost)"
  shows "v = Success r \<Longrightarrow> charges r account k k1 (unat (total_cost cost))
      \<and> vr_burnt_amount r = burnt_amount cost \<and> vr_receipt_gas_price r = receipt_gas_price cost"
    and "v = DepositFailed r e \<Longrightarrow> charges r account k k1 (unat (gas_cost cost))
      \<and> new_account_amount r = amount account"
proof -
  let ?tx = "st_transaction t"
  consider cur where "k1 = k" "verify_and_charge_gas_key_tx_ephemeral (as_config st) account k cur ?tx cost
        (Some (as_block_height st)) = Some v"
    | "verify_and_charge_tx_ephemeral (as_config st) account k ?tx cost
        (Some (as_block_height st)) (as_protocol_version st) = Some (k1, v)"
    using assms(1) by (auto simp: tx_verdict_def Let_def split: option.splits result.splits)
  note cases = this
  show "charges r account k k1 (unat (total_cost cost)) \<and> vr_burnt_amount r = burnt_amount cost
      \<and> vr_receipt_gas_price r = receipt_gas_price cost" if "v = Success r"
  proof (cases rule: cases)
    case (1 cur)
    note c = gas_charge_SuccessD [OF 1(2) [unfolded that]]
    show ?thesis
      using gas_key_charges [OF c(1,2)] c(1) 1(1) assms(2)
      by (auto simp: gas_key_charged_def add.commute)
  next
    case 2
    show ?thesis using regular_charges [OF 2 [unfolded that]] charge_SuccessD [OF 2 [unfolded that]] by auto
  qed
  show "charges r account k k1 (unat (gas_cost cost)) \<and> new_account_amount r = amount account"
    if "v = DepositFailed r e"
  proof (cases rule: cases)
    case (1 cur)
    note c = gas_charge_DepositFailedD [OF 1(2) [unfolded that]]
    show ?thesis using gas_key_charges [OF c(1), of 0] c(2) 1(1) by simp
  next
    case 2
    then show ?thesis using that charge_not_DepositFailed by metis
  qed
qed

lemma cost_parts:
  assumes "calculate_tx_cost C receiver_id signer_id actions config price = Ok c"
  shows "unat (total_cost c) = unat (gas_cost c) + unat (deposit_cost c)
    \<and> unat (burnt_amount c) \<le> unat (gas_cost c) \<and> receipt_gas_price c = price"
  using assms
  by (auto simp: calculate_tx_cost_def Let_def result_simps checked_ops rust_int)

text \<open>
  A transaction either ends quietly, or a coherent state is reached in which its signer and its
  key are in the trie and its verdict is settled.
\<close>

definition settles :: "'e crypto_scheme \<Rightarrow> ApplyState \<Rightarrow> SignedTransaction \<Rightarrow> ProcState \<Rightarrow> ProcState \<Rightarrow> bool" where
  "settles C st t ps ps' \<longleftrightarrow> (\<exists>cost account k k1 v.
     calculate_tx_cost C (tx_receiver_id (st_transaction t)) (tx_signer_id (st_transaction t))
       (tx_actions (st_transaction t)) (as_config st) (as_gas_price st) = Ok cost
     \<and> get_account (ps_trie ps) (tx_signer_id (st_transaction t)) = Ok (Some account)
     \<and> bt_get (t_access_keys (ps_trie ps))
         (tx_signer_id (st_transaction t), tx_public_key (st_transaction t)) = Some k
     \<and> tx_verdict st t cost account k ps = Ok (ps, Some (k1, v))
     \<and> settle_tx C st t cost account k1 v ps = Ok ps')"

lemma process_transaction_cases:
  assumes "coherent ps" "process_transaction C st t invalid ps = Ok ps'"
  shows "quiet ps ps' \<or> (\<exists>ps1. quiet ps ps1 \<and> settles C st t ps1 ps')"
proof -
  let ?tx = "st_transaction t"
  consider "quiet ps ps'"
    | cost account where
      "calculate_tx_cost C (tx_receiver_id ?tx) (tx_signer_id ?tx) (tx_actions ?tx)
         (as_config st) (as_gas_price st) = Ok cost"
      "ps_accounts ps (tx_signer_id ?tx) = Ok (Some account)"
      "result_bind (recover_key C st t ps) (\<lambda>ps1. result_bind (lookup_key C st t ps1) (\<lambda>(ps2, key).
         case key of None \<Rightarrow> Ok ps2
         | Some k \<Rightarrow> result_bind (tx_verdict st t cost account k ps2) (\<lambda>(ps3, kv).
             case kv of None \<Rightarrow> Ok ps3
             | Some (k1, verdict) \<Rightarrow> settle_tx C st t cost account k1 verdict ps3))) = Ok ps'"
    using assms
    by (auto simp: process_transaction_def Let_def intro: quiet_refl quiet_failed
        split: option.splits result.splits FeeError.splits)
  then show ?thesis
  proof cases
    case (2 cost account)
    obtain ps1 ps2 key where k: "recover_key C st t ps = Ok ps1" "lookup_key C st t ps1 = Ok (ps2, key)"
      using 2(3) by (auto simp: result_simps)
    have q1: "quiet ps ps1" by (rule recover_key_quiet [OF assms(1) k(1)])
    have q2: "quiet ps ps2"
      by (rule quiet_trans [OF q1 lookup_key_quiet [OF quiet_coherent [OF q1] k(2)]])
    note c2 = quiet_coherent [OF q2]
    show ?thesis
    proof (cases key)
      case None
      then show ?thesis using 2(3) k q2 by (simp add: result_simps)
    next
      case (Some key')
      then obtain ps3 kv where v: "tx_verdict st t cost account key' ps2 = Ok (ps3, kv)"
        using 2(3) k by (auto simp: result_simps)
      note q3 = tx_verdict_quiet [OF c2 v]
      note found = lookup_key_found [OF quiet_coherent [OF q1] k(2) [unfolded Some]]
      show ?thesis
      proof (cases kv)
        case None
        then show ?thesis using 2(3) k Some v q3 quiet_trans [OF q2] by (simp add: result_simps)
      next
        case (Some kv')
        have "get_account (ps_trie ps2) (tx_signer_id ?tx) = Ok (Some account)"
          using 2(2) assms(1) q2 by (simp add: coherent_def quiet_def get_account_def trie_read_def)
        then have "settles C st t ps2 ps'"
          unfolding settles_def
          using 2(1,3) k \<open>key = Some key'\<close> v Some q2 q3 found
          by (cases kv') (auto simp: result_simps quiet_def)
        then show ?thesis using q2 by blast
      qed
    qed
  qed simp
qed

section \<open>The charge\<close>

lemma verdict_nonce_cached:
  assumes "tx_verdict st t cost account k ps = Ok (ps', Some (k1, v))" "v = Success r \<or> v = DepositFailed r e"
    and "gas_key_nonce_update r = Some (i, n)"
  shows "\<exists>cur. ps_gas_key_nonces ps (tx_signer_id (st_transaction t), tx_public_key (st_transaction t), i) = Ok (Some cur)"
proof -
  let ?tx = "st_transaction t"
  consider cur j where "nonce_index_of (tx_nonce ?tx) = Some j"
      "ps_gas_key_nonces ps (tx_signer_id ?tx, tx_public_key ?tx, j) = Ok (Some cur)"
      "verify_and_charge_gas_key_tx_ephemeral (as_config st) account k cur ?tx cost
        (Some (as_block_height st)) = Some v"
    | "verify_and_charge_tx_ephemeral (as_config st) account k ?tx cost
        (Some (as_block_height st)) (as_protocol_version st) = Some (k1, v)"
    using assms(1) by (auto simp: tx_verdict_def Let_def split: option.splits result.splits)
  then show ?thesis
  proof cases
    case (1 cur j)
    then have "gas_key_charged account k cur ?tx cost (Some (as_block_height st)) r"
      using assms(2) gas_charge_SuccessD(1) gas_charge_DepositFailedD(1) by metis
    then show ?thesis using 1(1,2) assms(3) by (auto simp: gas_key_charged_def gas_key_nonce_update_def)
  next
    case 2
    then have v: "v = Success r" using assms(2) charge_not_DepositFailed by metis
    show ?thesis using charge_SuccessD [OF 2 [unfolded v]] assms(3) by (auto simp: gas_key_nonce_update_def)
  qed
qed

lemma account_key_tokens_le:
  assumes "bt_get (t_accounts s) a = Some v" "bt_get (t_access_keys s) (a, pk) = Some k"
  shows "account_tokens v + key_tokens k \<le> state_tokens s"
  unfolding state_tokens_def by (intro add_mono bt_sum_member [OF assms(1)] bt_sum_member [OF assms(2)])

text \<open>The writes that end an iteration.\<close>

definition charged_trie ::
  "AccountId \<Rightarrow> PublicKey \<Rightarrow> Account \<Rightarrow> AccessKey \<Rightarrow> (NonceIndex \<times> Nonce) option \<Rightarrow> TrieUpdate \<Rightarrow> TrieUpdate" where
  "charged_trie sid pk account' k' upd s = set_access_key sid pk k'
     (case upd of None \<Rightarrow> set_account sid account' s
      | Some (i, n) \<Rightarrow> set_gas_key_nonce sid pk i n (set_account sid account' s))"

lemma state_tokens_nonce [simp]: "state_tokens (set_gas_key_nonce a pk i n s) = state_tokens s"
  by (simp add: state_tokens_def)

lemma state_tokens_data [simp]: "state_tokens (set_data a kk v s) = state_tokens s"
  by (simp add: state_tokens_def)

lemma charged_trie_frame [simp]:
  "t_accounts (charged_trie sid pk a k u s) = bt_insert sid a (t_accounts s)"
  "t_access_keys (charged_trie sid pk a k u s) = bt_insert (sid, pk) k (t_access_keys s)"
  "t_data (charged_trie sid pk a k u s) = t_data s" "t_fault (charged_trie sid pk a k u s) = t_fault s"
  "trie_inv s \<Longrightarrow> trie_inv (charged_trie sid pk a k u s)"
  by (auto simp: charged_trie_def split: option.split)

lemma charged_trie_tokens:
  assumes "trie_inv s" "bt_get (t_accounts s) sid = Some v" "bt_get (t_access_keys s) (sid, pk) = Some k"
    and "account_tokens v + key_tokens k = account_tokens v' + key_tokens k' + paid"
  shows "state_tokens (charged_trie sid pk v' k' u s) + paid = state_tokens s"
proof -
  define s2 where "s2 = (case u of None \<Rightarrow> set_account sid v' s
    | Some (i, n) \<Rightarrow> set_gas_key_nonce sid pk i n (set_account sid v' s))"
  have s2: "trie_inv s2" "bt_get (t_access_keys s2) (sid, pk) = Some k"
    "state_tokens s2 = state_tokens (set_account sid v' s)"
    using assms(1,3) by (auto simp: s2_def split: option.split)
  have "state_tokens (set_account sid v' s) + account_tokens v = state_tokens s + account_tokens v'"
    by (rule state_tokens_set_account [OF assms(2,1)])
  moreover have "state_tokens (charged_trie sid pk v' k' u s) + key_tokens k = state_tokens s2 + key_tokens k'"
    unfolding charged_trie_def s2_def [symmetric] by (rule state_tokens_set_key [OF s2(2,1)])
  ultimately show ?thesis using s2(3) assms(4) by simp
qed

definition charged_state ::
  "SignedTransaction \<Rightarrow> Account \<Rightarrow> AccessKey \<Rightarrow> (NonceIndex \<times> Nonce) option \<Rightarrow> ExecutionOutcomeWithId
     \<Rightarrow> Balance \<Rightarrow> u64 \<Rightarrow> u64 \<Rightarrow> ProcState \<Rightarrow> ProcState" where
  "charged_state t a' k' u out b g c ps =
     (let sid = tx_signer_id (st_transaction t); pk = tx_public_key (st_transaction t) in
      ps \<lparr> ps_trie := charged_trie sid pk a' k' u (ps_trie ps),
        ps_accounts := (ps_accounts ps)(sid := Ok (Some a')),
        ps_access_keys := (ps_access_keys ps)((sid, pk) := Ok (Some k')),
        ps_gas_key_nonces := (case u of None \<Rightarrow> ps_gas_key_nonces ps
          | Some (i, n) \<Rightarrow> (ps_gas_key_nonces ps)((sid, pk, i) := Ok (Some n))),
        ps_outcomes := ps_outcomes ps @ [out], ps_tx_burnt_amount := b,
        ps_total_gas := g, ps_total_compute := c \<rparr>)"

lemma charged_state_frame [simp]:
  "ps_trie (charged_state t a' k' u out b g c ps) = charged_trie (tx_signer_id (st_transaction t))
     (tx_public_key (st_transaction t)) a' k' u (ps_trie ps)"
  "ps_tx_burnt_amount (charged_state t a' k' u out b g c ps) = b"
  "ps_local_receipts (charged_state t a' k' u out b g c ps) = ps_local_receipts ps"
  "ps_forwarded (charged_state t a' k' u out b g c ps) = ps_forwarded ps"
  by (simp_all add: charged_state_def Let_def)

lemma coherent_charged:
  assumes "coherent ps" "get_account (ps_trie ps) (tx_signer_id (st_transaction t)) = Ok (Some account)"
    and "\<And>i n. u = Some (i, n) \<Longrightarrow> \<exists>cur. ps_gas_key_nonces ps
           (tx_signer_id (st_transaction t), tx_public_key (st_transaction t), i) = Ok (Some cur)"
  shows "coherent (charged_state t a' k' u out b g c ps)"
proof -
  define sid pk where "sid = tx_signer_id (st_transaction t)" and "pk = tx_public_key (st_transaction t)"
  note [simp] = sid_def [symmetric] pk_def [symmetric]
  have f: "t_fault (ps_trie ps) (KAccount sid) = None" using assms(2) by (simp add: get_account_Ok)
  have acc: "get_account (charged_trie sid pk a' k' u (ps_trie ps)) a
      = (if a = sid then Ok (Some a') else get_account (ps_trie ps) a)" for a
    using f by (simp add: get_account_def trie_read_def bt_get_insert)
  have fn: "t_fault (ps_trie ps) (KGasKeyNonce sid pk i) = None" if "u = Some (i, n)" for i n
    using assms(1) assms(3) [OF that]
    by (auto simp: coherent_def get_gas_key_nonce_def trie_read_def split: option.splits)
  have non: "get_gas_key_nonce (charged_trie sid pk a' k' u (ps_trie ps)) a q j
      = (case u of Some (i, n) \<Rightarrow> if (a, q, j) = (sid, pk, i) then Ok (Some n)
           else get_gas_key_nonce (ps_trie ps) a q j | None \<Rightarrow> get_gas_key_nonce (ps_trie ps) a q j)" for a q j
    using fn by (auto simp: get_gas_key_nonce_def trie_read_def charged_trie_def bt_get_insert split: option.splits)
  show ?thesis
    using assms(1) acc non
    by (auto simp: coherent_def charged_state_def Let_def bt_get_insert split: option.splits)
qed

lemma finish_tx_cases:
  assumes "finish_tx t account k r out ps = Ok ps'"
  obtains "ps' = ps" "2 ^ 128 \<le> unat (ps_tx_burnt_amount ps) + unat (eo_tokens_burnt out)"
    | account' k' b g c where "vr_apply r account k = Some (account', k')"
        "unat b = unat (ps_tx_burnt_amount ps) + unat (eo_tokens_burnt out)"
        "ps' = charged_state t account' k' (gas_key_nonce_update r) out b g c ps"
proof (cases "safe_add_balance (ps_tx_burnt_amount ps) (eo_tokens_burnt out)")
  case (Ok b)
  then have b: "unat b = unat (ps_tx_burnt_amount ps) + unat (eo_tokens_burnt out)"
    by (simp add: checked_ops result_simps checked_add_Some)
  from assms Ok obtain compute g c account' k' where a: "eo_compute_usage out = Some compute"
    "checked_add (ps_total_gas ps) (eo_gas_burnt out) = Some g"
    "checked_add (ps_total_compute ps) compute = Some c" "vr_apply r account k = Some (account', k')"
    by (auto simp: finish_tx_def Let_def result_simps split: option.splits)
  then have "ps' = charged_state t account' k' (gas_key_nonce_update r) out b g c ps"
    using assms Ok
    by (cases "gas_key_nonce_update r")
      (simp_all add: finish_tx_def charged_state_def charged_trie_def Let_def result_simps split: prod.splits)
  then show ?thesis using that(2) a(4) b by blast
next
  case (Err e)
  then show ?thesis
    using assms that(1)
    by (auto simp: finish_tx_def checked_ops result_simps checked_add_def split: option.splits if_splits)
qed

section \<open>The ledger\<close>

text \<open>
  The tokens a receipt carries: the attached deposits, and at the receipt's gas price the gas
  attached to function calls, the send fees of delegated actions and the execution fees.
\<close>

definition receipt_gas ::
  "'e crypto_scheme \<Rightarrow> RuntimeConfig \<Rightarrow> AccountId \<Rightarrow> Action list \<Rightarrow> (nat, FeeError) result" where
  "receipt_gas C config receiver actions =
     result_bind (total_prepaid_gas actions 0) (\<lambda>pg.
     result_bind (total_prepaid_send_fees C config actions 0) (\<lambda>sf.
     result_bind (total_prepaid_exec_fees C config receiver actions 0) (\<lambda>ef.
       Ok (unat pg + unat sf + unat ef + unat (execution (action_fees (fees config) cost_new_action_receipt))))))"

definition receipt_value :: "'e crypto_scheme \<Rightarrow> RuntimeConfig \<Rightarrow> Receipt \<Rightarrow> nat" where
  "receipt_value C config r =
     (case action_receipt r of
        None \<Rightarrow> 0
      | Some a \<Rightarrow> deposits (va_actions a)
          + unat (va_gas_price a)
            * (case receipt_gas C config (r_receiver_id r) (va_actions a) of Ok g \<Rightarrow> g | Err _ \<Rightarrow> 0))"

definition ledger :: "'e crypto_scheme \<Rightarrow> RuntimeConfig \<Rightarrow> ProcState \<Rightarrow> nat" where
  "ledger C config ps = state_tokens (ps_trie ps) + unat (ps_tx_burnt_amount ps)
     + sum_list (map (receipt_value C config) (ps_local_receipts ps))
     + sum_list (map (receipt_value C config) (ps_forwarded ps))"

lemma ledger_quiet: "quiet ps ps' \<Longrightarrow> ledger C config ps' = ledger C config ps"
  by (simp add: quiet_def ledger_def)

lemma cost_carried:
  assumes "calculate_tx_cost C receiver_id signer_id actions config price = Ok c"
  shows "\<exists>g. receipt_gas C config receiver_id actions = Ok g
    \<and> unat (total_cost c) = unat (burnt_amount c) + (deposits actions + unat price * g)"
proof -
  have u: "unat (ucast g :: u128) = unat g" for g :: u64
    by (rule unat_ucast_up) simp
  obtain pg psf prepaid rem1 ef where
    f: "total_prepaid_gas actions 0 = Ok pg" "total_prepaid_send_fees C config actions 0 = Ok psf"
      "total_prepaid_exec_fees C config receiver_id actions 0 = Ok ef"
    and b: "checked_add pg psf = Some prepaid"
      "checked_add prepaid (execution (action_fees (fees config) cost_new_action_receipt)) = Some rem1"
      "checked_add rem1 ef = Some (gas_remaining c)"
    and m: "\<exists>r. checked_mul price (ucast (gas_remaining c)) = Some r \<and> checked_add (burnt_amount c) r = Some (gas_cost c)"
      "total_deposit actions 0 = Ok (deposit_cost c)" "checked_add (gas_cost c) (deposit_cost c) = Some (total_cost c)"
    using assms by (auto simp: calculate_tx_cost_def Let_def result_simps checked_ops)
  let ?g = "unat pg + unat psf + unat ef + unat (execution (action_fees (fees config) cost_new_action_receipt))"
  have "unat (gas_remaining c) = ?g" using b by (auto simp: checked_add_Some)
  then have "unat (total_cost c) = unat (burnt_amount c) + (deposits actions + unat price * ?g)"
    using m by (auto simp: checked_add_Some checked_mul_Some total_deposit_iff u)
  then show ?thesis using f by (simp add: receipt_gas_def)
qed

lemma tx_receipt_value:
  assumes "calculate_tx_cost C (tx_receiver_id (st_transaction t)) (tx_signer_id (st_transaction t))
       (tx_actions (st_transaction t)) (as_config st) (as_gas_price st) = Ok cost"
    and "vr_receipt_gas_price r = receipt_gas_price cost"
  shows "receipt_value C (as_config st) (tx_receipt C st t r) = unat (total_cost cost) - unat (burnt_amount cost)"
  using assms(2) cost_parts [OF assms(1)] cost_carried [OF assms(1)]
  by (auto simp: receipt_value_def tx_receipt_def Let_def receipt_from_tx_def action_receipt_def)

lemma emit_receipt_frame [simp]:
  "ps_trie (emit_receipt sid r ps) = ps_trie ps" "ps_gas_key_nonces (emit_receipt sid r ps) = ps_gas_key_nonces ps"
  "ps_tx_burnt_amount (emit_receipt sid r ps) = ps_tx_burnt_amount ps"
  "coherent (emit_receipt sid r ps) = coherent ps"
  "ledger C config (emit_receipt sid r ps) = ledger C config ps + receipt_value C config r"
  by (simp_all add: emit_receipt_def coherent_def ledger_def)

lemma patoshi_guard_cases:
  assumes "patoshi_guard st t account r ps = Ok (ps1, rej)"
  obtains (free) "get_patoshi_record (ps_trie ps) (tx_signer_id (st_transaction t)) = Ok None" "ps1 = ps" "rej = None"
    | (rejected) e where "ps1 = ps" "rej = Some e"
    | (guarded) rec total where
        "get_patoshi_record (ps_trie ps) (tx_signer_id (st_transaction t)) = Ok (Some rec)"
        "checked_add (new_account_amount r) (locked account) = Some total"
        "validate_locked_patoshi_transaction (tx_signer_id (st_transaction t)) (tx_receiver_id (st_transaction t))
           (tx_actions (st_transaction t)) total (as_epoch_height st) (as_protocol_version st) rec = Ok ()"
        "rej = None"
        "ps1 = (case maybe_schedule_patoshi_unlock rec (tx_receiver_id (st_transaction t))
                  (tx_actions (st_transaction t)) (as_epoch_height st) of
             (_, None) \<Rightarrow> ps
           | (rec', Some _) \<Rightarrow> ps \<lparr> ps_trie := set_patoshi_record (tx_signer_id (st_transaction t)) rec' (ps_trie ps) \<rparr>)"
proof -
  let ?tx = "st_transaction t"
  obtain rec where rec: "get_patoshi_record (ps_trie ps) (tx_signer_id ?tx) = Ok rec"
    using assms by (auto simp: patoshi_guard_def Let_def result_simps)
  show thesis
  proof (cases rec)
    case None
    then have "patoshi_guard st t account r ps = Ok (ps, None)"
      using rec by (simp add: patoshi_guard_def Let_def)
    then show ?thesis by (intro free) (use rec None assms in simp_all)
  next
    case (Some rec')
    then obtain total where total: "checked_add (new_account_amount r) (locked account) = Some total"
      using assms rec by (auto simp: patoshi_guard_def Let_def result_simps)
    show ?thesis
    proof (cases "validate_locked_patoshi_transaction (tx_signer_id ?tx) (tx_receiver_id ?tx)
           (tx_actions ?tx) total (as_epoch_height st) (as_protocol_version st) rec'")
      case (Ok u)
      obtain r2 ev where sched: "maybe_schedule_patoshi_unlock rec' (tx_receiver_id ?tx) (tx_actions ?tx)
          (as_epoch_height st) = (r2, ev)" by (cases rule: prod.exhaust)
      note rest = guarded [OF rec [unfolded Some] total, unfolded sched prod.case]
      have "patoshi_guard st t account r ps = Ok (case ev of None \<Rightarrow> ps
          | Some _ \<Rightarrow> ps \<lparr> ps_trie := set_patoshi_record (tx_signer_id ?tx) r2 (ps_trie ps) \<rparr>, None)"
        using rec Some total Ok sched
        by (cases ev) (simp_all add: patoshi_guard_def Let_def)
      then show ?thesis by (intro rest) (use Ok assms in simp_all)
    next
      case (Err e)
      then have "patoshi_guard st t account r ps = Ok (ps, Some e)"
        using rec Some total by (simp add: patoshi_guard_def Let_def)
      then show ?thesis by (intro rejected) (use assms in simp_all)
    qed
  qed
qed

lemma patoshi_guard_frame:
  assumes "patoshi_guard st t account r ps = Ok (ps1, rej)" "coherent ps"
  shows "coherent ps1 \<and> t_accounts (ps_trie ps1) = t_accounts (ps_trie ps)
    \<and> t_access_keys (ps_trie ps1) = t_access_keys (ps_trie ps) \<and> t_fault (ps_trie ps1) = t_fault (ps_trie ps)
    \<and> ps_gas_key_nonces ps1 = ps_gas_key_nonces ps \<and> ps_tx_burnt_amount ps1 = ps_tx_burnt_amount ps
    \<and> ps_local_receipts ps1 = ps_local_receipts ps \<and> ps_forwarded ps1 = ps_forwarded ps
    \<and> ledger C config ps1 = ledger C config ps"
proof -
  have "ps1 = ps \<or> (\<exists>rec. ps1 = ps \<lparr> ps_trie := set_patoshi_record (tx_signer_id (st_transaction t)) rec (ps_trie ps) \<rparr>)"
    using assms(1) by (cases rule: patoshi_guard_cases) (auto split: prod.splits option.splits)
  moreover have "get_account (set_data a kk v s) x = get_account s x"
    "get_gas_key_nonce (set_data a kk v s) x pk i = get_gas_key_nonce s x pk i" for a kk v s x pk i
    by (simp_all add: get_account_def get_gas_key_nonce_def trie_read_def)
  ultimately show ?thesis
    using assms(2) by (auto simp: coherent_def ledger_def set_patoshi_record_def)
qed

lemma charged_ledger:
  assumes "coherent ps" "get_account (ps_trie ps) (tx_signer_id (st_transaction t)) = Ok (Some account)"
    and "bt_get (t_access_keys (ps_trie ps))
          (tx_signer_id (st_transaction t), tx_public_key (st_transaction t)) = Some k"
    and "charges r account k k1 paid"
    and "\<And>i n. gas_key_nonce_update r = Some (i, n) \<Longrightarrow> \<exists>cur. ps_gas_key_nonces ps
           (tx_signer_id (st_transaction t), tx_public_key (st_transaction t), i) = Ok (Some cur)"
    and "finish_tx t account k1 r out ps = Ok ps'"
    and "paid = unat (eo_tokens_burnt out) + carried" "ledger C config ps < 2 ^ 128 + carried"
  shows "coherent ps' \<and> ledger C config ps' + carried = ledger C config ps"
proof -
  have inv: "trie_inv (ps_trie ps)" using assms(1) by (simp add: coherent_def)
  have acc: "bt_get (t_accounts (ps_trie ps)) (tx_signer_id (st_transaction t)) = Some account"
    using assms(2) by (simp add: get_account_Ok)
  obtain a' k' where a: "vr_apply r account k1 = Some (a', k')"
    "account_tokens account + key_tokens k = account_tokens a' + key_tokens k' + paid"
    using assms(4) by (auto simp: charges_def)
  from assms(6) show ?thesis
  proof (cases rule: finish_tx_cases)
    case 1
    have "paid \<le> state_tokens (ps_trie ps)"
      using account_key_tokens_le [OF acc assms(3)] a(2) by simp
    then have False using 1(2) assms(7,8) by (simp add: ledger_def)
    then show ?thesis ..
  next
    case (2 account' k'' b g c)
    then have "state_tokens (ps_trie ps') + paid = state_tokens (ps_trie ps)"
      using charged_trie_tokens [OF inv acc assms(3) a(2)] a(1) by simp
    then have "ledger C config ps' + carried = ledger C config ps"
      using 2(2,3) assms(7) by (simp add: ledger_def)
    then show ?thesis using coherent_charged [OF assms(1,2,5)] 2(3) by simp
  qed
qed

lemma tx_failed_ledger [simp]:
  "coherent (tx_failed st t e ps) = coherent ps" "ledger C config (tx_failed st t e ps) = ledger C config ps"
  by (simp_all add: coherent_def ledger_def)

lemma settles_ledger:
  assumes "coherent ps" "settles C st t ps ps'" "ledger C (as_config st) ps < 2 ^ 128"
  shows "coherent ps' \<and> ledger C (as_config st) ps' = ledger C (as_config st) ps"
proof -
  let ?L = "ledger C (as_config st)"
  obtain cost account k k1 v where
    cost: "calculate_tx_cost C (tx_receiver_id (st_transaction t)) (tx_signer_id (st_transaction t))
       (tx_actions (st_transaction t)) (as_config st) (as_gas_price st) = Ok cost"
    and acc: "get_account (ps_trie ps) (tx_signer_id (st_transaction t)) = Ok (Some account)"
    and key: "bt_get (t_access_keys (ps_trie ps))
       (tx_signer_id (st_transaction t), tx_public_key (st_transaction t)) = Some k"
    and v: "tx_verdict st t cost account k ps = Ok (ps, Some (k1, v))"
    and s: "settle_tx C st t cost account k1 v ps = Ok ps'"
    using assms(2) unfolding settles_def by blast
  note parts = cost_parts [OF cost]
  note ch = tx_verdict_charges [OF v conjunct1 [OF parts]]
  show ?thesis
  proof (cases v)
    case (Failed e)
    then have "ps' = tx_failed st t e ps" using s by (simp add: settle_tx_def)
    then show ?thesis using assms(1) by simp
  next
    case (DepositFailed r e)
    then have nonce: "\<exists>cur. ps_gas_key_nonces ps (tx_signer_id (st_transaction t), tx_public_key (st_transaction t), i)
        = Ok (Some cur)" if "gas_key_nonce_update r = Some (i, n)" for i n
      using verdict_nonce_cached [OF v _ that] by blast
    from DepositFailed obtain g
      where f: "finish_tx t account k1 r (failed_with_gas_burnt t e g (gas_cost cost)) ps = Ok ps'"
      using s by (auto simp: settle_tx_def result_simps)
    have c: "charges r account k k1 (unat (gas_cost cost))" using ch(2) [OF DepositFailed] by blast
    have "coherent ps' \<and> ?L ps' + 0 = ?L ps"
      by (rule charged_ledger [OF assms(1) acc key c nonce f])
        (use assms(3) in \<open>simp_all add: failed_with_gas_burnt_def\<close>)
    then show ?thesis by simp
  next
    case (Success r)
    then have nonce: "\<exists>cur. ps_gas_key_nonces ps (tx_signer_id (st_transaction t), tx_public_key (st_transaction t), i)
        = Ok (Some cur)" if "gas_key_nonce_update r = Some (i, n)" for i n
      using verdict_nonce_cached [OF v _ that] by blast
    from Success obtain ps1 rej where g: "patoshi_guard st t account r ps = Ok (ps1, rej)"
      using s by (auto simp: settle_tx_def result_simps)
    note fr = patoshi_guard_frame [OF g assms(1), of C "as_config st"]
    show ?thesis
    proof (cases rej)
      case (Some e)
      then have "ps' = tx_failed st t e ps1" using s Success g by (simp add: settle_tx_def)
      then show ?thesis using fr by simp
    next
      case None
      let ?rc = "tx_receipt C st t r"
      let ?ps2 = "emit_receipt (tx_signer_id (st_transaction t)) ?rc ps1"
      let ?carried = "unat (total_cost cost) - unat (burnt_amount cost)"
      have f: "finish_tx t account k1 r (success_outcome t r ?rc) ?ps2 = Ok ps'"
        using s Success g None by (simp add: settle_tx_def Let_def)
      have acc2: "get_account (ps_trie ?ps2) (tx_signer_id (st_transaction t)) = Ok (Some account)"
        using acc fr by (simp add: get_account_Ok)
      have val: "receipt_value C (as_config st) ?rc = ?carried"
        using tx_receipt_value [OF cost] ch(1) [OF Success] by simp
      have c: "charges r account k k1 (unat (total_cost cost))" and b: "vr_burnt_amount r = burnt_amount cost"
        using ch(1) [OF Success] by blast+
      have key2: "bt_get (t_access_keys (ps_trie ?ps2))
         (tx_signer_id (st_transaction t), tx_public_key (st_transaction t)) = Some k"
        using key fr by simp
      have nonce2: "\<exists>cur. ps_gas_key_nonces ?ps2 (tx_signer_id (st_transaction t), tx_public_key (st_transaction t), i)
        = Ok (Some cur)" if "gas_key_nonce_update r = Some (i, n)" for i n
        using nonce [OF that] fr by simp
      have coh2: "coherent ?ps2" using fr by simp
      have le: "unat (burnt_amount cost) \<le> unat (total_cost cost)" using parts by linarith
      have "coherent ps' \<and> ?L ps' + ?carried = ?L ?ps2"
        by (rule charged_ledger [OF coh2 acc2 key2 c nonce2 f])
          (use fr val assms(3) le b in \<open>simp_all add: success_outcome_def\<close>)
      then show ?thesis using fr val by simp
    qed
  qed
qed

lemma process_transaction_ledger:
  assumes "coherent ps" "process_transaction C st t invalid ps = Ok ps'" "ledger C (as_config st) ps < 2 ^ 128"
  shows "coherent ps' \<and> ledger C (as_config st) ps' = ledger C (as_config st) ps"
  using process_transaction_cases [OF assms(1,2)] settles_ledger assms(3) ledger_quiet quiet_coherent by metis

section \<open>Locked accounts keep their floor\<close>

text \<open>
  The account \<open>a\<close> is locked in the epoch, holds at least its genesis balance \<open>g\<close>, and every
  receipt it has issued beyond those in \<open>old\<close> consists of the actions allowed to a locked account.
\<close>

definition floored :: "EpochHeight \<Rightarrow> AccountId \<Rightarrow> Balance \<Rightarrow> Receipt set \<Rightarrow> ProcState \<Rightarrow> bool" where
  "floored epoch a g old ps \<longleftrightarrow>
     (\<exists>r acc. get_patoshi_record (ps_trie ps) a = Ok (Some r) \<and> genesis_balance r = g
        \<and> is_patoshi_locked r epoch
        \<and> bt_get (t_accounts (ps_trie ps)) a = Some acc \<and> unat g \<le> account_tokens acc)
     \<and> (\<forall>r \<in> set (ps_local_receipts ps) \<union> set (ps_forwarded ps) - old. r_predecessor_id r = a \<longrightarrow>
          (\<forall>x \<in> set (receipt_actions r). locked_action_ok a (r_receiver_id r) x))"

lemma record_of_parts:
  assumes "t_data s' = t_data s" "t_fault s' = t_fault s"
  shows "get_patoshi_record s' a = get_patoshi_record s a"
  using assms by (simp add: get_patoshi_record_def get_data_def trie_read_def)

lemma get_set_patoshi_other:
  "a \<noteq> b \<Longrightarrow> get_patoshi_record (set_patoshi_record b r s) a = get_patoshi_record s a"
  by (simp add: get_patoshi_record_def set_patoshi_record_def get_data_def trie_read_def bt_get_insert)

lemma record_fault:
  "get_patoshi_record s a = Ok v \<Longrightarrow> t_fault s (KContractData a PATOSHI_RECORD_DATA_KEY) = None"
  by (auto simp: get_patoshi_record_def get_data_def trie_read_def split: option.splits)

lemma floored_quiet: "quiet ps ps' \<Longrightarrow> floored e a g old ps \<Longrightarrow> floored e a g old ps'"
  using record_of_parts [of "ps_trie ps'" "ps_trie ps" a] by (simp add: quiet_def floored_def)

lemma floored_failed [simp]: "floored e a g old (tx_failed st t err ps) = floored e a g old ps"
  by (simp add: floored_def)

lemma scheduled_stays_locked:
  assumes "maybe_schedule_patoshi_unlock r rid as e = (r', ev)" "is_patoshi_locked r e" "e \<noteq> - 1"
  shows "is_patoshi_locked r' e \<and> genesis_balance r' = genesis_balance r"
proof -
  have "unat e < 2 ^ 64" "unat (- 1 :: u64) = 2 ^ 64 - 1" using unat_bound [of e] by (simp_all add: unat_max)
  moreover have "unat e \<noteq> unat (- 1 :: u64)" using assms(3) by (simp only: word_unat_eq_iff) simp
  ultimately have "unat e < 2 ^ 64 - 1" by linarith
  then have "e < saturating_add e PATOSHI_UNLOCK_DELAY_EPOCHS"
    by (simp add: word_less_nat_alt unat_saturating_add PATOSHI_UNLOCK_DELAY_EPOCHS_def)
  then show ?thesis
    using assms by (auto simp: maybe_schedule_patoshi_unlock_def is_patoshi_locked_def Let_def split: if_splits option.splits)
qed

lemma floored_finish:
  assumes "finish_tx t account k1 r out ps = Ok ps'" "floored e a g old ps"
    and "charges r account k k1 paid"
    and "tx_signer_id (st_transaction t) = a \<Longrightarrow> unat g \<le> unat (new_account_amount r) + unat (locked account)"
  shows "floored e a g old ps'"
  using assms(1)
proof (cases rule: finish_tx_cases)
  case 1
  then show ?thesis using assms(2) by simp
next
  case (2 account' k' b g' c)
  have "account_tokens account' = unat (new_account_amount r) + unat (locked account)"
    using 2(1) assms(3) by (auto simp: charges_def account_tokens_def)
  moreover have "get_patoshi_record (ps_trie ps') a = get_patoshi_record (ps_trie ps) a"
    using 2(3) by (intro record_of_parts) simp_all
  ultimately show ?thesis
    using assms(2,4) 2(3) by (auto simp: floored_def bt_get_insert)
qed

lemma floored_emit:
  assumes "floored e a g old ps"
    and "r_predecessor_id r = a \<Longrightarrow> \<forall>x \<in> set (receipt_actions r). locked_action_ok a (r_receiver_id r) x"
  shows "floored e a g old (emit_receipt sid r ps)"
  using assms by (auto simp: floored_def emit_receipt_def)

lemma floored_guard:
  assumes "patoshi_guard st t account r ps = Ok (ps1, rej)" "floored (as_epoch_height st) a g old ps"
    and "as_epoch_height st \<noteq> - 1"
  shows "floored (as_epoch_height st) a g old ps1"
    and "rej = None \<Longrightarrow> tx_signer_id (st_transaction t) = a \<Longrightarrow>
      unat g \<le> unat (new_account_amount r) + unat (locked account)
      \<and> (\<forall>x \<in> set (tx_actions (st_transaction t)). locked_action_ok a (tx_receiver_id (st_transaction t)) x)"
proof -
  let ?sid = "tx_signer_id (st_transaction t)" and ?e = "as_epoch_height st"
  obtain rec acc where rec: "get_patoshi_record (ps_trie ps) a = Ok (Some rec)" "genesis_balance rec = g"
    "is_patoshi_locked rec ?e"
    using assms(2) by (auto simp: floored_def)
  have sched: "floored ?e a g old (ps \<lparr> ps_trie := set_patoshi_record ?sid r2 (ps_trie ps) \<rparr>)"
    if "maybe_schedule_patoshi_unlock r1 rid as ?e = (r2, ev)"
      "get_patoshi_record (ps_trie ps) ?sid = Ok (Some r1)" for r1 r2 rid as ev
  proof (cases "?sid = a")
    case True
    then have "get_patoshi_record (set_patoshi_record ?sid r2 (ps_trie ps)) a = Ok (Some r2)"
      using get_set_patoshi_record [OF record_fault [OF rec(1)]] by simp
    moreover have "is_patoshi_locked r2 ?e \<and> genesis_balance r2 = g"
      using scheduled_stays_locked [OF that(1) _ assms(3)] True that(2) rec by simp
    ultimately show ?thesis using assms(2) by (auto simp: floored_def set_patoshi_record_def)
  next
    case False
    then show ?thesis
      using assms(2) get_set_patoshi_other [of a ?sid r2 "ps_trie ps"]
      by (simp add: floored_def) (simp add: set_patoshi_record_def)
  qed
  show "floored ?e a g old ps1"
    using assms(1) by (cases rule: patoshi_guard_cases) (use assms(2) sched in \<open>auto split: prod.splits option.splits\<close>)
  show "unat g \<le> unat (new_account_amount r) + unat (locked account)
      \<and> (\<forall>x \<in> set (tx_actions (st_transaction t)). locked_action_ok a (tx_receiver_id (st_transaction t)) x)"
    if "rej = None" "?sid = a"
    using assms(1)
  proof (cases rule: patoshi_guard_cases)
    case (guarded rec' total)
    then show ?thesis
      using rec that(2)
      by (auto simp: validate_locked_patoshi_transaction_def result_simps validate_locked_actions_iff
          checked_add_Some word_less_nat_alt split: if_splits)
  qed (use rec that in simp_all)
qed

lemma settles_floored:
  assumes "settles C st t ps ps'" "floored (as_epoch_height st) a g old ps" "as_epoch_height st \<noteq> - 1"
  shows "floored (as_epoch_height st) a g old ps'"
proof -
  obtain cost account k k1 v where
    cost: "calculate_tx_cost C (tx_receiver_id (st_transaction t)) (tx_signer_id (st_transaction t))
       (tx_actions (st_transaction t)) (as_config st) (as_gas_price st) = Ok cost"
    and acc: "get_account (ps_trie ps) (tx_signer_id (st_transaction t)) = Ok (Some account)"
    and v: "tx_verdict st t cost account k ps = Ok (ps, Some (k1, v))"
    and s: "settle_tx C st t cost account k1 v ps = Ok ps'"
    using assms(1) unfolding settles_def by blast
  note ch = tx_verdict_charges [OF v conjunct1 [OF cost_parts [OF cost]]]
  show ?thesis
  proof (cases v)
    case (Failed e)
    then have "ps' = tx_failed st t e ps" using s by (simp add: settle_tx_def)
    then show ?thesis using assms(2) by simp
  next
    case (DepositFailed r e)
    then obtain g' where f: "finish_tx t account k1 r (failed_with_gas_burnt t e g' (gas_cost cost)) ps = Ok ps'"
      using s by (auto simp: settle_tx_def result_simps)
    have c: "charges r account k k1 (unat (gas_cost cost))" "new_account_amount r = amount account"
      using ch(2) [OF DepositFailed] by blast+
    have "unat g \<le> unat (new_account_amount r) + unat (locked account)" if "tx_signer_id (st_transaction t) = a"
      using assms(2) acc that c(2) by (auto simp: floored_def get_account_Ok account_tokens_def)
    then show ?thesis by (rule floored_finish [OF f assms(2) c(1)])
  next
    case (Success r)
    then obtain ps1 rej where g: "patoshi_guard st t account r ps = Ok (ps1, rej)"
      using s by (auto simp: settle_tx_def result_simps)
    note fl = floored_guard [OF g assms(2,3)]
    show ?thesis
    proof (cases rej)
      case (Some e)
      then have "ps' = tx_failed st t e ps1" using s Success g by (simp add: settle_tx_def)
      then show ?thesis using fl(1) by simp
    next
      case None
      let ?rc = "tx_receipt C st t r"
      have f: "finish_tx t account k1 r (success_outcome t r ?rc)
          (emit_receipt (tx_signer_id (st_transaction t)) ?rc ps1) = Ok ps'"
        using s Success g None by (simp add: settle_tx_def Let_def)
      have c: "charges r account k k1 (unat (total_cost cost))" using ch(1) [OF Success] by blast
      have "floored (as_epoch_height st) a g old (emit_receipt (tx_signer_id (st_transaction t)) ?rc ps1)"
        using fl(2) [OF None]
        by (intro floored_emit [OF fl(1)]) (auto simp: tx_receipt_def Let_def receipt_from_tx_def receipt_actions_def action_receipt_def)
      then show ?thesis by (rule floored_finish [OF f _ c]) (use fl(2) [OF None] in blast)
    qed
  qed
qed

section \<open>Properties\<close>

text \<open>
  Concrete objects for the witnesses: a locked account with a floor of 900 sends 5 tokens to the
  foundation.
\<close>

definition l_signed :: SignedTransaction where
  "l_signed = \<lparr> st_transaction = TxV0 \<lparr> v0_signer_id = ''alice'', v0_public_key = ED25519 [1], v0_nonce = 5,
       v0_receiver_id = ''near'', v0_block_hash = [], v0_actions = [Transfer 5] \<rparr>,
     st_signature = SigED25519 [], st_hash = [7], st_size = 9 \<rparr>"

definition l_state :: ApplyState where
  "l_state = \<lparr> as_block_height = 9, as_prev_block_hash = [], as_shard_id = 0, as_epoch_height = 3, as_gas_price = 10, as_protocol_version = 84,
     as_config = unit_config \<rparr>"

definition l_record :: PatoshiRecord where
  "l_record = \<lparr> genesis_balance = 900, is_locked = True, unlock_epoch = None \<rparr>"

definition l_trie :: TrieUpdate where
  "l_trie = set_patoshi_record ''alice'' l_record
     (set_access_key ''alice'' (ED25519 [1]) (full_access \<lparr> ak_nonce := 4 \<rparr>)
       (set_account ''alice'' w_account w_empty))"

definition l_start :: ProcState where
  "l_start = prefetch l_trie \<lparr> ps_trie = w_empty, ps_accounts = (\<lambda>_. Ok None), ps_access_keys = (\<lambda>_. Ok None),
     ps_gas_key_nonces = (\<lambda>_. Ok None), ps_outcomes = [], ps_local_receipts = [], ps_forwarded = [],
     ps_tx_burnt_amount = 0, ps_total_gas = 0, ps_total_compute = 0 \<rparr>"

lemma l_start_coherent: "coherent l_start"
  unfolding l_start_def
  by (rule coherent_prefetch) (simp add: l_trie_def set_patoshi_record_def trie_inv_def w_empty_def trie_ops bt_inv_def)

lemma l_start_tokens: "ledger toy_crypto unit_config l_start = 1050"
  by (simp add: ledger_def l_start_def prefetch_def l_trie_def set_patoshi_record_def state_tokens_def
      w_empty_def trie_ops w_account_def account_tokens_def)

lemma l_cost:
  "calculate_tx_cost toy_crypto ''near'' ''alice'' [Transfer 5] unit_config 10
     = Ok \<lparr> gas_burnt = 2, gas_remaining = 2, receipt_gas_price = 10, burnt_amount = 20, gas_cost = 40,
         deposit_cost = 5, total_cost = 45 \<rparr>"
proof -
  have "get_account_type toy_crypto ''near'' = NamedAccount"
    by (simp add: get_account_type_def is_bitcoin_implicit_def has_valid_base58check_address_def
        has_valid_segwit_address_def is_legacy_lowercased_bitcoin_def starts_with_def
        is_eth_implicit_def is_near_implicit_def is_near_deterministic_def toy_crypto_def)
  then show ?thesis
    by (simp add: calculate_tx_cost_def transfer_fee_of_def unit_config_def unit_fee_def
        send_fee_def checked_ops checked_add_def checked_mul_def exec_fee_def Let_def)
qed

lemma l_record_read: "get_patoshi_record l_trie ''alice'' = Ok (Some l_record)"
  unfolding l_trie_def by (rule get_set_patoshi_record) (simp add: w_empty_def)

lemma l_start_floored: "floored 3 ''alice'' 900 {} l_start"
  by (simp add: floored_def l_start_def prefetch_def l_record_read)
    (simp add: l_record_def is_patoshi_locked_def l_trie_def set_patoshi_record_def w_empty_def trie_ops
      w_account_def account_tokens_def)

lemma l_verdict:
  "tx_verdict l_state l_signed \<lparr> gas_burnt = 2, gas_remaining = 2, receipt_gas_price = 10, burnt_amount = 20,
       gas_cost = 40, deposit_cost = 5, total_cost = 45 \<rparr> w_account (full_access \<lparr> ak_nonce := 4 \<rparr>) l_start
     = Ok (l_start, Some (full_access \<lparr> ak_nonce := 4 \<rparr>, Success \<lparr> vr_gas_burnt = 2, vr_gas_remaining = 2,
         vr_receipt_gas_price = 10, vr_burnt_amount = 20, new_account_amount = 955,
         access_key_update = Regular 5 None \<rparr>))"
  using w_stake [of 955] unfolding tx_verdict_def verify_and_charge_tx_ephemeral_def
  by (simp add: l_state_def l_signed_def w_account_def full_access_def gas_key_info_def verify_nonce_def
      saturating_mul_def ACCESS_KEY_NONCE_RANGE_MULTIPLIER_def checked_sub_def
      check_and_compute_new_allowance_def legacy_key_def feature_enabled_def)

lemma l_reads:
  "ps_accounts l_start ''alice'' = Ok (Some w_account)"
  "ps_access_keys l_start (''alice'', ED25519 [1]) = Ok (Some (full_access \<lparr> ak_nonce := 4 \<rparr>))"
  "ps_trie l_start = l_trie" "ps_tx_burnt_amount l_start = 0" "ps_total_gas l_start = 0"
  "ps_total_compute l_start = 0" "ps_forwarded l_start = []"
  by (simp_all add: l_start_def prefetch_def get_account_def get_access_key_def trie_read_def l_trie_def
      set_patoshi_record_def w_empty_def bt_get_insert)

lemma l_guard:
  "patoshi_guard l_state l_signed w_account \<lparr> vr_gas_burnt = 2, vr_gas_remaining = 2,
         vr_receipt_gas_price = 10, vr_burnt_amount = 20, new_account_amount = 955,
         access_key_update = Regular 5 None \<rparr> l_start = Ok (l_start, None)"
  by (simp add: patoshi_guard_def l_reads l_record_read l_signed_def l_state_def w_account_def checked_add_def
      validate_locked_patoshi_transaction_def validate_locked_action_def foundation_account_id_def
      FOUNDATION_ACCOUNT_ID_def l_record_def maybe_schedule_patoshi_unlock_def is_patoshi_unlock_trigger_def
      is_patoshi_locked_def Let_def)

lemma l_run:
  "\<exists>ps'. process_transactions toy_crypto l_state [(l_signed, None)] l_start = Ok ps'
     \<and> unat (ps_tx_burnt_amount ps') = 20 \<and> length (ps_forwarded ps') = 1"
proof -
  have "tx_receiver_id (st_transaction l_signed) = ''near''" "tx_signer_id (st_transaction l_signed) = ''alice''"
    "tx_actions (st_transaction l_signed) = [Transfer 5]" "tx_public_key (st_transaction l_signed) = ED25519 [1]"
    "as_config l_state = unit_config" "as_gas_price l_state = 10"
    by (simp_all add: l_signed_def l_state_def)
  note parts = this
  show ?thesis
    by (simp add: process_transaction_def parts l_cost l_reads recover_key_def lookup_key_def l_verdict
        settle_tx_def l_guard)
      (simp add: finish_tx_def emit_receipt_def tx_receipt_def receipt_from_tx_def success_outcome_def parts l_reads
        safe_add_balance_def checked_add_def vr_apply_def gas_key_nonce_update_def Let_def)
qed

text \<open>
  C3: Turning the transactions of a chunk into receipts creates and destroys no tokens. From a
  state whose caches agree with the trie, whatever the transactions are and however they end
  (rejected, key registered, charged by an account or by a gas key, deposit not covered), the
  tokens in the state plus the tokens burnt plus the tokens that the receipts carry stay the
  same, and the caches still agree with the trie. The bound says that the tokens that exist
  fit in 128 bits, which rules out the overflow branch that drops a charge.
\<close>

theorem chunk_conserves_tokens:
  assumes "coherent ps" "process_transactions C st ts ps = Ok ps'"
    and "ledger C (as_config st) ps < 2 ^ 128"
  shows "coherent ps' \<and> ledger C (as_config st) ps' = ledger C (as_config st) ps"
  using assms
proof (induction ts arbitrary: ps)
  case (Cons tv ts)
  obtain t invalid where tv: "tv = (t, invalid)" by (cases tv)
  obtain ps1 where p: "process_transaction C st t invalid ps = Ok ps1" "process_transactions C st ts ps1 = Ok ps'"
    using Cons.prems(2) tv by (auto simp: result_simps)
  note process_transaction_ledger [OF Cons.prems(1) p(1) Cons.prems(3)]
  then show ?case using Cons.IH [OF _ p(2)] Cons.prems(3) by simp
qed simp

theorem chunk_conserves_tokens_witness:
  "\<exists>ps'. process_transactions toy_crypto l_state [(l_signed, None)] l_start = Ok ps'
     \<and> unat (ps_tx_burnt_amount ps') = 20 \<and> length (ps_forwarded ps') = 1
     \<and> ledger toy_crypto unit_config ps' = 1050"
proof -
  obtain ps' where r: "process_transactions toy_crypto l_state [(l_signed, None)] l_start = Ok ps'"
    "unat (ps_tx_burnt_amount ps') = 20" "length (ps_forwarded ps') = 1"
    using l_run by blast
  have "as_config l_state = unit_config" by (simp add: l_state_def)
  then show ?thesis
    using r chunk_conserves_tokens [OF l_start_coherent r(1)] l_start_tokens by simp
qed

text \<open>
  C4: A locked Patoshi account keeps its floor through a chunk. If the account is locked in the
  epoch and holds at least its genesis balance (liquid and staked) before the chunk, then
  after it the account is still locked with the same floor, holds at least that much, and
  every receipt it has issued only stakes on itself or transfers to the foundation: that
  holds for ordinary keys and gas keys, and also when a transaction of the chunk schedules the
  unlock.
\<close>

theorem locked_account_keeps_floor:
  assumes "coherent ps" "process_transactions C st ts ps = Ok ps'"
    and "ledger C (as_config st) ps < 2 ^ 128"
    and "floored (as_epoch_height st) a g old ps" "as_epoch_height st \<noteq> - 1"
  shows "floored (as_epoch_height st) a g old ps'"
  using assms(1-4)
proof (induction ts arbitrary: ps)
  case (Cons tv ts)
  obtain t invalid where tv: "tv = (t, invalid)" by (cases tv)
  obtain ps1 where p: "process_transaction C st t invalid ps = Ok ps1" "process_transactions C st ts ps1 = Ok ps'"
    using Cons.prems(2) tv by (auto simp: result_simps)
  have "floored (as_epoch_height st) a g old ps1"
    using process_transaction_cases [OF Cons.prems(1) p(1)] settles_floored [OF _ _ assms(5)]
      floored_quiet Cons.prems(4) by metis
  moreover note process_transaction_ledger [OF Cons.prems(1) p(1) Cons.prems(3)]
  ultimately show ?case using Cons.IH [OF _ p(2)] Cons.prems(3) by simp
qed simp

theorem locked_account_keeps_floor_witness:
  "\<exists>ps'. process_transactions toy_crypto l_state [(l_signed, None)] l_start = Ok ps'
     \<and> length (ps_forwarded ps') = 1 \<and> floored 3 ''alice'' 900 {} ps'"
proof -
  obtain ps' where r: "process_transactions toy_crypto l_state [(l_signed, None)] l_start = Ok ps'"
    "length (ps_forwarded ps') = 1"
    using l_run by blast
  have "as_config l_state = unit_config" "as_epoch_height l_state = 3" "as_epoch_height l_state \<noteq> - 1"
    by (simp_all add: l_state_def)
  then show ?thesis
    using r locked_account_keeps_floor [OF l_start_coherent r(1), of "''alice''" 900 "{}"] l_start_tokens
      l_start_floored by simp
qed

end
