(* ===== verification/Validator_Accounts.thy ===== *)
theory Validator_Accounts
  imports Patoshi
begin

text \<open>
  The update of validator accounts at the start of an epoch: \<open>update_validator_accounts\<close> of
  \<open>runtime/runtime/src/lib.rs\<close>, which pays the rewards into the stakes, returns the stake that is
  no longer needed, pays the treasury and then runs the Patoshi sweep. The source iterates
  over a hash map; here the map is the list of its entries, in the order of the iteration.
\<close>

record ValidatorAccountsUpdate =
  stake_info :: "(AccountId \<times> Balance) list"
  validator_rewards :: "AccountId \<rightharpoonup> Balance"
  last_proposals :: "AccountId \<rightharpoonup> Balance"
  protocol_treasury_account_id :: "AccountId option"

section \<open>The update\<close>

definition last_proposal :: "ValidatorAccountsUpdate \<Rightarrow> AccountId \<Rightarrow> Balance" where
  "last_proposal u account_id = (case last_proposals u account_id of Some b \<Rightarrow> b | None \<Rightarrow> 0)"

definition staking_invariant_error :: "AccountId \<Rightarrow> RuntimeError" where
  "staking_invariant_error account_id =
     RStorageError (StorageInconsistentState (''FATAL: staking invariant does not hold. Account '' @ account_id))"

definition update_validator_account ::
  "ValidatorAccountsUpdate \<Rightarrow> AccountId \<Rightarrow> Balance \<Rightarrow> Account \<Rightarrow> (Account, RuntimeError) result" where
  "update_validator_account u account_id max_of_stakes account =
     result_bind (case validator_rewards u account_id of
         Some reward \<Rightarrow> ok_or (checked_add (locked account) reward) (UnexpectedIntegerOverflow ''update_validator_accounts'')
       | None \<Rightarrow> Ok (locked account)) (\<lambda>with_reward.
     if with_reward < max_of_stakes then Err (staking_invariant_error account_id)
     else
       result_bind (ok_or (checked_sub with_reward (max max_of_stakes (last_proposal u account_id)))
           (UnexpectedIntegerOverflow ''update_validator_accounts - return stake'')) (\<lambda>return_stake.
       result_bind (ok_or (checked_sub with_reward return_stake)
           (UnexpectedIntegerOverflow ''update_validator_accounts - set_locked'')) (\<lambda>new_locked.
       result_bind (ok_or (checked_add (amount account) return_stake)
           (UnexpectedIntegerOverflow ''update_validator_accounts - set_amount'')) (\<lambda>new_amount.
         Ok (set_amount new_amount (set_locked new_locked account))))))"

fun update_stakes ::
  "ValidatorAccountsUpdate \<Rightarrow> (AccountId \<times> Balance) list \<Rightarrow> TrieUpdate \<Rightarrow> (TrieUpdate, RuntimeError) result" where
  "update_stakes u [] s = Ok s"
| "update_stakes u ((account_id, max_of_stakes) # rest) s =
     result_bind (map_err RStorageError (get_account s account_id)) (\<lambda>account.
       case account of
         Some a \<Rightarrow>
           result_bind (update_validator_account u account_id max_of_stakes a) (\<lambda>a'.
             update_stakes u rest (set_account account_id a' s))
       | None \<Rightarrow>
           if 0 < max_of_stakes
           then Err (RStorageError (StorageInconsistentState (''Account '' @ account_id @ '' is not found'')))
           else update_stakes u rest s)"

definition pay_treasury ::
  "ValidatorAccountsUpdate \<Rightarrow> TrieUpdate \<Rightarrow> (TrieUpdate, RuntimeError) result" where
  "pay_treasury u s =
     (case protocol_treasury_account_id u of
        None \<Rightarrow> Ok s
      | Some account_id \<Rightarrow>
          if account_id \<in> set (map fst (stake_info u)) then Ok s
          else
            result_bind (map_err RStorageError (get_account s account_id)) (\<lambda>account.
              case account of
                None \<Rightarrow> Err (RStorageError (StorageInconsistentState
                  (''Protocol treasury account '' @ account_id @ '' is not found'')))
              | Some a \<Rightarrow>
                  (case validator_rewards u account_id of
                     None \<Rightarrow> Err (RStorageError (StorageInconsistentState
                       (''Validator reward for the protocol treasury account '' @ account_id @ '' is not found'')))
                   | Some treasury_reward \<Rightarrow>
                       result_bind (ok_or (checked_add (amount a) treasury_reward)
                           (UnexpectedIntegerOverflow ''update_validator_accounts - treasure_reward'')) (\<lambda>b.
                         Ok (set_account account_id (set_amount b a) s)))))"

definition update_validator_accounts ::
  "'e crypto_scheme \<Rightarrow> ValidatorAccountsUpdate \<Rightarrow> EpochHeight \<Rightarrow> TrieUpdate \<Rightarrow> (TrieUpdate, RuntimeError) result" where
  "update_validator_accounts C u epoch_height s =
     result_bind (update_stakes u (stake_info u) s) (\<lambda>s1.
     result_bind (pay_treasury u s1) (\<lambda>s2.
       sweep_patoshi_excess C epoch_height s2))"

section \<open>Each step\<close>

definition reward_of :: "ValidatorAccountsUpdate \<Rightarrow> AccountId \<Rightarrow> nat" where
  "reward_of u aid = (case validator_rewards u aid of Some r \<Rightarrow> unat r | None \<Rightarrow> 0)"

lemma update_account_spec:
  assumes "update_validator_account u aid m a = Ok a'"
  shows "locked a' = max m (last_proposal u aid) \<and> account_tokens a' = account_tokens a + reward_of u aid"
proof -
  obtain w where c: "(case validator_rewards u aid of
         Some reward \<Rightarrow> ok_or (checked_add (locked a) reward) (UnexpectedIntegerOverflow ''update_validator_accounts'')
       | None \<Rightarrow> Ok (locked a)) = Ok w"
    using assms unfolding update_validator_account_def result_bind_Ok by blast
  then have w: "unat w = unat (locked a) + reward_of u aid"
    by (auto simp: reward_of_def ok_or_Ok checked_add_Some split: option.splits)
  obtain r l n where r: "checked_sub w (max m (last_proposal u aid)) = Some r" "checked_sub w r = Some l"
    "checked_add (amount a) r = Some n" "a' = set_amount n (set_locked l a)"
    using assms c by (auto simp: update_validator_account_def result_bind_Ok ok_or_Ok split: if_splits)
  note r = r [unfolded checked_sub_Some checked_add_Some]
  have "unat l = unat (max m (last_proposal u aid))" using r by linarith
  then have "l = max m (last_proposal u aid)" by (simp add: word_unat_eq_iff)
  then show ?thesis using r w by (simp add: account_tokens_def)
qed

fun stake_rewards :: "ValidatorAccountsUpdate \<Rightarrow> TrieUpdate \<Rightarrow> (AccountId \<times> Balance) list \<Rightarrow> nat" where
  "stake_rewards u s [] = 0"
| "stake_rewards u s ((aid, _) # rest) =
     (if bt_get (t_accounts s) aid = None then 0 else reward_of u aid) + stake_rewards u s rest"

lemma stake_rewards_frame:
  "aid \<notin> set (map fst xs) \<Longrightarrow> stake_rewards u (set_account aid a s) xs = stake_rewards u s xs"
  by (induction xs) (auto simp: bt_get_insert)

lemma update_stakes_spec:
  assumes "update_stakes u xs s = Ok s'" "trie_inv s" "distinct (map fst xs)"
  shows "trie_inv s' \<and> t_data s' = t_data s \<and> t_fault s' = t_fault s
    \<and> state_tokens s' = state_tokens s + stake_rewards u s xs
    \<and> (\<forall>x. x \<notin> set (map fst xs) \<longrightarrow> bt_get (t_accounts s') x = bt_get (t_accounts s) x)
    \<and> (\<forall>x m a. (x, m) \<in> set xs \<and> bt_get (t_accounts s) x = Some a \<longrightarrow>
        (\<exists>a'. bt_get (t_accounts s') x = Some a' \<and> locked a' = max m (last_proposal u x)
          \<and> account_tokens a' = account_tokens a + reward_of u x))"
  using assms
proof (induction xs arbitrary: s)
  case (Cons e xs)
  obtain aid m where e: "e = (aid, m)" by (cases e)
  have new: "aid \<notin> set (map fst xs)" "distinct (map fst xs)" using Cons.prems(3) e by auto
  show ?case
  proof (cases "bt_get (t_accounts s) aid")
    case None
    then have "update_stakes u xs s = Ok s'"
      using Cons.prems(1) e by (auto simp: result_bind_Ok map_err_Ok get_account_Ok split: if_splits)
    from Cons.IH [OF this Cons.prems(2) new(2)] show ?thesis using None e new(1) by auto
  next
    case (Some a)
    then obtain a' where a': "update_validator_account u aid m a = Ok a'" "update_stakes u xs (set_account aid a' s) = Ok s'"
      using Cons.prems(1) e by (auto simp: result_bind_Ok map_err_Ok get_account_Ok)
    have inv: "trie_inv (set_account aid a' s)" using Cons.prems(2) by simp
    note IH = Cons.IH [OF a'(2) inv new(2)] and spec = update_account_spec [OF a'(1)]
    have "bt_get (t_accounts s') aid = Some a'" using IH new(1) by (auto simp: bt_get_insert)
    moreover have "x \<noteq> aid" if "(x, k) \<in> set xs" for x k using that new(1) by force
    ultimately show ?thesis
      using IH spec new state_tokens_set_account [OF Some Cons.prems(2), of a'] Some
      by (auto simp: e bt_get_insert stake_rewards_frame)
  qed
qed simp

definition treasury_reward_due :: "ValidatorAccountsUpdate \<Rightarrow> nat" where
  "treasury_reward_due u = (case protocol_treasury_account_id u of
     Some t \<Rightarrow> if t \<in> set (map fst (stake_info u)) then 0 else reward_of u t | None \<Rightarrow> 0)"

lemma pay_treasury_spec:
  assumes "pay_treasury u s = Ok s'" "trie_inv s"
  shows "trie_inv s' \<and> t_data s' = t_data s \<and> t_fault s' = t_fault s
    \<and> state_tokens s' = state_tokens s + treasury_reward_due u
    \<and> (\<forall>x a. bt_get (t_accounts s) x = Some a \<longrightarrow> (\<exists>a'. bt_get (t_accounts s') x = Some a'
        \<and> locked a' = locked a \<and> account_tokens a \<le> account_tokens a'))"
proof (cases "\<exists>t. protocol_treasury_account_id u = Some t \<and> t \<notin> set (map fst (stake_info u))")
  case False
  then have "s' = s" "treasury_reward_due u = 0"
    using assms(1) by (auto simp: pay_treasury_def treasury_reward_due_def split: option.splits)
  then show ?thesis using assms(2) by auto
next
  case True
  then obtain t where t: "protocol_treasury_account_id u = Some t" "t \<notin> set (map fst (stake_info u))" by blast
  obtain a r b where a: "bt_get (t_accounts s) t = Some a" "validator_rewards u t = Some r"
    "checked_add (amount a) r = Some b" "s' = set_account t (set_amount b a) s"
    using assms(1) t by (auto simp: pay_treasury_def result_bind_Ok map_err_Ok ok_or_Ok get_account_Ok split: option.splits)
  then show ?thesis
    using state_tokens_set_account [OF a(1) assms(2), of "set_amount b a"] t assms(2)
    by (auto simp: treasury_reward_due_def reward_of_def account_tokens_def checked_add_Some bt_get_insert)
qed

lemma sweep_keeps_stake:
  assumes "trie_inv s" "bt_sum account_tokens (t_accounts s) < 2 ^ 128"
    and "sweep_patoshi_excess C epoch s = Ok s'" "bt_get (t_accounts s) x = Some a"
  shows "\<exists>a'. bt_get (t_accounts s') x = Some a' \<and> locked a' = locked a"
proof -
  obtain idx where idx: "get_patoshi_index C s = Ok idx"
    using assms(3) by (auto simp: sweep_patoshi_excess_def result_bind_Ok map_err_Ok)
  have swept: "bt_get (t_accounts s1) x = Some (if x \<in> set idx then swept s epoch x a else a)"
    if "sweep_accounts epoch idx s 0 = Ok (s1, t)" for s1 t
    by (rule sweep_accounts_each [OF assms(1,2) that assms(4)])
  from assms(3) idx show ?thesis
  proof (cases rule: sweep_patoshi_cases)
    case (none s1 tot)
    then show ?thesis using swept [OF none(1)] by (simp add: swept_def)
  next
    case (credit s1 tot f am)
    then show ?thesis using swept [OF credit(1)] by (auto simp: swept_def bt_get_insert)
  qed
qed

lemma patoshi_reads_frame:
  assumes "t_data s' = t_data s" "t_fault s' = t_fault s"
  shows "get_patoshi_record s' x = get_patoshi_record s x" "get_patoshi_index C s' = get_patoshi_index C s"
  using assms by (simp_all add: get_patoshi_record_def get_patoshi_index_def get_data_def trie_read_def)

section \<open>Property\<close>

text \<open>
  C6: The update of the validator accounts at an epoch boundary mints exactly the rewards. The
  tokens in the state grow by the rewards of the validators that exist and of a treasury that
  does not stake; every validator ends with exactly the larger of its maximal recent stake and its
  last proposal staked, the rest being returned to its balance; and a locked Patoshi account
  that held its genesis balance still holds it, staking included. The bound says that the tokens fit in
  128 bits.
\<close>

theorem epoch_update_pays_rewards:
  assumes "update_validator_accounts C u epoch s = Ok s'" "trie_inv s" "distinct (map fst (stake_info u))"
    and "state_tokens s + stake_rewards u s (stake_info u) + treasury_reward_due u < 2 ^ 128"
  shows "trie_inv s' \<and> state_tokens s' = state_tokens s + stake_rewards u s (stake_info u) + treasury_reward_due u
    \<and> (\<forall>x m a. (x, m) \<in> set (stake_info u) \<and> bt_get (t_accounts s) x = Some a \<longrightarrow>
        (\<exists>a'. bt_get (t_accounts s') x = Some a' \<and> locked a' = max m (last_proposal u x)))
    \<and> (\<forall>idx x a r. get_patoshi_index C s = Ok idx \<and> x \<in> set idx \<and> x \<noteq> foundation_account_id
        \<and> get_patoshi_record s x = Ok (Some r) \<and> is_patoshi_locked r epoch
        \<and> bt_get (t_accounts s) x = Some a \<and> unat (genesis_balance r) \<le> account_tokens a \<longrightarrow>
        (\<exists>a'. bt_get (t_accounts s') x = Some a' \<and> unat (genesis_balance r) \<le> account_tokens a'))"
proof -
  obtain s1 s2 where s1: "update_stakes u (stake_info u) s = Ok s1" and s2: "pay_treasury u s1 = Ok s2"
    and sw: "sweep_patoshi_excess C epoch s2 = Ok s'"
    using assms(1) by (auto simp: update_validator_accounts_def result_bind_Ok)
  note st = update_stakes_spec [OF s1 assms(2,3)]
  then have inv1: "trie_inv s1" by blast
  have each: "\<exists>a'. bt_get (t_accounts s1) x = Some a' \<and> locked a' = max m (last_proposal u x)
      \<and> account_tokens a' = account_tokens a + reward_of u x"
    if "(x, m) \<in> set (stake_info u)" "bt_get (t_accounts s) x = Some a" for x m a
    using st that by blast
  note tr = pay_treasury_spec [OF s2 inv1]
  have inv2: "trie_inv s2" using tr by blast
  have fits: "bt_sum account_tokens (t_accounts s2) < 2 ^ 128"
    using assms(4) st tr by (simp add: state_tokens_def)
  obtain idx where idx: "get_patoshi_index C s2 = Ok idx"
    using sw by (auto simp: sweep_patoshi_excess_def result_bind_Ok map_err_Ok)
  have keep: "\<exists>a2. bt_get (t_accounts s2) x = Some a2 \<and> account_tokens a \<le> account_tokens a2"
    if "bt_get (t_accounts s) x = Some a" for x a
  proof -
    have "\<exists>a1. bt_get (t_accounts s1) x = Some a1 \<and> account_tokens a \<le> account_tokens a1"
    proof (cases "x \<in> set (map fst (stake_info u))")
      case True
      then obtain m where "(x, m) \<in> set (stake_info u)" by auto
      from each [OF this that] show ?thesis by auto
    next
      case False
      then have "bt_get (t_accounts s1) x = Some a" using st that by metis
      then show ?thesis by simp
    qed
    then show ?thesis using tr by (meson order_trans)
  qed
  have floor: "\<exists>a'. bt_get (t_accounts s') x = Some a' \<and> unat (genesis_balance r) \<le> account_tokens a'"
    if x: "x \<in> set idx" "x \<noteq> foundation_account_id" "get_patoshi_record s x = Ok (Some r)" "is_patoshi_locked r epoch"
      "bt_get (t_accounts s) x = Some a" "unat (genesis_balance r) \<le> account_tokens a" for x a r
  proof -
    obtain a2 where a2: "bt_get (t_accounts s2) x = Some a2" "account_tokens a \<le> account_tokens a2"
      using keep [OF x(5)] by blast
    have r2: "get_patoshi_record s2 x = Ok (Some r)" using x(3) st tr patoshi_reads_frame(1) by metis
    have "account_tokens a2 < 2 ^ 128" using bt_sum_member [OF a2(1), of account_tokens] fits by simp
    from swept_tokens [OF this r2 x(4)] sweep_patoshi_account [OF inv2 fits sw idx a2(1) x(2)]
    show ?thesis using x(1,6) a2(2) by auto
  qed
  have stakes: "\<exists>a'. bt_get (t_accounts s') x = Some a' \<and> locked a' = max m (last_proposal u x)"
    if v: "(x, m) \<in> set (stake_info u)" "bt_get (t_accounts s) x = Some a" for x m a
  proof -
    obtain a1 where "bt_get (t_accounts s1) x = Some a1" "locked a1 = max m (last_proposal u x)"
      using each [OF v] by blast
    then obtain a2 where "bt_get (t_accounts s2) x = Some a2" "locked a2 = max m (last_proposal u x)"
      using tr by metis
    then show ?thesis using sweep_keeps_stake [OF inv2 fits sw] by metis
  qed
  have "get_patoshi_index C s = Ok idx" using idx st tr patoshi_reads_frame(2) by metis
  then show ?thesis
    using sweep_patoshi_conserves [OF inv2 sw idx] st tr floor stakes by simp
qed

definition v_update :: ValidatorAccountsUpdate where
  "v_update = \<lparr> stake_info = [(''near'', 5)], validator_rewards = [''near'' \<mapsto> 7], last_proposals = Map.empty,
     protocol_treasury_account_id = None \<rparr>"

definition v_near :: Account where
  "v_near = set_amount 12 (set_locked 5 (wit_account 10))"

lemma v_stakes: "update_stakes v_update (stake_info v_update) wit_trie = Ok (set_account ''near'' v_near wit_trie)"
proof -
  have "get_account wit_trie ''near'' = Ok (Some (wit_account 10))"
    by (simp add: get_account_def trie_read_def wit_trie_def)
  moreover have "update_validator_account v_update ''near'' 5 (wit_account 10) = Ok v_near"
    by (simp add: update_validator_account_def v_update_def v_near_def wit_account_def last_proposal_def
        checked_add_def checked_sub_def max_def)
  ultimately show ?thesis by (simp add: v_update_def)
qed

lemma v_reads:
  "get_patoshi_record (set_account ''near'' v_near wit_trie) ''alice'' = Ok (Some wit_record)"
  "get_patoshi_index toy_crypto (set_account ''near'' v_near wit_trie) = Ok [''alice'']"
  using wit_record_read wit_index_read
    patoshi_reads_frame(1) [of "set_account ''near'' v_near wit_trie" wit_trie]
    patoshi_reads_frame(2) [of "set_account ''near'' v_near wit_trie" wit_trie toy_crypto] by simp_all

lemma v_sweep:
  "\<exists>s'. sweep_patoshi_excess toy_crypto 3 (set_account ''near'' v_near wit_trie) = Ok s'"
proof -
  let ?s = "set_account ''near'' v_near wit_trie"
  have "get_account ?s ''alice'' = Ok (Some (wit_account 150))"
    by (simp add: get_account_Ok bt_get_insert) (simp add: wit_trie_def)
  moreover have "get_account (set_account ''alice'' (wit_account 100) ?s) ''near'' = Ok (Some v_near)"
    by (simp add: get_account_Ok bt_get_insert) (simp add: wit_trie_def)
  moreover have "is_patoshi_locked wit_record 3" by (simp add: is_patoshi_locked_def wit_record_def)
  moreover have "compute_patoshi_sweep 150 0 100 = (50, 0)"
    by (simp add: compute_patoshi_sweep_def saturating_add_def saturating_sub_def min_def)
  ultimately show ?thesis
    using v_reads
    by (simp add: sweep_patoshi_excess_def foundation_account_id_def FOUNDATION_ACCOUNT_ID_def
        wit_account_def wit_record_def v_near_def checked_sub_def checked_add_def)
qed

theorem epoch_update_pays_rewards_witness:
  "\<exists>s' a'. update_validator_accounts toy_crypto v_update 3 wit_trie = Ok s'
     \<and> state_tokens s' = state_tokens wit_trie + 7
     \<and> bt_get (t_accounts s') ''near'' = Some a' \<and> locked a' = 5"
proof -
  obtain s' where run: "update_validator_accounts toy_crypto v_update 3 wit_trie = Ok s'"
  proof -
    have "pay_treasury v_update s = Ok s" for s by (simp add: pay_treasury_def v_update_def)
    then show thesis using that v_sweep by (auto simp: update_validator_accounts_def v_stakes)
  qed
  have near: "bt_get (t_accounts wit_trie) ''near'' = Some (wit_account 10)" by (simp add: wit_trie_def)
  have paid: "stake_rewards v_update wit_trie (stake_info v_update) = 7" "treasury_reward_due v_update = 0"
    using near by (simp_all add: v_update_def reward_of_def treasury_reward_due_def)
  have d: "distinct (map fst (stake_info v_update))" by (simp add: v_update_def)
  have b: "state_tokens wit_trie + stake_rewards v_update wit_trie (stake_info v_update) + treasury_reward_due v_update < 2 ^ 128"
    unfolding paid by (simp add: state_tokens_def wit_trie_def wit_account_def account_tokens_def)
  have m: "(''near'', 5) \<in> set (stake_info v_update)" "max 5 (last_proposal v_update ''near'') = 5"
    by (simp_all add: v_update_def last_proposal_def)
  note all = epoch_update_pays_rewards [OF run wit_trie_ok(1) d b]
  obtain a' where "bt_get (t_accounts s') ''near'' = Some a'" "locked a' = 5"
    using all [THEN conjunct2, THEN conjunct2, THEN conjunct1, rule_format, OF conjI [OF m(1) near]]
    unfolding m(2) by blast
  moreover have "state_tokens s' = state_tokens wit_trie + 7"
    using all [THEN conjunct2, THEN conjunct1] paid by simp
  ultimately show ?thesis using run by blast
qed

end
