(* ===== verification/Access_Keys.thy ===== *)
theory Access_Keys
  imports Verifier Borsh_Tx
begin

text \<open>
  The actions on access keys and gas keys: \<open>runtime/runtime/src/access_keys.rs\<close>. An operation
  takes the state, the account of the receipt and the result so far, and returns them updated;
  an action that fails records its error in the result and leaves the rest as it is.
\<close>

type_synonym action_state = "TrieUpdate \<times> Account \<times> ActionResult"

definition panic_add :: "u64 \<Rightarrow> u64 \<Rightarrow> (u64, RuntimeError) result" where
  "panic_add a b = ok_or (checked_add a b) (RuntimePanic ''attempt to add with overflow'')"

definition panic_mul :: "u64 \<Rightarrow> u64 \<Rightarrow> (u64, RuntimeError) result" where
  "panic_mul a b = ok_or (checked_mul a b) (RuntimePanic ''attempt to multiply with overflow'')"

section \<open>Storage of keys\<close>

definition access_key_storage_usage ::
  "RuntimeFeesConfig \<Rightarrow> PublicKey \<Rightarrow> AccessKey \<Rightarrow> (StorageUsage, RuntimeError) result" where
  "access_key_storage_usage fee_config pk k =
     result_bind (panic_add (word_of_nat (length (borsh_public_key pk))) (word_of_nat (length (borsh_access_key k))))
       (\<lambda>n. panic_add n (num_extra_bytes_record (storage_usage_config fee_config)))"

definition gas_key_storage_cost ::
  "RuntimeFeesConfig \<Rightarrow> PublicKey \<Rightarrow> AccessKey \<Rightarrow> NonceIndex \<Rightarrow> (StorageUsage, RuntimeError) result" where
  "gas_key_storage_cost fee_config pk k n_nonces =
     (let per_nonce_value_size = 8;
          storage_config = storage_usage_config fee_config in
      result_bind (panic_add (word_of_nat (length (borsh_public_key pk))) 2) (\<lambda>per_nonce_key_size.
      result_bind (panic_add per_nonce_key_size per_nonce_value_size) (\<lambda>n1.
      result_bind (panic_add n1 (num_extra_bytes_record storage_config)) (\<lambda>n2.
      result_bind (panic_mul (ucast n_nonces) n2) (\<lambda>all_nonces.
      result_bind (access_key_storage_usage fee_config pk k) (\<lambda>key. panic_add all_nonces key))))))"

definition gas_key_nonce_delete_compute_cost :: u64 where
  "gas_key_nonce_delete_compute_cost = 0"

definition storage_overflow :: "AccountId \<Rightarrow> StorageError" where
  "storage_overflow account_id =
     StorageInconsistentState (''Storage usage integer overflow for account '' @ account_id)"

definition first_nonce :: "BlockHeight \<Rightarrow> (Nonce, RuntimeError) result" where
  "first_nonce block_height = ok_or (initial_nonce_value block_height) (RuntimePanic ''initial nonce'')"

section \<open>Deleting keys\<close>

definition remove_nonces :: "AccountId \<Rightarrow> PublicKey \<Rightarrow> NonceIndex \<Rightarrow> TrieUpdate \<Rightarrow> TrieUpdate" where
  "remove_nonces account_id pk n s =
     fold (\<lambda>i. remove_gas_key_nonce account_id pk (word_of_nat i)) [0..<unat n] s"

definition delete_gas_key ::
  "RuntimeFeesConfig \<Rightarrow> AccountId \<Rightarrow> PublicKey \<Rightarrow> AccessKey \<Rightarrow> GasKeyInfo \<Rightarrow> action_state
     \<Rightarrow> (action_state, RuntimeError) result" where
  "delete_gas_key fee_config account_id pk k g = (\<lambda>(s, account, res).
     if MAX_BALANCE_TO_BURN < gk_balance g
     then Ok (s, account, fail_with (GasKeyBalanceTooHigh account_id (Some pk) (gk_balance g)) res)
     else
       result_bind (checked_word (res_tokens_burnt res) (gk_balance g)) (\<lambda>tokens.
       let s1 = remove_nonces account_id pk (num_nonces g) s in
       result_bind (panic_mul gas_key_nonce_delete_compute_cost (ucast (num_nonces g))) (\<lambda>delete_cost.
       result_bind (checked_word (res_compute_usage res) delete_cost) (\<lambda>compute.
       result_bind (gas_key_storage_cost fee_config pk k (num_nonces g)) (\<lambda>freed.
         Ok (remove_access_key account_id pk s1,
             set_storage_usage (saturating_sub (storage_usage account) freed) account,
             res \<lparr> res_tokens_burnt := tokens, res_compute_usage := compute \<rparr>))))))"

definition delete_regular_key ::
  "RuntimeFeesConfig \<Rightarrow> AccountId \<Rightarrow> PublicKey \<Rightarrow> AccessKey \<Rightarrow> action_state \<Rightarrow> (action_state, RuntimeError) result" where
  "delete_regular_key fee_config account_id pk k = (\<lambda>(s, account, res).
     result_bind (access_key_storage_usage fee_config pk k) (\<lambda>freed.
       Ok (remove_access_key account_id pk s,
           set_storage_usage (saturating_sub (storage_usage account) freed) account, res)))"

definition action_delete_key ::
  "RuntimeFeesConfig \<Rightarrow> AccountId \<Rightarrow> PublicKey \<Rightarrow> action_state \<Rightarrow> (action_state, RuntimeError) result" where
  "action_delete_key fee_config account_id pk = (\<lambda>(s, account, res).
     result_bind (map_err RStorageError (get_access_key s account_id pk)) (\<lambda>key.
       case key of
         None \<Rightarrow> Ok (s, account, fail_with (DeleteKeyDoesNotExist account_id pk) res)
       | Some k \<Rightarrow>
           (case gas_key_info k of
              Some g \<Rightarrow> delete_gas_key fee_config account_id pk k g (s, account, res)
            | None \<Rightarrow> delete_regular_key fee_config account_id pk k (s, account, res))))"

section \<open>Adding keys\<close>

definition set_nonces :: "AccountId \<Rightarrow> PublicKey \<Rightarrow> NonceIndex \<Rightarrow> Nonce \<Rightarrow> TrieUpdate \<Rightarrow> TrieUpdate" where
  "set_nonces account_id pk n nonce s =
     fold (\<lambda>i. set_gas_key_nonce account_id pk (word_of_nat i) nonce) [0..<unat n] s"

definition add_gas_key ::
  "RuntimeFeesConfig \<Rightarrow> AccountId \<Rightarrow> PublicKey \<Rightarrow> AccessKey \<Rightarrow> GasKeyInfo \<Rightarrow> BlockHeight \<Rightarrow> action_state
     \<Rightarrow> (action_state, RuntimeError) result" where
  "add_gas_key fee_config account_id pk k g block_height = (\<lambda>(s, account, res).
     let k' = k \<lparr> ak_nonce := 0 \<rparr>;
         s1 = set_access_key account_id pk k' s in
     result_bind (first_nonce block_height) (\<lambda>nonce.
     let s2 = set_nonces account_id pk (num_nonces g) nonce s1 in
     result_bind (gas_key_storage_cost fee_config pk k' (num_nonces g)) (\<lambda>used.
     result_bind (ok_or (checked_add (storage_usage account) used) (RStorageError (storage_overflow account_id)))
       (\<lambda>usage. Ok (s2, set_storage_usage usage account, res)))))"

definition add_regular_key ::
  "RuntimeFeesConfig \<Rightarrow> AccountId \<Rightarrow> PublicKey \<Rightarrow> AccessKey \<Rightarrow> BlockHeight \<Rightarrow> action_state
     \<Rightarrow> (action_state, RuntimeError) result" where
  "add_regular_key fee_config account_id pk k block_height = (\<lambda>(s, account, res).
     result_bind (first_nonce block_height) (\<lambda>nonce.
     let k' = k \<lparr> ak_nonce := nonce \<rparr>;
         s1 = set_access_key account_id pk k' s in
     result_bind (access_key_storage_usage fee_config pk k') (\<lambda>used.
     result_bind (ok_or (checked_add (storage_usage account) used) (RStorageError (storage_overflow account_id)))
       (\<lambda>usage. Ok (s1, set_storage_usage usage account, res)))))"

definition action_add_key ::
  "RuntimeFeesConfig \<Rightarrow> BlockHeight \<Rightarrow> AccountId \<Rightarrow> PublicKey \<Rightarrow> AccessKey \<Rightarrow> action_state
     \<Rightarrow> (action_state, RuntimeError) result" where
  "action_add_key fee_config block_height account_id pk k = (\<lambda>(s, account, res).
     result_bind (map_err RStorageError (get_access_key s account_id pk)) (\<lambda>key.
       if key \<noteq> None then Ok (s, account, fail_with (AddKeyAlreadyExists account_id pk) res)
       else case gas_key_info k of
         Some g \<Rightarrow> add_gas_key fee_config account_id pk k g block_height (s, account, res)
       | None \<Rightarrow> add_regular_key fee_config account_id pk k block_height (s, account, res)))"

section \<open>Balances of gas keys\<close>

definition action_transfer_to_gas_key ::
  "AccountId \<Rightarrow> PublicKey \<Rightarrow> Balance \<Rightarrow> TrieUpdate \<Rightarrow> ActionResult \<Rightarrow> (TrieUpdate \<times> ActionResult, RuntimeError) result" where
  "action_transfer_to_gas_key account_id pk deposit s res =
     result_bind (map_err RStorageError (get_access_key s account_id pk)) (\<lambda>key.
       case key of
         None \<Rightarrow> Ok (s, fail_with (GasKeyDoesNotExist account_id pk) res)
       | Some k \<Rightarrow>
           (case gas_key_info k of
              None \<Rightarrow> Ok (s, fail_with (GasKeyDoesNotExist account_id pk) res)
            | Some g \<Rightarrow>
                result_bind (ok_or (checked_add (gk_balance g) deposit)
                    (RStorageError (StorageInconsistentState ''gas key balance integer overflow''))) (\<lambda>balance'.
                  Ok (set_access_key account_id pk (set_gas_key_info (g \<lparr> gk_balance := balance' \<rparr>) k) s, res))))"

definition action_withdraw_from_gas_key ::
  "AccountId \<Rightarrow> PublicKey \<Rightarrow> Balance \<Rightarrow> action_state \<Rightarrow> (action_state, RuntimeError) result" where
  "action_withdraw_from_gas_key account_id pk withdrawn = (\<lambda>(s, account, res).
     result_bind (map_err RStorageError (get_access_key s account_id pk)) (\<lambda>key.
       case key of
         None \<Rightarrow> Ok (s, account, fail_with (GasKeyDoesNotExist account_id pk) res)
       | Some k \<Rightarrow>
           (case gas_key_info k of
              None \<Rightarrow> Ok (s, account, fail_with (GasKeyDoesNotExist account_id pk) res)
            | Some g \<Rightarrow>
                (case checked_sub (gk_balance g) withdrawn of
                   None \<Rightarrow> Ok (s, account,
                     fail_with (InsufficientGasKeyBalance account_id pk (gk_balance g) withdrawn) res)
                 | Some updated_balance \<Rightarrow>
                     (let s1 = set_access_key account_id pk
                          (set_gas_key_info (g \<lparr> gk_balance := updated_balance \<rparr>) k) s in
                      result_bind (ok_or (checked_add (amount account) withdrawn)
                          (RStorageError (StorageInconsistentState ''Account balance integer overflow'')))
                        (\<lambda>new_balance. Ok (s1, set_amount new_balance account, res)))))))"

end
