(* ===== verification/Actions.thy ===== *)
theory Actions
  imports Access_Keys Process_Tx
begin

text \<open>
  The actions of a receipt: \<open>runtime/runtime/src/actions.rs\<close>, \<open>global_contracts.rs\<close> and
  \<open>deterministic_account_id.rs\<close>, and \<open>Runtime::apply_action\<close> of \<open>lib.rs\<close> that dispatches to
  them. What the runtime asks of the rest of the node is the record \<open>RuntimeEnv\<close>: the minimum
  stake and the shards of the epoch, the code marker of the wallet contract, and the virtual
  machine that runs a function call, given the data of the promises it waited for.
\<close>

record RuntimeEnv =
  env_minimum_stake :: "CryptoHash \<Rightarrow> (Balance, RuntimeError) result"
  env_shard_ids :: "(ShardId list, RuntimeError) result"
  env_wallet_code :: bytes
  env_function_call :: "FunctionCallAction \<Rightarrow> nat \<Rightarrow> Receipt \<Rightarrow> bytes option list \<Rightarrow> action_state \<Rightarrow> (action_state, RuntimeError) result"

section \<open>Staking and transfers\<close>

definition action_stake ::
  "RuntimeEnv \<Rightarrow> AccountId \<Rightarrow> Balance \<Rightarrow> PublicKey \<Rightarrow> CryptoHash \<Rightarrow> Account \<Rightarrow> ActionResult
     \<Rightarrow> (Account \<times> ActionResult, RuntimeError) result" where
  "action_stake env account_id stake pk last_block_hash account res =
     (let increment = saturating_sub stake (locked account) in
      case checked_sub (amount account) increment of
        None \<Rightarrow> Ok (account, fail_with (TriesToStake account_id stake (locked account) (amount account)) res)
      | Some new_balance \<Rightarrow>
          if locked account = 0 \<and> stake = 0
          then Ok (account, fail_with (TriesToUnstake account_id) res)
          else
            result_bind (if 0 < stake then env_minimum_stake env last_block_hash else Ok 0) (\<lambda>minimum_stake.
              if 0 < stake \<and> stake < minimum_stake
              then Ok (account, fail_with (InsufficientStake account_id stake minimum_stake) res)
              else
                (let res1 = res \<lparr> res_validator_proposals := res_validator_proposals res @ [(account_id, pk, stake)] \<rparr> in
                 if locked account < stake
                 then Ok (set_locked stake (set_amount new_balance account), res1)
                 else Ok (account, res1))))"

definition try_refund_gas_key_balance ::
  "AccountId \<Rightarrow> PublicKey \<Rightarrow> Balance \<Rightarrow> TrieUpdate \<Rightarrow> (TrieUpdate \<times> bool, StorageError) result" where
  "try_refund_gas_key_balance account_id pk deposit s =
     result_bind (get_access_key s account_id pk) (\<lambda>key.
       case key of
         None \<Rightarrow> Ok (s, False)
       | Some k \<Rightarrow>
           (case gas_key_info k of
              None \<Rightarrow> Ok (s, False)
            | Some g \<Rightarrow>
                result_bind (ok_or (checked_add (gk_balance g) deposit)
                    (StorageInconsistentState ''gas key balance integer overflow'')) (\<lambda>balance'.
                  Ok (set_access_key account_id pk (set_gas_key_info (g \<lparr> gk_balance := balance' \<rparr>) k) s, True))))"

definition try_refund_allowance ::
  "AccountId \<Rightarrow> PublicKey \<Rightarrow> Balance \<Rightarrow> TrieUpdate \<Rightarrow> (TrieUpdate, StorageError) result" where
  "try_refund_allowance account_id pk deposit s =
     result_bind (get_access_key s account_id pk) (\<lambda>key.
       case key of
         None \<Rightarrow> Ok s
       | Some k \<Rightarrow>
           (case permission k of
              FunctionCallPerm fc \<Rightarrow>
                (case allowance fc of
                   Some a \<Rightarrow>
                     (let new_allowance = saturating_add a deposit in
                      if a < new_allowance
                      then Ok (set_access_key account_id pk
                             (k \<lparr> permission := FunctionCallPerm (fc \<lparr> allowance := Some new_allowance \<rparr>) \<rparr>) s)
                      else Ok s)
                 | None \<Rightarrow> Ok s)
            | _ \<Rightarrow> Ok s))"

definition action_transfer :: "Balance \<Rightarrow> Account \<Rightarrow> (Account, StorageError) result" where
  "action_transfer deposit account =
     result_bind (ok_or (checked_add (amount account) deposit)
         (StorageInconsistentState ''Account balance integer overflow'')) (\<lambda>b. Ok (set_amount b account))"

section \<open>Creating accounts\<close>

definition action_create_account ::
  "RuntimeConfig \<Rightarrow> AccountId \<Rightarrow> AccountId \<Rightarrow> Account option \<Rightarrow> AccountId \<Rightarrow> ActionResult
     \<Rightarrow> Account option \<times> AccountId \<times> ActionResult" where
  "action_create_account config account_id predecessor_id account actor_id res =
     (let created = (Some (account_new 0 0 NoContract (num_bytes_account (storage_usage_config (fees config)))),
                     account_id, res) in
      if is_top_level account_id then
        if length account_id < unat (min_allowed_top_level_account_length config)
           \<and> predecessor_id \<noteq> registrar_account_id config
        then (account, actor_id,
              fail_with (CreateAccountOnlyByRegistrar account_id (registrar_account_id config) predecessor_id) res)
        else created
      else if \<not> is_sub_account_of account_id predecessor_id
      then (account, actor_id, fail_with (CreateAccountNotAllowed account_id predecessor_id) res)
      else created)"

definition create_deterministic_account :: "Balance \<Rightarrow> StorageUsageConfig \<Rightarrow> Account" where
  "create_deterministic_account initial_balance cfg = account_new initial_balance 0 NoContract (num_bytes_account cfg)"

definition hex_value :: "char \<Rightarrow> nat" where
  "hex_value c = (let n = of_char c in if n < 58 then n - 48 else if n < 97 then n - 55 else n - 87)"

fun hex_decode :: "string \<Rightarrow> bytes" where
  "hex_decode (a # b # s) = word_of_nat (16 * hex_value a + hex_value b) # hex_decode s"
| "hex_decode _ = []"

fun public_key_len :: "PublicKey \<Rightarrow> u64" where
  "public_key_len (ED25519 _) = 33"
| "public_key_len (SECP256K1 _) = 65"

definition from_near_implicit_account :: "AccountId \<Rightarrow> PublicKey" where
  "from_near_implicit_account account_id = ED25519 (hex_decode account_id)"

text \<open>The account a transfer creates, by the type of its identifier; a named account panics.\<close>

definition action_implicit_account_creation_transfer ::
  "'e crypto_scheme \<Rightarrow> RuntimeEnv \<Rightarrow> RuntimeConfig \<Rightarrow> BlockHeight \<Rightarrow> AccountId \<Rightarrow> Balance \<Rightarrow> TrieUpdate
     \<Rightarrow> (TrieUpdate \<times> Account, RuntimeError) result" where
  "action_implicit_account_creation_transfer C env config block_height account_id deposit s =
     (let cfg = storage_usage_config (fees config) in
      case get_account_type C account_id of
        NearImplicitAccount \<Rightarrow>
          result_bind (first_nonce block_height) (\<lambda>nonce.
          let k = full_access \<lparr> ak_nonce := nonce \<rparr>; pk = from_near_implicit_account account_id in
          result_bind (panic_add (num_bytes_account cfg) (public_key_len pk)) (\<lambda>n1.
          result_bind (panic_add n1 (word_of_nat (length (borsh_access_key k)))) (\<lambda>n2.
          result_bind (panic_add n2 (num_extra_bytes_record cfg)) (\<lambda>n3.
            Ok (set_access_key account_id pk k s, account_new deposit 0 NoContract n3)))))
      | EthImplicitAccount \<Rightarrow>
          result_bind (panic_add (num_bytes_account cfg) (word_of_nat (length (env_wallet_code env)))) (\<lambda>n1.
          result_bind (panic_add n1 (num_extra_bytes_record cfg)) (\<lambda>n2.
            Ok (set_code account_id (env_wallet_code env) s,
                account_new deposit 0 (from_local_code_hash (sha256 C (env_wallet_code env))) n2)))
      | NearDeterministicAccount \<Rightarrow> Ok (s, create_deterministic_account deposit cfg)
      | BtcImplicitAccount \<Rightarrow> Ok (s, account_new deposit 0 NoContract (num_bytes_account cfg))
      | NamedAccount \<Rightarrow> Err (RuntimePanic ''must be implicit''))"

section \<open>Contracts\<close>

definition get_code_len_or_default :: "TrieUpdate \<Rightarrow> AccountId \<Rightarrow> (StorageUsage, StorageError) result" where
  "get_code_len_or_default s account_id =
     result_bind (trie_read s (KContractCode account_id) (bt_get (t_code s) account_id)) (\<lambda>code.
       Ok (case code of Some c \<Rightarrow> word_of_nat (length c) | None \<Rightarrow> 0))"

definition clear_account_contract_storage_usage ::
  "TrieUpdate \<Rightarrow> AccountId \<Rightarrow> Account \<Rightarrow> (Account, StorageError) result" where
  "clear_account_contract_storage_usage s account_id account =
     (case contract account of
        NoContract \<Rightarrow> Ok account
      | Local _ \<Rightarrow>
          result_bind (get_code_len_or_default s account_id) (\<lambda>prev_code_len.
            Ok (set_storage_usage (saturating_sub (storage_usage account) prev_code_len) account))
      | c \<Rightarrow> Ok (set_storage_usage (saturating_sub (storage_usage account) (identifier_storage_usage c)) account))"

definition action_deploy_contract ::
  "'e crypto_scheme \<Rightarrow> AccountId \<Rightarrow> bytes \<Rightarrow> TrieUpdate \<Rightarrow> Account \<Rightarrow> (TrieUpdate \<times> Account, StorageError) result" where
  "action_deploy_contract C account_id code s account =
     result_bind (clear_account_contract_storage_usage s account_id account) (\<lambda>account1.
     result_bind (ok_or (checked_add (storage_usage account1) (word_of_nat (length code)))
         (storage_overflow account_id)) (\<lambda>usage.
       Ok (set_code account_id code s, set_contract (Local (sha256 C code)) (set_storage_usage usage account1))))"

section \<open>Global contracts\<close>

definition remove_code :: "AccountId \<Rightarrow> TrieUpdate \<Rightarrow> TrieUpdate" where
  "remove_code account_id s = s \<lparr> t_code := bt_remove account_id (t_code s) \<rparr>"

fun contract_of_identifier :: "GlobalContractIdentifier \<Rightarrow> AccountContract" where
  "contract_of_identifier (IdCodeHash h) = Global h"
| "contract_of_identifier (IdAccountId a) = GlobalByAccount a"

fun is_local :: "AccountContract \<Rightarrow> bool" where
  "is_local (Local _) = True"
| "is_local _ = False"

definition use_global_contract ::
  "AccountId \<Rightarrow> GlobalContractIdentifier \<Rightarrow> action_state \<Rightarrow> (action_state, RuntimeError) result" where
  "use_global_contract account_id ident = (\<lambda>(s, account, res).
     result_bind (map_err RStorageError (trie_read s (KGlobalContractCode ident) (t_global_code s ident))) (\<lambda>code.
       if code = None then Ok (s, account, fail_with (GlobalContractDoesNotExist ident) res)
       else
         result_bind (map_err RStorageError (clear_account_contract_storage_usage s account_id account)) (\<lambda>account1.
         let s1 = (if is_local (contract account1) then remove_code account_id s else s) in
         result_bind (ok_or (checked_add (storage_usage account1) (contract_identifier_len ident))
             (RStorageError (storage_overflow account_id))) (\<lambda>usage.
           Ok (s1, set_contract (contract_of_identifier ident) (set_storage_usage usage account1), res)))))"

definition get_nonce :: "TrieUpdate \<Rightarrow> GlobalContractIdentifier \<Rightarrow> (u64, RuntimeError) result" where
  "get_nonce s ident =
     result_bind (map_err RStorageError (trie_read s (KGlobalContractNonce ident) (t_global_nonces s ident)))
       (\<lambda>n. Ok (case n of Some x \<Rightarrow> x | None \<Rightarrow> 0))"

definition set_nonce :: "GlobalContractIdentifier \<Rightarrow> u64 \<Rightarrow> TrieUpdate \<Rightarrow> TrieUpdate" where
  "set_nonce ident n s = s \<lparr> t_global_nonces := (t_global_nonces s)(ident \<mapsto> n) \<rparr>"

definition increment_nonce ::
  "ProtocolVersion \<Rightarrow> GlobalContractIdentifier \<Rightarrow> TrieUpdate \<Rightarrow> (TrieUpdate \<times> u64, RuntimeError) result" where
  "increment_nonce pv ident s =
     (if \<not> feature_enabled GlobalContractDistributionNonce pv then Ok (s, 0)
      else
        result_bind (get_nonce s ident) (\<lambda>stored.
        result_bind (ok_or (checked_add stored 1) (UnexpectedIntegerOverflow ''GlobalContractDistributionNonce'')) (\<lambda>n.
          Ok (set_nonce ident n s, n))))"

definition initiate_distribution ::
  "'e crypto_scheme \<Rightarrow> AccountId \<Rightarrow> bytes \<Rightarrow> GlobalContractDeployMode \<Rightarrow> ShardId \<Rightarrow> ProtocolVersion
     \<Rightarrow> TrieUpdate \<Rightarrow> ActionResult \<Rightarrow> (TrieUpdate \<times> ActionResult, RuntimeError) result" where
  "initiate_distribution C account_id code mode shard pv s res =
     (let ident = (case mode of ModeCodeHash \<Rightarrow> IdCodeHash (sha256 C code) | ModeAccountId \<Rightarrow> IdAccountId account_id) in
      result_bind (increment_nonce pv ident s) (\<lambda>(s1, nonce).
        Ok (s1, push_receipt (new_global_contract_distribution account_id
                  (gcd_new ident shard [] code nonce pv)) res)))"

definition action_deploy_global_contract ::
  "'e crypto_scheme \<Rightarrow> ApplyState \<Rightarrow> AccountId \<Rightarrow> bytes \<Rightarrow> GlobalContractDeployMode \<Rightarrow> action_state
     \<Rightarrow> (action_state, RuntimeError) result" where
  "action_deploy_global_contract C st account_id code mode = (\<lambda>(s, account, res).
     let storage_cost = saturating_mul
           (global_contract_storage_amount_per_byte (storage_usage_config (fees (as_config st))))
           (word_of_nat (length code)) in
     case checked_sub (amount account) storage_cost of
       None \<Rightarrow> Ok (s, account, fail_with (ActionLackBalanceForState account_id storage_cost) res)
     | Some updated_balance \<Rightarrow>
         result_bind
           (if feature_enabled IncludeDeployGlobalContractOutcomeBurntStorage (as_protocol_version st)
            then checked_word (res_tokens_burnt res) storage_cost else Ok (res_tokens_burnt res)) (\<lambda>tokens.
         result_bind (initiate_distribution C account_id code mode (as_shard_id st) (as_protocol_version st) s
             (res \<lparr> res_tokens_burnt := tokens \<rparr>)) (\<lambda>(s1, res1).
           Ok (s1, set_amount updated_balance account, res1))))"

section \<open>Deterministic accounts\<close>

fun insert_state ::
  "StorageUsageConfig \<Rightarrow> AccountId \<Rightarrow> (bytes \<times> bytes) list \<Rightarrow> TrieUpdate \<Rightarrow> StorageUsage
     \<Rightarrow> (TrieUpdate \<times> StorageUsage, RuntimeError) result" where
  "insert_state cfg account_id [] s usage = Ok (s, usage)"
| "insert_state cfg account_id ((k, v) # kvs) s usage =
     result_bind (checked_word (word_of_nat (length v)) (word_of_nat (length k))) (\<lambda>n.
     result_bind (checked_word n (num_extra_bytes_record cfg)) (\<lambda>new_bytes.
     result_bind (checked_word usage new_bytes) (\<lambda>usage'.
       insert_state cfg account_id kvs (set_data account_id k v s) usage')))"

definition deploy_deterministic_account ::
  "StorageUsageConfig \<Rightarrow> AccountId \<Rightarrow> DeterministicAccountStateInit \<Rightarrow> action_state
     \<Rightarrow> (action_state, RuntimeError) result" where
  "deploy_deterministic_account cfg account_id si st =
     result_bind (use_global_contract account_id (si_code si) st) (\<lambda>(s, account, res).
       if \<not> is_ok (res_result res) then Ok (s, account, res)
       else result_bind (insert_state cfg account_id (si_data si) s (storage_usage account)) (\<lambda>(s1, usage).
         Ok (s1, set_storage_usage usage account, res)))"

definition action_deterministic_state_init ::
  "RuntimeConfig \<Rightarrow> AccountId \<Rightarrow> Receipt \<Rightarrow> DeterministicAccountStateInit \<Rightarrow> Balance
     \<Rightarrow> TrieUpdate \<times> Account option \<times> ActionResult \<Rightarrow> (TrieUpdate \<times> Account option \<times> ActionResult, RuntimeError) result" where
  "action_deterministic_state_init config account_id receipt si deposit = (\<lambda>(s, maybe_account, res).
     let cfg = storage_usage_config (fees config);
         account = (case maybe_account of Some a \<Rightarrow> a | None \<Rightarrow> create_deterministic_account 0 cfg) in
     result_bind (if contract account = NoContract
                  then deploy_deterministic_account cfg account_id si (s, account, res)
                  else Ok (s, account, res)) (\<lambda>(s1, account1, res1).
       if \<not> is_ok (res_result res1) then Ok (s1, Some account1, res1)
       else
         let refund = (\<lambda>a d. Ok (s1, Some a,
               if 0 < d then push_receipt (new_balance_refund (balance_refund_receiver receipt) d) res1 else res1)) in
         case check_storage_stake account1 (amount account1) config of
           Ok _ \<Rightarrow> refund account1 deposit
         | Err (LackBalanceForStorageStaking missing_amount) \<Rightarrow>
             if missing_amount \<le> deposit
             then result_bind (map_err fee_error (safe_add_balance (amount account1) missing_amount)) (\<lambda>new_balance.
               refund (set_amount new_balance account1) (deposit - missing_amount))
             else Ok (s1, Some account1, fail_with (ActionLackBalanceForState account_id missing_amount) res1)
         | Err (StakingStorageError err) \<Rightarrow> Err (RStorageError (StorageInconsistentState err))))"

section \<open>Deleting an account\<close>

definition action_delete_account ::
  "AccountId \<Rightarrow> AccountId \<Rightarrow> AccountId \<Rightarrow> TrieUpdate \<Rightarrow> Account \<Rightarrow> AccountId \<Rightarrow> ActionResult
     \<Rightarrow> (TrieUpdate \<times> Account option \<times> AccountId \<times> ActionResult, StorageError) result" where
  "action_delete_account account_id beneficiary_id predecessor_id s account actor_id res =
     result_bind (get_code_len_or_default s account_id) (\<lambda>code_len.
     if MAX_ACCOUNT_DELETION_STORAGE_USAGE < saturating_sub (storage_usage account) code_len
     then Ok (s, Some account, actor_id, fail_with (DeleteAccountWithLargeState account_id) res)
     else result_bind (compute_gas_key_balance_sum s account_id) (\<lambda>to_burn.
       if MAX_BALANCE_TO_BURN < to_burn
       then Ok (s, Some account, actor_id, fail_with (GasKeyBalanceTooHigh account_id None to_burn) res)
       else
         (let res1 = (if 0 < amount account
                then push_receipt (new_balance_refund beneficiary_id (amount account)) res else res) in
          result_bind (ok_or (checked_add (res_tokens_burnt res1) to_burn)
              (StorageInconsistentState ''tokens_burnt overflow'')) (\<lambda>tokens.
            Ok (remove_account account_id s, None, predecessor_id, res1 \<lparr> res_tokens_burnt := tokens \<rparr>)))))"

section \<open>Delegate actions\<close>

definition delegate_key_error :: "InvalidAccessKeyError \<Rightarrow> ActionErrorKind" where
  "delegate_key_error e = DelegateActionAccessKeyError e"

text \<open>
  The restrictions of a function-call key. \<open>Inl\<close> is an early return with the error recorded;
  \<open>Inr\<close> goes on, possibly with the deposit error recorded but the key still written.
\<close>

definition check_delegate_permission ::
  "AccessKeyPermission \<Rightarrow> AccountId \<Rightarrow> Action list \<Rightarrow> ActionResult \<Rightarrow> ActionResult + ActionResult" where
  "check_delegate_permission p receiver_id actions res =
     (case p of
        FunctionCallPerm fc \<Rightarrow>
          (if length actions \<noteq> 1 then Inl (fail_with (delegate_key_error RequiresFullAccess) res)
           else case actions of
             FunctionCall call # _ \<Rightarrow>
               (let res1 = (if 0 < fc_deposit call
                      then fail_with (delegate_key_error DepositWithFunctionCall) res else res) in
                if receiver_id \<noteq> fcp_receiver_id fc
                then Inl (fail_with (delegate_key_error (ReceiverMismatch receiver_id (fcp_receiver_id fc))) res1)
                else if method_names fc \<noteq> [] \<and> method_name call \<notin> set (method_names fc)
                then Inl (fail_with (delegate_key_error (MethodNameMismatch (method_name call))) res1)
                else Inr res1)
           | _ \<Rightarrow> Inl (fail_with (delegate_key_error RequiresFullAccess) res))
      | _ \<Rightarrow> Inr res)"

definition validate_delegate_action_key ::
  "BlockHeight \<Rightarrow> DelegateAction \<Rightarrow> TrieUpdate \<Rightarrow> ActionResult \<Rightarrow> (TrieUpdate \<times> ActionResult, RuntimeError) result" where
  "validate_delegate_action_key block_height d s res =
     result_bind (map_err RStorageError (get_access_key s (da_sender_id d) (da_public_key d))) (\<lambda>key.
       case key of
         None \<Rightarrow> Ok (s, fail_with (delegate_key_error (AccessKeyNotFound (da_sender_id d) (da_public_key d))) res)
       | Some k \<Rightarrow>
           if da_nonce d \<le> ak_nonce k
           then Ok (s, fail_with (DelegateActionInvalidNonce (da_nonce d) (ak_nonce k)) res)
           else
             result_bind (panic_mul block_height ACCESS_KEY_NONCE_RANGE_MULTIPLIER) (\<lambda>upper_bound.
               if upper_bound \<le> da_nonce d
               then Ok (s, fail_with (DelegateActionNonceTooLarge (da_nonce d) upper_bound) res)
               else case check_delegate_permission (permission k) (da_receiver_id d) (da_actions d) res of
                   Inl res1 \<Rightarrow> Ok (s, res1)
                 | Inr res1 \<Rightarrow> Ok (set_access_key (da_sender_id d) (da_public_key d)
                       (k \<lparr> ak_nonce := da_nonce d \<rparr>) s, res1)))"

definition action_receipt_required_gas ::
  "'e crypto_scheme \<Rightarrow> RuntimeConfig \<Rightarrow> AccountId \<Rightarrow> Action list \<Rightarrow> (Gas, FeeError) result" where
  "action_receipt_required_gas C config receiver_id actions =
     result_bind (total_prepaid_exec_fees C config receiver_id actions 0) (\<lambda>exec.
     result_bind (total_prepaid_gas actions 0) (\<lambda>prepaid.
     result_bind (checked_add_result exec prepaid) (\<lambda>required.
       checked_add_result required (execution (action_fees (fees config) cost_new_action_receipt)))))"

definition delegate_receipt :: "VersionedActionReceipt \<Rightarrow> AccountId \<Rightarrow> DelegateAction \<Rightarrow> Receipt" where
  "delegate_receipt ar sender_id d =
     \<lparr> r_predecessor_id = sender_id, r_receiver_id = da_receiver_id d, r_receipt_id = default_hash,
       r_receipt = RAction \<lparr> ar_signer_id = va_signer_id ar, ar_signer_public_key = va_signer_public_key ar,
         ar_gas_price = va_gas_price ar, ar_output_data_receivers = [], ar_input_data_ids = [],
         ar_actions = da_actions d \<rparr> \<rparr>"

definition apply_delegate_action ::
  "'e crypto_scheme \<Rightarrow> ApplyState \<Rightarrow> VersionedActionReceipt \<Rightarrow> AccountId \<Rightarrow> DelegateAction \<Rightarrow> Signature
     \<Rightarrow> TrieUpdate \<Rightarrow> ActionResult \<Rightarrow> (TrieUpdate \<times> ActionResult, RuntimeError) result" where
  "apply_delegate_action C st ar sender_id d sig s res =
     result_bind (map_err RStorageError (get_patoshi_record s sender_id)) (\<lambda>record.
     if (case record of Some r \<Rightarrow> is_patoshi_locked r (as_epoch_height st) | None \<Rightarrow> False)
     then Ok (s, fail_with (delegate_key_error
            (MethodNameMismatch ''Patoshi locked account cannot use DelegateAction'')) res)
     else if \<not> signed_delegate_verify C d sig then Ok (s, fail_with DelegateActionInvalidSignature res)
     else if da_max_block_height d < as_block_height st then Ok (s, fail_with DelegateActionExpired res)
     else if da_sender_id d \<noteq> sender_id
     then Ok (s, fail_with (DelegateActionSenderDoesNotMatchTxReceiver (da_sender_id d) sender_id) res)
     else
       result_bind (validate_delegate_action_key (as_block_height st) d s res) (\<lambda>(s1, res1).
       if \<not> is_ok (res_result res1) then Ok (s1, res1)
       else
         let new_receipt = delegate_receipt ar sender_id d in
         result_bind (map_err fee_error (total_prepaid_send_fees C (as_config st) (va_actions ar) 0)) (\<lambda>send_fees.
         result_bind (map_err fee_error
             (action_receipt_required_gas C (as_config st) (da_receiver_id d) (da_actions d))) (\<lambda>required_gas.
         result_bind (checked_word (res_gas_used res1) required_gas) (\<lambda>used1.
         result_bind (checked_word used1 send_fees) (\<lambda>used2.
         result_bind (checked_word (res_gas_burnt res1) send_fees) (\<lambda>burnt.
         result_bind (checked_word (res_compute_usage res1) send_fees) (\<lambda>compute.
           Ok (s1, push_receipt new_receipt (res1 \<lparr> res_gas_used := used2, res_gas_burnt := burnt,
                 res_compute_usage := compute \<rparr>))))))))))"

section \<open>Permissions\<close>

text \<open>The account is there for a \<open>DeleteAccount\<close>: \<open>check_account_existence\<close> comes first.\<close>

definition check_actor_permissions ::
  "Action \<Rightarrow> Account option \<Rightarrow> AccountId \<Rightarrow> AccountId \<Rightarrow> (unit, ActionErrorKind) result" where
  "check_actor_permissions action account actor_id account_id =
     (let owner_only = (if actor_id \<noteq> account_id then Err (ActorNoPermission account_id actor_id) else Ok ()) in
      case action of
        DeployContract _ \<Rightarrow> owner_only
      | Stake _ _ \<Rightarrow> owner_only
      | AddKey _ _ \<Rightarrow> owner_only
      | DeleteKey _ \<Rightarrow> owner_only
      | DeployGlobalContract _ _ \<Rightarrow> owner_only
      | UseGlobalContract _ \<Rightarrow> owner_only
      | WithdrawFromGasKey _ _ \<Rightarrow> owner_only
      | DeleteAccount _ \<Rightarrow>
          result_bind owner_only (\<lambda>_.
            case account of
              Some a \<Rightarrow> if locked a \<noteq> 0 then Err (DeleteAccountStaking account_id) else Ok ()
            | None \<Rightarrow> Ok ())
      | _ \<Rightarrow> Ok ())"

definition account_is_implicit :: "'e crypto_scheme \<Rightarrow> RuntimeConfig \<Rightarrow> AccountId \<Rightarrow> bool" where
  "account_is_implicit C config account_id =
     (case get_account_type C account_id of
        NamedAccount \<Rightarrow> False
      | NearImplicitAccount \<Rightarrow> True
      | EthImplicitAccount \<Rightarrow> eth_implicit_accounts config
      | NearDeterministicAccount \<Rightarrow> deterministic_account_ids config
      | BtcImplicitAccount \<Rightarrow> True)"

definition check_transfer_to_nonexisting_account ::
  "'e crypto_scheme \<Rightarrow> RuntimeConfig \<Rightarrow> AccountId \<Rightarrow> bool \<Rightarrow> (unit, ActionErrorKind) result" where
  "check_transfer_to_nonexisting_account C config account_id eligible =
     (if eligible \<and> account_is_implicit C config account_id then Ok () else Err (AccountDoesNotExist account_id))"

definition check_account_existence ::
  "'e crypto_scheme \<Rightarrow> Action \<Rightarrow> Account option \<Rightarrow> AccountId \<Rightarrow> RuntimeConfig \<Rightarrow> bool \<Rightarrow> (unit, ActionErrorKind) result" where
  "check_account_existence C action account account_id config eligible =
     (case action of
        CreateAccount \<Rightarrow>
          if account \<noteq> None then Err (AccountAlreadyExists account_id)
          else if account_is_implicit C config account_id
          then Err (OnlyImplicitAccountCreationAllowed account_id) else Ok ()
      | Transfer _ \<Rightarrow>
          if account = None then check_transfer_to_nonexisting_account C config account_id eligible else Ok ()
      | DeterministicStateInit _ _ \<Rightarrow> Ok ()
      | _ \<Rightarrow> if account = None then Err (AccountDoesNotExist account_id) else Ok ())"

section \<open>One action\<close>

type_synonym receipt_state = "TrieUpdate \<times> Account option \<times> AccountId"

definition action_transfer_or_implicit_account_creation ::
  "'e crypto_scheme \<Rightarrow> RuntimeEnv \<Rightarrow> ApplyState \<Rightarrow> Receipt \<Rightarrow> VersionedActionReceipt \<Rightarrow> bool \<Rightarrow> Balance
     \<Rightarrow> receipt_state \<Rightarrow> (receipt_state, RuntimeError) result" where
  "action_transfer_or_implicit_account_creation C env st receipt ar is_refund deposit = (\<lambda>(s, account, actor_id).
     case account of
       Some a \<Rightarrow>
         (let is_gas_refund = (is_refund \<and> va_signer_id ar = r_receiver_id receipt) in
          result_bind (if is_gas_refund
              then map_err RStorageError (try_refund_gas_key_balance (r_receiver_id receipt) (va_signer_public_key ar) deposit s)
              else Ok (s, False)) (\<lambda>(s1, refunded).
            if refunded then Ok (s1, Some a, actor_id)
            else
              result_bind (map_err RStorageError (action_transfer deposit a)) (\<lambda>a1.
              result_bind (if is_gas_refund
                  then map_err RStorageError (try_refund_allowance (r_receiver_id receipt) (va_signer_public_key ar) deposit s1)
                  else Ok s1) (\<lambda>s2. Ok (s2, Some a1, actor_id)))))
     | None \<Rightarrow>
         result_bind (action_implicit_account_creation_transfer C env (as_config st) (as_block_height st)
             (r_receiver_id receipt) deposit s) (\<lambda>(s1, a). Ok (s1, Some a, r_receiver_id receipt)))"

text \<open>An action on the account, which \<open>check_account_existence\<close> has found to exist.\<close>

definition on_account ::
  "receipt_state \<Rightarrow> ActionResult \<Rightarrow> (action_state \<Rightarrow> (action_state, RuntimeError) result)
     \<Rightarrow> (receipt_state \<times> ActionResult, RuntimeError) result" where
  "on_account rst res f = (case rst of
     (s, None, actor_id) \<Rightarrow> Err (RuntimePanic ''account exists'')
   | (s, Some a, actor_id) \<Rightarrow>
       result_bind (f (s, a, res)) (\<lambda>(s', a', res'). Ok ((s', Some a', actor_id), res')))"

definition apply_action_body ::
  "'e crypto_scheme \<Rightarrow> RuntimeEnv \<Rightarrow> ApplyState \<Rightarrow> Receipt \<Rightarrow> VersionedActionReceipt \<Rightarrow> bytes option list
     \<Rightarrow> nat \<Rightarrow> Action \<Rightarrow> receipt_state \<Rightarrow> ActionResult \<Rightarrow> (receipt_state \<times> ActionResult, RuntimeError) result" where
  "apply_action_body C env st receipt ar promise_results index action rst res =
     (let account_id = r_receiver_id receipt; config = as_config st in
      case action of
        CreateAccount \<Rightarrow>
          (case rst of (s, account, actor_id) \<Rightarrow>
             (case action_create_account config account_id (r_predecessor_id receipt) account actor_id res of
                (account', actor', res') \<Rightarrow> Ok ((s, account', actor'), res')))
      | DeployContract code \<Rightarrow>
          on_account rst res (\<lambda>(s, a, r).
            result_bind (map_err RStorageError (action_deploy_contract C account_id code s a)) (\<lambda>(s', a'). Ok (s', a', r)))
      | DeployGlobalContract code mode \<Rightarrow>
          on_account rst res (action_deploy_global_contract C st account_id code mode)
      | UseGlobalContract ident \<Rightarrow> on_account rst res (use_global_contract account_id ident)
      | DeterministicStateInit si deposit \<Rightarrow>
          (case rst of (s, account, actor_id) \<Rightarrow>
             result_bind (action_deterministic_state_init config account_id receipt si deposit (s, account, res))
               (\<lambda>(s', account', res'). Ok ((s', account', actor_id), res')))
      | FunctionCall call \<Rightarrow> on_account rst res (env_function_call env call index receipt promise_results)
      | Transfer deposit \<Rightarrow>
          result_bind (action_transfer_or_implicit_account_creation C env st receipt ar
              (is_system (r_predecessor_id receipt)) deposit rst) (\<lambda>rst'. Ok (rst', res))
      | Stake stake pk \<Rightarrow>
          on_account rst res (\<lambda>(s, a, r).
            result_bind (action_stake env account_id stake pk (as_prev_block_hash st) a r) (\<lambda>(a', r'). Ok (s, a', r')))
      | AddKey pk k \<Rightarrow> on_account rst res (action_add_key (fees config) (as_block_height st) account_id pk k)
      | DeleteKey pk \<Rightarrow> on_account rst res (action_delete_key (fees config) account_id pk)
      | DeleteAccount beneficiary_id \<Rightarrow>
          (case rst of
             (s, None, actor_id) \<Rightarrow> Err (RuntimePanic ''account exists'')
           | (s, Some a, actor_id) \<Rightarrow>
               result_bind (map_err RStorageError (action_delete_account account_id beneficiary_id
                   (r_predecessor_id receipt) s a actor_id res)) (\<lambda>(s', a', actor', res'). Ok ((s', a', actor'), res')))
      | Delegate d sig \<Rightarrow>
          (case rst of (s, account, actor_id) \<Rightarrow>
             result_bind (apply_delegate_action C st ar account_id d sig s res) (\<lambda>(s', res').
               Ok ((s', account, actor_id), res')))
      | TransferToGasKey pk deposit \<Rightarrow>
          (case rst of (s, account, actor_id) \<Rightarrow>
             result_bind (action_transfer_to_gas_key account_id pk deposit s res) (\<lambda>(s', res').
               Ok ((s', account, actor_id), res')))
      | WithdrawFromGasKey pk withdrawn \<Rightarrow>
          on_account rst res (action_withdraw_from_gas_key account_id pk withdrawn))"

definition apply_action ::
  "'e crypto_scheme \<Rightarrow> RuntimeEnv \<Rightarrow> ApplyState \<Rightarrow> Receipt \<Rightarrow> VersionedActionReceipt \<Rightarrow> bytes option list
     \<Rightarrow> nat \<Rightarrow> Action \<Rightarrow> receipt_state \<Rightarrow> (receipt_state \<times> ActionResult, RuntimeError) result" where
  "apply_action C env st receipt ar promise_results index action rst =
     result_bind (map_err fee_error (exec_fee C (as_config st) action (r_receiver_id receipt))) (\<lambda>exec_fees.
     let res = default_result \<lparr> res_gas_used := exec_fees, res_gas_burnt := exec_fees, res_compute_usage := exec_fees \<rparr>;
         account_id = r_receiver_id receipt;
         (s, account, actor_id) = rst;
         is_refund = is_system (r_predecessor_id receipt);
         is_the_only_action = (length (va_actions ar) = 1);
         multi_action_eligible = (feature_enabled FixDeterministicAccountIdCreation (as_protocol_version st)
           \<and> deterministic_account_ids (as_config st) \<and> get_account_type C account_id = NearDeterministicAccount);
         eligible = (\<not> is_refund \<and> (is_the_only_action \<or> multi_action_eligible)) in
     case check_account_existence C action account account_id (as_config st) eligible of
       Err e \<Rightarrow> Ok (rst, fail_with e res)
     | Ok _ \<Rightarrow>
         (case check_actor_permissions action account actor_id account_id of
            Err e \<Rightarrow> Ok (rst, fail_with e res)
          | Ok _ \<Rightarrow> apply_action_body C env st receipt ar promise_results index action rst res))"

end
