(* ===== verification/Borsh_Receipt.thy ===== *)
theory Borsh_Receipt
  imports Borsh_Tx Receipts
begin

text \<open>
  The Borsh wire format of receipts (\<open>core/primitives/src/receipt.rs\<close>): the derived encodings of
  the receipt types, and the hand-written encodings of receipts that are stored in the state,
  which carry metadata behind a two-byte tag and share their trie columns with plain receipts.
\<close>

section \<open>Receipts\<close>

definition borsh_data_receiver :: "CryptoHash \<times> AccountId \<Rightarrow> bytes" where
  "borsh_data_receiver d = fst d @ borsh_string (snd d)"

definition read_data_receiver :: "'e crypto_scheme \<Rightarrow> bytes \<Rightarrow> ((CryptoHash \<times> AccountId) \<times> bytes) option" where
  "read_data_receiver C b =
     Option.bind (take_exact 32 b) (\<lambda>(h, b1).
     Option.bind (read_account_id C b1) (\<lambda>(a, b2). Some ((h, a), b2)))"

definition borsh_hash :: "CryptoHash \<Rightarrow> bytes" where
  "borsh_hash h = h"

definition borsh_action_receipt :: "ActionReceipt \<Rightarrow> bytes" where
  "borsh_action_receipt a = borsh_string (ar_signer_id a) @ borsh_public_key (ar_signer_public_key a)
     @ to_le_bytes 16 (ar_gas_price a) @ borsh_vec borsh_data_receiver (ar_output_data_receivers a)
     @ borsh_vec borsh_hash (ar_input_data_ids a) @ borsh_vec borsh_action (ar_actions a)"

definition read_action_receipt :: "'e crypto_scheme \<Rightarrow> bytes \<Rightarrow> (ActionReceipt \<times> bytes) option" where
  "read_action_receipt C b =
     Option.bind (read_account_id C b) (\<lambda>(s, b1).
     Option.bind (read_public_key b1) (\<lambda>(pk, b2).
     Option.bind (read_le 16 b2) (\<lambda>(p, b3).
     Option.bind (read_vec (read_data_receiver C) b3) (\<lambda>(out, b4).
     Option.bind (read_vec (take_exact 32) b4) (\<lambda>(ins, b5).
     Option.bind (read_vec (read_action C) b5) (\<lambda>(as, b6).
       Some (\<lparr> ar_signer_id = s, ar_signer_public_key = pk, ar_gas_price = p, ar_output_data_receivers = out,
               ar_input_data_ids = ins, ar_actions = as \<rparr>, b6)))))))"

definition borsh_action_receipt_v2 :: "ActionReceiptV2 \<Rightarrow> bytes" where
  "borsh_action_receipt_v2 a = borsh_string (ar2_signer_id a) @ borsh_option borsh_string (ar2_refund_to a)
     @ borsh_public_key (ar2_signer_public_key a)
     @ to_le_bytes 16 (ar2_gas_price a) @ borsh_vec borsh_data_receiver (ar2_output_data_receivers a)
     @ borsh_vec borsh_hash (ar2_input_data_ids a) @ borsh_vec borsh_action (ar2_actions a)"

definition read_action_receipt_v2 :: "'e crypto_scheme \<Rightarrow> bytes \<Rightarrow> (ActionReceiptV2 \<times> bytes) option" where
  "read_action_receipt_v2 C b =
     Option.bind (read_account_id C b) (\<lambda>(s, b1).
     Option.bind (read_option (read_account_id C) b1) (\<lambda>(to, b2).
     Option.bind (read_public_key b2) (\<lambda>(pk, b3).
     Option.bind (read_le 16 b3) (\<lambda>(p, b4).
     Option.bind (read_vec (read_data_receiver C) b4) (\<lambda>(out, b5).
     Option.bind (read_vec (take_exact 32) b5) (\<lambda>(ins, b6).
     Option.bind (read_vec (read_action C) b6) (\<lambda>(as, b7).
       Some (\<lparr> ar2_signer_id = s, ar2_refund_to = to, ar2_signer_public_key = pk, ar2_gas_price = p,
               ar2_output_data_receivers = out, ar2_input_data_ids = ins, ar2_actions = as \<rparr>, b7))))))))"

definition borsh_data_receipt :: "DataReceipt \<Rightarrow> bytes" where
  "borsh_data_receipt d = dr_data_id d @ borsh_option borsh_bytes (dr_data d)"

definition read_data_receipt :: "bytes \<Rightarrow> (DataReceipt \<times> bytes) option" where
  "read_data_receipt b =
     Option.bind (take_exact 32 b) (\<lambda>(h, b1).
     Option.bind (read_option read_bytes b1) (\<lambda>(d, b2). Some (\<lparr> dr_data_id = h, dr_data = d \<rparr>, b2)))"

definition borsh_u64 :: "u64 \<Rightarrow> bytes" where
  "borsh_u64 n = to_le_bytes 8 n"

fun borsh_distribution :: "GlobalContractDistributionReceipt \<Rightarrow> bytes" where
  "borsh_distribution (GcdV1 g) = 0 # borsh_contract_id (gcd1_id g) @ to_le_bytes 8 (gcd1_target_shard g)
     @ borsh_vec borsh_u64 (gcd1_already_delivered_shards g) @ borsh_bytes (gcd1_code g)"
| "borsh_distribution (GcdV2 g) = 1 # borsh_contract_id (gcd2_id g) @ to_le_bytes 8 (gcd2_target_shard g)
     @ borsh_vec borsh_u64 (gcd2_already_delivered_shards g) @ borsh_bytes (gcd2_code g)
     @ to_le_bytes 8 (gcd2_nonce g)"

definition read_distribution :: "'e crypto_scheme \<Rightarrow> bytes \<Rightarrow> (GlobalContractDistributionReceipt \<times> bytes) option" where
  "read_distribution C b = Option.bind (read_u8 b) (\<lambda>(t, r).
     if t = 0 \<or> t = 1 then
       Option.bind (read_contract_id C r) (\<lambda>(i, b1).
       Option.bind (read_le 8 b1) (\<lambda>(sh, b2).
       Option.bind (read_vec (read_le 8) b2) (\<lambda>(ds, b3).
       Option.bind (read_bytes b3) (\<lambda>(code, b4).
         if t = 0 then Some (GcdV1 \<lparr> gcd1_id = i, gcd1_target_shard = sh, gcd1_already_delivered_shards = ds,
             gcd1_code = code \<rparr>, b4)
         else Option.bind (read_le 8 b4) (\<lambda>(n, b5).
           Some (GcdV2 \<lparr> gcd2_id = i, gcd2_target_shard = sh, gcd2_already_delivered_shards = ds,
             gcd2_code = code, gcd2_nonce = n \<rparr>, b5))))))
     else None)"

fun borsh_receipt_enum :: "ReceiptEnum \<Rightarrow> bytes" where
  "borsh_receipt_enum (RAction a) = 0 # borsh_action_receipt a"
| "borsh_receipt_enum (RData d) = 1 # borsh_data_receipt d"
| "borsh_receipt_enum (RPromiseYield a) = 2 # borsh_action_receipt a"
| "borsh_receipt_enum (RPromiseResume d) = 3 # borsh_data_receipt d"
| "borsh_receipt_enum (RGlobalContractDistribution g) = 4 # borsh_distribution g"
| "borsh_receipt_enum (RActionV2 a) = 5 # borsh_action_receipt_v2 a"
| "borsh_receipt_enum (RPromiseYieldV2 a) = 6 # borsh_action_receipt_v2 a"

definition read_receipt_enum :: "'e crypto_scheme \<Rightarrow> bytes \<Rightarrow> (ReceiptEnum \<times> bytes) option" where
  "read_receipt_enum C b = Option.bind (read_u8 b) (\<lambda>(t, r).
     if t = 0 then map_option (\<lambda>(a, r'). (RAction a, r')) (read_action_receipt C r)
     else if t = 1 then map_option (\<lambda>(d, r'). (RData d, r')) (read_data_receipt r)
     else if t = 2 then map_option (\<lambda>(a, r'). (RPromiseYield a, r')) (read_action_receipt C r)
     else if t = 3 then map_option (\<lambda>(d, r'). (RPromiseResume d, r')) (read_data_receipt r)
     else if t = 4 then map_option (\<lambda>(g, r'). (RGlobalContractDistribution g, r')) (read_distribution C r)
     else if t = 5 then map_option (\<lambda>(a, r'). (RActionV2 a, r')) (read_action_receipt_v2 C r)
     else if t = 6 then map_option (\<lambda>(a, r'). (RPromiseYieldV2 a, r')) (read_action_receipt_v2 C r)
     else None)"

definition borsh_receipt :: "Receipt \<Rightarrow> bytes" where
  "borsh_receipt r = borsh_string (r_predecessor_id r) @ borsh_string (r_receiver_id r) @ r_receipt_id r
     @ borsh_receipt_enum (r_receipt r)"

definition read_receipt :: "'e crypto_scheme \<Rightarrow> bytes \<Rightarrow> (Receipt \<times> bytes) option" where
  "read_receipt C b =
     Option.bind (read_account_id C b) (\<lambda>(p, b1).
     Option.bind (read_account_id C b1) (\<lambda>(rid, b2).
     Option.bind (take_exact 32 b2) (\<lambda>(h, b3).
     Option.bind (read_receipt_enum C b3) (\<lambda>(e, b4).
       Some (\<lparr> r_predecessor_id = p, r_receiver_id = rid, r_receipt_id = h, r_receipt = e \<rparr>, b4)))))"

section \<open>Receipts stored in the state\<close>

record StateStoredReceiptMetadata =
  congestion_gas :: Gas
  congestion_size :: u64

datatype StateStoredReceipt =
    SsrV0 Receipt StateStoredReceiptMetadata
  | SsrV1 Receipt StateStoredReceiptMetadata

datatype ReceiptOrStateStoredReceipt =
    PlainReceipt Receipt
  | StoredReceipt StateStoredReceipt

fun ssr_receipt :: "StateStoredReceipt \<Rightarrow> Receipt" where
  "ssr_receipt (SsrV0 r _) = r"
| "ssr_receipt (SsrV1 r _) = r"

fun should_update_outgoing_metadatas :: "ReceiptOrStateStoredReceipt \<Rightarrow> bool" where
  "should_update_outgoing_metadatas (StoredReceipt (SsrV1 _ _)) = True"
| "should_update_outgoing_metadatas _ = False"

fun into_receipt :: "ReceiptOrStateStoredReceipt \<Rightarrow> Receipt" where
  "into_receipt (PlainReceipt r) = r"
| "into_receipt (StoredReceipt s) = ssr_receipt s"

definition STATE_STORED_RECEIPT_TAG :: u8 where
  "STATE_STORED_RECEIPT_TAG = 255"

definition borsh_metadata :: "StateStoredReceiptMetadata \<Rightarrow> bytes" where
  "borsh_metadata m = to_le_bytes 8 (congestion_gas m) @ to_le_bytes 8 (congestion_size m)"

definition read_metadata :: "bytes \<Rightarrow> (StateStoredReceiptMetadata \<times> bytes) option" where
  "read_metadata b =
     Option.bind (read_le 8 b) (\<lambda>(g, b1). Option.bind (read_le 8 b1) (\<lambda>(n, b2).
       Some (\<lparr> congestion_gas = g, congestion_size = n \<rparr>, b2)))"

fun borsh_state_stored :: "StateStoredReceipt \<Rightarrow> bytes" where
  "borsh_state_stored (SsrV0 r m) =
     STATE_STORED_RECEIPT_TAG # STATE_STORED_RECEIPT_TAG # 0 # borsh_receipt r @ borsh_metadata m"
| "borsh_state_stored (SsrV1 r m) =
     STATE_STORED_RECEIPT_TAG # STATE_STORED_RECEIPT_TAG # 1 # borsh_receipt r @ borsh_metadata m"

definition read_state_stored :: "'e crypto_scheme \<Rightarrow> bytes \<Rightarrow> (StateStoredReceipt \<times> bytes) option" where
  "read_state_stored C b =
     (case b of
        u1 # u2 # u3 # r \<Rightarrow>
          if u1 \<noteq> STATE_STORED_RECEIPT_TAG \<or> u2 \<noteq> STATE_STORED_RECEIPT_TAG then None
          else if u3 = 0 \<or> u3 = 1 then
            Option.bind (read_receipt C r) (\<lambda>(rc, r1).
            Option.bind (read_metadata r1) (\<lambda>(m, r2).
              Some (if u3 = 0 then SsrV0 rc m else SsrV1 rc m, r2)))
          else None
      | _ \<Rightarrow> None)"

fun borsh_receipt_or_stored :: "ReceiptOrStateStoredReceipt \<Rightarrow> bytes" where
  "borsh_receipt_or_stored (PlainReceipt r) = borsh_receipt r"
| "borsh_receipt_or_stored (StoredReceipt s) = borsh_state_stored s"

definition read_receipt_or_stored :: "'e crypto_scheme \<Rightarrow> bytes \<Rightarrow> (ReceiptOrStateStoredReceipt \<times> bytes) option" where
  "read_receipt_or_stored C b =
     (case b of
        u1 # u2 # _ \<Rightarrow>
          if u1 = STATE_STORED_RECEIPT_TAG \<and> u2 = STATE_STORED_RECEIPT_TAG
          then map_option (\<lambda>(s, r). (StoredReceipt s, r)) (read_state_stored C b)
          else map_option (\<lambda>(rc, r). (PlainReceipt rc, r)) (read_receipt C b)
      | _ \<Rightarrow> None)"

section \<open>Reading back\<close>

fun data_receiver_ok :: "'e crypto_scheme \<Rightarrow> CryptoHash \<times> AccountId \<Rightarrow> bool" where
  "data_receiver_ok C (h, a) \<longleftrightarrow> length h = 32 \<and> aid_ok C a"

definition vec_ok :: "('a \<Rightarrow> bool) \<Rightarrow> 'a list \<Rightarrow> bool" where
  "vec_ok P xs \<longleftrightarrow> length xs < 2 ^ 32 \<and> list_all P xs"

definition action_receipt_ok :: "'e crypto_scheme \<Rightarrow> ActionReceipt \<Rightarrow> bool" where
  "action_receipt_ok C a \<longleftrightarrow> aid_ok C (ar_signer_id a) \<and> pk_ok (ar_signer_public_key a)
     \<and> vec_ok (data_receiver_ok C) (ar_output_data_receivers a)
     \<and> vec_ok (\<lambda>h. length h = 32) (ar_input_data_ids a) \<and> vec_ok (action_ok C) (ar_actions a)"

definition action_receipt_v2_ok :: "'e crypto_scheme \<Rightarrow> ActionReceiptV2 \<Rightarrow> bool" where
  "action_receipt_v2_ok C a \<longleftrightarrow> aid_ok C (ar2_signer_id a) \<and> pk_ok (ar2_signer_public_key a)
     \<and> (\<forall>y. ar2_refund_to a = Some y \<longrightarrow> aid_ok C y)
     \<and> vec_ok (data_receiver_ok C) (ar2_output_data_receivers a)
     \<and> vec_ok (\<lambda>h. length h = 32) (ar2_input_data_ids a) \<and> vec_ok (action_ok C) (ar2_actions a)"

definition data_receipt_ok :: "DataReceipt \<Rightarrow> bool" where
  "data_receipt_ok d \<longleftrightarrow> length (dr_data_id d) = 32 \<and> (\<forall>y. dr_data d = Some y \<longrightarrow> bytes_ok y)"

fun distribution_ok :: "'e crypto_scheme \<Rightarrow> GlobalContractDistributionReceipt \<Rightarrow> bool" where
  "distribution_ok C (GcdV1 g) \<longleftrightarrow> contract_id_ok C (gcd1_id g) \<and> bytes_ok (gcd1_code g)
     \<and> vec_ok (\<lambda>_. True) (gcd1_already_delivered_shards g)"
| "distribution_ok C (GcdV2 g) \<longleftrightarrow> contract_id_ok C (gcd2_id g) \<and> bytes_ok (gcd2_code g)
     \<and> vec_ok (\<lambda>_. True) (gcd2_already_delivered_shards g)"

fun receipt_enum_ok :: "'e crypto_scheme \<Rightarrow> ReceiptEnum \<Rightarrow> bool" where
  "receipt_enum_ok C (RAction a) \<longleftrightarrow> action_receipt_ok C a"
| "receipt_enum_ok C (RData d) \<longleftrightarrow> data_receipt_ok d"
| "receipt_enum_ok C (RPromiseYield a) \<longleftrightarrow> action_receipt_ok C a"
| "receipt_enum_ok C (RPromiseResume d) \<longleftrightarrow> data_receipt_ok d"
| "receipt_enum_ok C (RGlobalContractDistribution g) \<longleftrightarrow> distribution_ok C g"
| "receipt_enum_ok C (RActionV2 a) \<longleftrightarrow> action_receipt_v2_ok C a"
| "receipt_enum_ok C (RPromiseYieldV2 a) \<longleftrightarrow> action_receipt_v2_ok C a"

definition receipt_ok :: "'e crypto_scheme \<Rightarrow> Receipt \<Rightarrow> bool" where
  "receipt_ok C r \<longleftrightarrow> aid_ok C (r_predecessor_id r) \<and> aid_ok C (r_receiver_id r)
     \<and> length (r_receipt_id r) = 32 \<and> receipt_enum_ok C (r_receipt r)"

lemma vec_codec_ok [codec_simps]:
  assumes "prefix_codec enc dec P" "vec_ok P xs"
  shows "read_vec dec (borsh_vec enc xs @ r) = Some (xs, r)"
  by (rule prefix_codec.dec_enc [OF prefix_codec_vec [OF assms(1)]]) (use assms(2) in \<open>simp add: vec_ok_def\<close>)

lemma data_receiver_codec: "prefix_codec borsh_data_receiver (read_data_receiver C) (data_receiver_ok C)"
  by unfold_locales (auto simp: read_data_receiver_def borsh_data_receiver_def codec_simps)

lemma hash_codec: "prefix_codec borsh_hash (take_exact 32) (\<lambda>h. length h = 32)"
  by unfold_locales (simp add: borsh_hash_def)

lemma u64_codec: "prefix_codec borsh_u64 (read_le 8) (\<lambda>_ :: u64. True)"
  by unfold_locales (simp add: borsh_u64_def codec_simps)

lemma account_id_codec: "prefix_codec borsh_string (read_account_id C) (aid_ok C)"
  by unfold_locales (simp add: codec_simps)

lemma bytes_codec: "prefix_codec borsh_bytes read_bytes bytes_ok"
  by unfold_locales (simp add: codec_simps)

lemmas receipt_vecs [codec_simps] =
  vec_codec_ok [OF data_receiver_codec] vec_codec_ok [OF hash_codec] vec_codec_ok [OF u64_codec]
  vec_codec_ok [OF action_codec.prefix_codec_axioms]
  prefix_codec.dec_enc [OF prefix_codec_option [OF account_id_codec]]
  prefix_codec.dec_enc [OF prefix_codec_option [OF bytes_codec]]

lemma read_action_receipt_ok [codec_simps]:
  "action_receipt_ok C a \<Longrightarrow> read_action_receipt C (borsh_action_receipt a @ r) = Some (a, r)"
  by (simp add: action_receipt_ok_def read_action_receipt_def borsh_action_receipt_def codec_simps)

lemma read_action_receipt_v2_ok [codec_simps]:
  "action_receipt_v2_ok C a \<Longrightarrow> read_action_receipt_v2 C (borsh_action_receipt_v2 a @ r) = Some (a, r)"
  by (simp add: action_receipt_v2_ok_def read_action_receipt_v2_def borsh_action_receipt_v2_def codec_simps)

lemma read_data_receipt_ok [codec_simps]:
  "data_receipt_ok d \<Longrightarrow> read_data_receipt (borsh_data_receipt d @ r) = Some (d, r)"
  by (simp add: data_receipt_ok_def read_data_receipt_def borsh_data_receipt_def codec_simps)

lemma read_distribution_ok [codec_simps]:
  "distribution_ok C g \<Longrightarrow> read_distribution C (borsh_distribution g @ r) = Some (g, r)"
  by (cases g) (simp_all add: read_distribution_def codec_simps)

interpretation receipt_codec: prefix_codec borsh_receipt "read_receipt C" "receipt_ok C"
proof
  fix x rest assume x: "receipt_ok C x"
  then have "read_receipt_enum C (borsh_receipt_enum (r_receipt x) @ rest) = Some (r_receipt x, rest)"
    by (cases "r_receipt x") (simp_all add: receipt_ok_def read_receipt_enum_def codec_simps)
  then show "read_receipt C (borsh_receipt x @ rest) = Some (x, rest)"
    using x by (simp add: receipt_ok_def read_receipt_def borsh_receipt_def codec_simps)
qed

text \<open>The second byte of a plain receipt is zero: its predecessor has at most 64 bytes.\<close>

lemma receipt_second_byte:
  assumes "receipt_ok C x"
  shows "\<exists>u r. borsh_receipt x = u # 0 # r"
proof -
  have "length (r_predecessor_id x) < 256"
    using assms validate_length [of C "r_predecessor_id x"] by (simp add: receipt_ok_def aid_ok_def)
  then show ?thesis
    by (simp add: borsh_receipt_def borsh_string_def borsh_len_small)
qed

fun stored_ok :: "'e crypto_scheme \<Rightarrow> ReceiptOrStateStoredReceipt \<Rightarrow> bool" where
  "stored_ok C (PlainReceipt r) \<longleftrightarrow> receipt_ok C r"
| "stored_ok C (StoredReceipt s) \<longleftrightarrow> receipt_ok C (ssr_receipt s)"

lemma read_metadata_ok [codec_simps]: "read_metadata (borsh_metadata m @ r) = Some (m, r)"
  by (simp add: read_metadata_def borsh_metadata_def codec_simps)

interpretation stored_codec: prefix_codec borsh_receipt_or_stored "read_receipt_or_stored C" "stored_ok C"
proof
  fix x rest assume x: "stored_ok C x"
  show "read_receipt_or_stored C (borsh_receipt_or_stored x @ rest) = Some (x, rest)"
  proof (cases x)
    case (PlainReceipt rc)
    obtain u r where "borsh_receipt rc = u # 0 # r"
      using receipt_second_byte [of C rc] x PlainReceipt by auto
    then show ?thesis
      using receipt_codec.dec_enc [of C rc rest] x PlainReceipt
      by (simp add: read_receipt_or_stored_def STATE_STORED_RECEIPT_TAG_def)
  next
    case (StoredReceipt st)
    then show ?thesis
      using x receipt_codec.dec_enc [of C "ssr_receipt st"]
      by (cases st) (simp_all add: read_receipt_or_stored_def read_state_stored_def codec_simps)
  qed
qed

section \<open>Properties\<close>

definition bw_receipt :: Receipt where
  "bw_receipt = \<lparr> r_predecessor_id = ''alice'', r_receiver_id = ''bob'', r_receipt_id = replicate 32 3,
     r_receipt = RActionV2 \<lparr> ar2_signer_id = ''alice'', ar2_refund_to = Some ''bob'',
       ar2_signer_public_key = ED25519 (replicate 32 1), ar2_gas_price = 7,
       ar2_output_data_receivers = [(replicate 32 4, ''bob'')], ar2_input_data_ids = [replicate 32 5],
       ar2_actions = [Transfer 5] \<rparr> \<rparr>"

text \<open>
  C34: Receipts in the state are read back as they were written. The two formats that share the
  trie columns, plain receipts and receipts with metadata, are told apart by their first two
  bytes whatever follows: decoding the encoding of either gives that value back and leaves the
  rest of the input, so no plain receipt is ever taken for one with metadata or the reverse.
\<close>

theorem stored_receipt_round_trip:
  assumes "stored_ok C x"
  shows "read_receipt_or_stored C (borsh_receipt_or_stored x @ rest) = Some (x, rest)
    \<and> (\<forall>y r. stored_ok C y \<longrightarrow> borsh_receipt_or_stored y @ r = borsh_receipt_or_stored x @ rest \<longrightarrow> y = x \<and> r = rest)"
proof (intro conjI allI impI)
  show "read_receipt_or_stored C (borsh_receipt_or_stored x @ rest) = Some (x, rest)"
    by (rule stored_codec.dec_enc [OF assms])
qed (use stored_codec.enc_unique [OF _ assms] in blast)+

theorem stored_receipt_round_trip_witness:
  "stored_ok toy_crypto (StoredReceipt (SsrV1 bw_receipt \<lparr> congestion_gas = 5, congestion_size = 6 \<rparr>))
   \<and> read_receipt_or_stored toy_crypto (borsh_receipt_or_stored
       (StoredReceipt (SsrV1 bw_receipt \<lparr> congestion_gas = 5, congestion_size = 6 \<rparr>)) @ [1])
     = Some (StoredReceipt (SsrV1 bw_receipt \<lparr> congestion_gas = 5, congestion_size = 6 \<rparr>), [1])"
proof -
  have "stored_ok toy_crypto (StoredReceipt (SsrV1 bw_receipt \<lparr> congestion_gas = 5, congestion_size = 6 \<rparr>))"
    using bw_names
    by (simp add: receipt_ok_def bw_receipt_def action_receipt_v2_ok_def vec_ok_def)
  then show ?thesis using stored_receipt_round_trip by blast
qed

end
