(* ===== verification/Apply_Receipt.thy ===== *)
theory Apply_Receipt
  imports Actions Borsh_Receipt
begin

text \<open>
  The execution of an action receipt: \<open>Runtime::apply_action_receipt\<close> and
  \<open>refund_unspent_gas_and_deposits\<close> of \<open>runtime/runtime/src/lib.rs\<close>, and \<open>validate_receipt\<close> of
  \<open>verifier.rs\<close>. The state at the last commit is the argument; a failed receipt rolls back to it.
  Receipts that are sent go to the sink in order.
\<close>

section \<open>Validation of new receipts\<close>

definition validate_account :: "'e crypto_scheme \<Rightarrow> AccountId \<Rightarrow> ReceiptValidationError \<Rightarrow> (unit, ReceiptValidationError) result" where
  "validate_account C a e = map_err (\<lambda>_. e) (validate C a)"

definition validate_action_receipt ::
  "'e crypto_scheme \<Rightarrow> LimitConfig \<Rightarrow> VersionedActionReceipt \<Rightarrow> AccountId \<Rightarrow> ProtocolVersion
     \<Rightarrow> (unit, ReceiptValidationError) result" where
  "validate_action_receipt C limits ar receiver pv =
     (if max_number_input_data_dependencies limits < word_of_nat (length (va_input_data_ids ar))
      then Err (NumberInputDataDependenciesExceeded (word_of_nat (length (va_input_data_ids ar)))
                 (max_number_input_data_dependencies limits))
      else
        result_bind (case va_refund_to ar of Some a \<Rightarrow> validate_account C a (InvalidRefundTo a) | None \<Rightarrow> Ok ()) (\<lambda>_.
          map_err ReceiptActionsValidation (validate_actions C limits (va_actions ar) receiver pv)))"

definition validate_data_receipt :: "LimitConfig \<Rightarrow> DataReceipt \<Rightarrow> (unit, ReceiptValidationError) result" where
  "validate_data_receipt limits d =
     (let data_len = word_of_nat (case dr_data d of Some x \<Rightarrow> length x | None \<Rightarrow> 0) in
      if max_length_returned_data limits < data_len
      then Err (ReturnedValueLengthExceeded data_len (max_length_returned_data limits)) else Ok ())"

datatype ValidateReceiptMode = NewReceipt | ExistingReceipt

definition validate_receipt ::
  "'e crypto_scheme \<Rightarrow> LimitConfig \<Rightarrow> Receipt \<Rightarrow> ProtocolVersion \<Rightarrow> ValidateReceiptMode
     \<Rightarrow> (unit, ReceiptValidationError) result" where
  "validate_receipt C limits r pv mode =
     (let receipt_size = word_of_nat (length (borsh_receipt r)) in
      if mode = NewReceipt \<and> max_receipt_size limits < receipt_size
      then Err (ReceiptSizeExceeded receipt_size (max_receipt_size limits))
      else
        result_bind (validate_account C (r_predecessor_id r) (InvalidPredecessorId (r_predecessor_id r))) (\<lambda>_.
        result_bind (validate_account C (r_receiver_id r) (InvalidReceiptReceiverId (r_receiver_id r))) (\<lambda>_.
          case versioned (r_receipt r) of
            VAction a \<Rightarrow> validate_action_receipt C limits a (r_receiver_id r) pv
          | VPromiseYield a \<Rightarrow> validate_action_receipt C limits a (r_receiver_id r) pv
          | VData d \<Rightarrow> validate_data_receipt limits d
          | VPromiseResume d \<Rightarrow> validate_data_receipt limits d
          | VGlobalContractDistribution _ \<Rightarrow> Ok ())))"

section \<open>State\<close>

record BalanceStats =
  bs_tx_burnt_amount :: Balance
  bs_other_burnt_amount :: Balance
  bs_gas_deficit_amount :: Balance

record ReceiptProcState =
  rp_trie :: TrieUpdate
  rp_stats :: BalanceStats
  rp_outgoing :: "Receipt list"
  rp_instant :: "Receipt list"
  rp_proposals :: "(AccountId \<times> PublicKey \<times> Balance) list"

record GasRefundResult =
  price_deficit :: Balance
  price_surplus :: Balance
  refund_penalty :: Balance

section \<open>The data a receipt waited for\<close>

fun take_promise_results ::
  "AccountId \<Rightarrow> CryptoHash list \<Rightarrow> TrieUpdate \<Rightarrow> (TrieUpdate \<times> bytes option list, RuntimeError) result" where
  "take_promise_results account_id [] s = Ok (s, [])"
| "take_promise_results account_id (d # ds) s =
     result_bind (map_err RStorageError
         (trie_read s (KReceivedData account_id d) (t_received_data s (account_id, d)))) (\<lambda>received.
     case received of
       None \<Rightarrow> Err (RStorageError (StorageInconsistentState ''received data should be in the state''))
     | Some x \<Rightarrow>
         result_bind (take_promise_results account_id ds
             (s \<lparr> t_received_data := (t_received_data s)((account_id, d) := None) \<rparr>)) (\<lambda>(s', xs).
           Ok (s', x # xs)))"

section \<open>The loop over the actions\<close>

definition set_error_index :: "nat \<Rightarrow> ActionResult \<Rightarrow> ActionResult" where
  "set_error_index i r = (case res_result r of
     Err e \<Rightarrow> r \<lparr> res_result := Err (e \<lparr> ae_index := Some (word_of_nat i) \<rparr>) \<rparr> | Ok _ \<Rightarrow> r)"

fun validate_new_receipts ::
  "'e crypto_scheme \<Rightarrow> LimitConfig \<Rightarrow> ProtocolVersion \<Rightarrow> Receipt list \<Rightarrow> (unit, ReceiptValidationError) result" where
  "validate_new_receipts C limits pv [] = Ok ()"
| "validate_new_receipts C limits pv (r # rs) =
     result_bind (validate_receipt C limits r pv NewReceipt) (\<lambda>_. validate_new_receipts C limits pv rs)"

definition check_new_receipts :: "'e crypto_scheme \<Rightarrow> ApplyState \<Rightarrow> ActionResult \<Rightarrow> ActionResult" where
  "check_new_receipts C st res =
     (if is_ok (res_result res)
      then case validate_new_receipts C (limit_config (as_config st)) (as_protocol_version st) (res_new_receipts res) of
        Err e \<Rightarrow> fail_with (NewReceiptValidationError e) res
      | Ok _ \<Rightarrow> res
      else res)"

fun apply_actions ::
  "'e crypto_scheme \<Rightarrow> RuntimeEnv \<Rightarrow> ApplyState \<Rightarrow> Receipt \<Rightarrow> VersionedActionReceipt \<Rightarrow> bytes option list
     \<Rightarrow> nat \<Rightarrow> Action list \<Rightarrow> receipt_state \<Rightarrow> ActionResult
     \<Rightarrow> (receipt_state \<times> ActionResult, RuntimeError) result" where
  "apply_actions C env st receipt ar prs i [] rst res = Ok (rst, res)"
| "apply_actions C env st receipt ar prs i (a # as) rst res =
     result_bind (apply_action C env st receipt ar prs i a rst) (\<lambda>(rst', new_result).
     result_bind (merge_result res (check_new_receipts C st new_result)) (\<lambda>merged.
       if is_ok (res_result merged) then apply_actions C env st receipt ar prs (Suc i) as rst' merged
       else Ok (rst', set_error_index i merged)))"

text \<open>The balance of the account must cover its storage, and then the account is written back.\<close>

definition finish_account ::
  "RuntimeConfig \<Rightarrow> AccountId \<Rightarrow> receipt_state \<Rightarrow> ActionResult \<Rightarrow> (TrieUpdate \<times> ActionResult, RuntimeError) result" where
  "finish_account config account_id rst res =
     (case rst of (s, account, _) \<Rightarrow>
        if \<not> is_ok (res_result res) then Ok (s, res)
        else case account of
          None \<Rightarrow> Ok (s, res)
        | Some a \<Rightarrow>
            (case check_storage_stake a (amount a) config of
               Ok _ \<Rightarrow> Ok (set_account account_id a s, res)
             | Err (LackBalanceForStorageStaking missing) \<Rightarrow>
                 result_bind (merge_result res
                     (fail_with (ActionLackBalanceForState account_id missing) default_result)) (\<lambda>res'. Ok (s, res'))
             | Err (StakingStorageError err) \<Rightarrow> Err (RStorageError (StorageInconsistentState err))))"

section \<open>Refunds\<close>

definition refund_unspent_gas_and_deposits ::
  "'e crypto_scheme \<Rightarrow> Balance \<Rightarrow> Receipt \<Rightarrow> VersionedActionReceipt \<Rightarrow> RuntimeConfig \<Rightarrow> ActionResult
     \<Rightarrow> (ActionResult \<times> GasRefundResult, RuntimeError) result" where
  "refund_unspent_gas_and_deposits C current_gas_price receipt ar config res =
     map_err fee_error (
       result_bind (total_deposit (va_actions ar) 0) (\<lambda>deposit_sum.
       result_bind (total_prepaid_gas (va_actions ar) 0) (\<lambda>pg.
       result_bind (total_prepaid_send_fees C config (va_actions ar) 0) (\<lambda>sf.
       result_bind (checked_add_result pg sf) (\<lambda>prepaid_gas.
       result_bind (total_prepaid_exec_fees C config (r_receiver_id receipt) (va_actions ar) 0) (\<lambda>ef.
       result_bind (checked_add_result ef (execution (action_fees (fees config) cost_new_action_receipt)))
         (\<lambda>prepaid_exec_gas.
       let failed = \<not> is_ok (res_result res);
           deposit_refund = (if failed then deposit_sum else 0) in
       result_bind (checked_add_result prepaid_gas prepaid_exec_gas) (\<lambda>all_gas.
       result_bind (ok_or (checked_sub all_gas (if failed then res_gas_burnt res else res_gas_used res)) FeePanic)
         (\<lambda>gross_gas_refund.
       result_bind (gas_penalty_for_gas_refund (fees config) gross_gas_refund) (\<lambda>penalty.
       result_bind (ok_or (checked_sub gross_gas_refund penalty) FeePanic) (\<lambda>net_gas_refund.
       result_bind (safe_gas_to_balance (va_gas_price ar) net_gas_refund) (\<lambda>gas_balance_refund.
       result_bind (safe_gas_to_balance (va_gas_price ar) penalty) (\<lambda>penalty_balance.
       result_bind (if va_gas_price ar < current_gas_price
           then safe_gas_to_balance (current_gas_price - va_gas_price ar) (res_gas_burnt res) else Ok 0) (\<lambda>deficit.
       result_bind (if va_gas_price ar < current_gas_price then Ok 0
           else safe_gas_to_balance (va_gas_price ar - current_gas_price) (res_gas_burnt res)) (\<lambda>surplus.
       let res1 = (if 0 < deposit_refund
             then push_receipt (new_balance_refund (balance_refund_receiver receipt) deposit_refund) res else res);
           res2 = (if 0 < gas_balance_refund
             then push_receipt (new_gas_refund (va_signer_id ar) gas_balance_refund (va_signer_public_key ar)) res1
             else res1)
       in Ok (res2, \<lparr> price_deficit = deficit, price_surplus = surplus, refund_penalty = penalty_balance \<rparr>))))))))))))))))"

section \<open>Outgoing receipts\<close>

fun add_output_receivers :: "(CryptoHash \<times> AccountId) list \<Rightarrow> ReceiptEnum \<Rightarrow> ReceiptEnum option" where
  "add_output_receivers out (RAction a) =
     Some (RAction (a \<lparr> ar_output_data_receivers := ar_output_data_receivers a @ out \<rparr>))"
| "add_output_receivers out (RPromiseYield a) =
     Some (RPromiseYield (a \<lparr> ar_output_data_receivers := ar_output_data_receivers a @ out \<rparr>))"
| "add_output_receivers out (RActionV2 a) =
     Some (RActionV2 (a \<lparr> ar2_output_data_receivers := ar2_output_data_receivers a @ out \<rparr>))"
| "add_output_receivers out (RPromiseYieldV2 a) =
     Some (RPromiseYieldV2 (a \<lparr> ar2_output_data_receivers := ar2_output_data_receivers a @ out \<rparr>))"
| "add_output_receivers out _ = None"

definition data_receipts :: "AccountId \<Rightarrow> bytes option \<Rightarrow> (CryptoHash \<times> AccountId) list \<Rightarrow> Receipt list" where
  "data_receipts account_id data out =
     map (\<lambda>(data_id, receiver). \<lparr> r_predecessor_id = account_id, r_receiver_id = receiver,
            r_receipt_id = default_hash, r_receipt = RData \<lparr> dr_data_id = data_id, dr_data = data \<rparr> \<rparr>) out"

definition route_output :: "AccountId \<Rightarrow> (CryptoHash \<times> AccountId) list \<Rightarrow> ActionResult \<Rightarrow> (Receipt list, RuntimeError) result" where
  "route_output account_id out res =
     (let receipts = res_new_receipts res in
      if out = [] then Ok receipts
      else case res_result res of
        Ok (ReturnReceiptIndex i) \<Rightarrow>
          (if length receipts \<le> unat i then Err (RuntimePanic ''receipt index'')
           else case add_output_receivers out (r_receipt (receipts ! unat i)) of
             None \<Rightarrow> Err (RuntimePanic ''the receipt should be an action receipt'')
           | Some e \<Rightarrow> Ok (receipts[unat i := (receipts ! unat i) \<lparr> r_receipt := e \<rparr>]))
      | Ok (ReturnValue data) \<Rightarrow> Ok (receipts @ data_receipts account_id (Some data) out)
      | Ok ReturnNone \<Rightarrow> Ok (receipts @ data_receipts account_id (Some []) out)
      | Err _ \<Rightarrow> Ok (receipts @ data_receipts account_id None out))"

definition create_receipt_id :: "'e crypto_scheme \<Rightarrow> ApplyState \<Rightarrow> CryptoHash \<Rightarrow> nat \<Rightarrow> CryptoHash" where
  "create_receipt_id C st parent i = create_hash_index C parent (as_block_height st) (word_of_nat i)"

definition assign_receipt_ids :: "'e crypto_scheme \<Rightarrow> ApplyState \<Rightarrow> CryptoHash \<Rightarrow> Receipt list \<Rightarrow> Receipt list" where
  "assign_receipt_ids C st parent rs =
     map (\<lambda>(i, r). r \<lparr> r_receipt_id := create_receipt_id C st parent i \<rparr>) (enumerate 0 rs)"

definition send_receipts :: "ProtocolVersion \<Rightarrow> Receipt list \<Rightarrow> ReceiptProcState \<Rightarrow> ReceiptProcState" where
  "send_receipts pv rs ps = ps \<lparr>
     rp_instant := rp_instant ps @ filter (\<lambda>r. is_instant_receipt r pv) rs,
     rp_outgoing := rp_outgoing ps @ filter (\<lambda>r. \<not> is_instant_receipt r pv) rs \<rparr>"

definition receipt_status :: "'e crypto_scheme \<Rightarrow> ApplyState \<Rightarrow> CryptoHash \<Rightarrow> (ReturnData, ActionError) result \<Rightarrow> ExecutionStatus" where
  "receipt_status C st parent r =
     (case r of
        Ok (ReturnReceiptIndex i) \<Rightarrow> StatusSuccessReceiptId (create_receipt_id C st parent (unat i))
      | Ok (ReturnValue data) \<Rightarrow> StatusSuccessValue data
      | Ok ReturnNone \<Rightarrow> StatusSuccessValue []
      | Err e \<Rightarrow> StatusFailure (TxActionError e))"

section \<open>Burnt tokens and rewards\<close>

definition receipt_tokens_burnt ::
  "Balance \<Rightarrow> Gas \<Rightarrow> GasRefundResult \<Rightarrow> Balance \<Rightarrow> (Balance, RuntimeError) result" where
  "receipt_tokens_burnt gas_price burnt_gas grr tokens_burnt =
     map_err fee_error (
       result_bind (safe_gas_to_balance gas_price burnt_gas) (\<lambda>b0.
       result_bind (ok_or (checked_sub b0 (price_deficit grr)) FeePanic) (\<lambda>b1.
       result_bind (safe_add_balance b1 (price_surplus grr)) (\<lambda>b2.
       result_bind (safe_add_balance b2 (refund_penalty grr)) (\<lambda>b3.
         safe_add_balance b3 tokens_burnt)))))"

definition receiver_reward :: "RuntimeConfig \<Rightarrow> Balance \<Rightarrow> Gas \<Rightarrow> (Balance, RuntimeError) result" where
  "receiver_reward config gas_price gas_for_call =
     map_err fee_error (
       result_bind (unwrap_mul gas_for_call (scast (fst (burnt_gas_reward (fees config))))) (\<lambda>g.
       result_bind (let d = scast (snd (burnt_gas_reward (fees config))) :: u64 in
           if d = 0 then Err FeePanic else Ok (g div d)) (\<lambda>reward_gas.
         safe_gas_to_balance gas_price reward_gas)))"

definition pay_reward ::
  "AccountId \<Rightarrow> Balance \<Rightarrow> TrieUpdate \<Rightarrow> Balance \<Rightarrow> (TrieUpdate \<times> Balance, RuntimeError) result" where
  "pay_reward account_id reward s tx_burnt =
     (if reward = 0 then Ok (s, tx_burnt)
      else
        result_bind (map_err RStorageError (get_account s account_id)) (\<lambda>account.
        case account of
          None \<Rightarrow> Ok (s, tx_burnt)
        | Some a \<Rightarrow>
            result_bind (ok_or (checked_sub tx_burnt reward) (RuntimePanic ''reward'')) (\<lambda>burnt'.
            result_bind (map_err fee_error (safe_add_balance (amount a) reward)) (\<lambda>b.
              Ok (set_account account_id (set_amount b a) s, burnt')))))"

section \<open>One receipt\<close>

definition no_refund :: GasRefundResult where
  "no_refund = \<lparr> price_deficit = 0, price_surplus = 0, refund_penalty = 0 \<rparr>"

text \<open>After the actions: refunds, commit or rollback, burnt tokens, reward, and the receipts sent.\<close>

definition settle_receipt ::
  "'e crypto_scheme \<Rightarrow> ApplyState \<Rightarrow> Receipt \<Rightarrow> VersionedActionReceipt \<Rightarrow> TrieUpdate \<Rightarrow> TrieUpdate \<Rightarrow> ActionResult
     \<Rightarrow> ReceiptProcState \<Rightarrow> (ReceiptProcState \<times> ExecutionOutcomeWithId, RuntimeError) result" where
  "settle_receipt C st receipt ar committed s res0 ps =
     (let account_id = r_receiver_id receipt; stats = rp_stats ps;
          refund = is_system (r_predecessor_id receipt) in
      result_bind
        (if refund then
           (if is_ok (res_result res0) then Ok (stats, res0, no_refund)
            else map_err fee_error (
              result_bind (total_deposit (va_actions ar) 0) (\<lambda>d.
              result_bind (safe_add_balance (bs_other_burnt_amount stats) d) (\<lambda>b.
                Ok (stats \<lparr> bs_other_burnt_amount := b \<rparr>, res0, no_refund)))))
         else
           result_bind (refund_unspent_gas_and_deposits C (as_gas_price st) receipt ar (as_config st) res0)
             (\<lambda>(r, g). Ok (stats, r, g))) (\<lambda>(stats1, res, grr).
      result_bind (map_err fee_error (safe_add_balance (bs_gas_deficit_amount stats1) (price_deficit grr))) (\<lambda>gd.
      let s1 = (if is_ok (res_result res) then s else committed);
          gas_burnt = (if refund then 0 else res_gas_burnt res) in
      result_bind (receipt_tokens_burnt (as_gas_price st) gas_burnt grr (res_tokens_burnt res)) (\<lambda>tokens_burnt.
      result_bind (receiver_reward (as_config st) (va_gas_price ar) (res_gas_burnt_for_function_call res)) (\<lambda>reward.
      result_bind (pay_reward account_id reward s1 tokens_burnt) (\<lambda>(s2, tx_burnt).
      result_bind (map_err fee_error (safe_add_balance (bs_tx_burnt_amount stats1) tx_burnt)) (\<lambda>tb.
      result_bind (route_output account_id (va_output_data_receivers ar) res) (\<lambda>receipts.
      let sent = assign_receipt_ids C st (r_receipt_id receipt) receipts in
        Ok (send_receipts (as_protocol_version st) sent (ps \<lparr> rp_trie := s2,
              rp_stats := stats1 \<lparr> bs_gas_deficit_amount := gd, bs_tx_burnt_amount := tb \<rparr>,
              rp_proposals := rp_proposals ps @ res_validator_proposals res \<rparr>),
            \<lparr> eo_id = r_receipt_id receipt, eo_logs = res_logs res,
              eo_receipt_ids = map r_receipt_id (filter (\<lambda>r. action_receipt r \<noteq> None) sent),
              eo_gas_burnt = res_gas_burnt res, eo_compute_usage = Some (res_compute_usage res),
              eo_tokens_burnt = tokens_burnt, eo_executor_id = account_id,
              eo_status = receipt_status C st (r_receipt_id receipt) (res_result res) \<rparr>)))))))))"

definition apply_action_receipt ::
  "'e crypto_scheme \<Rightarrow> RuntimeEnv \<Rightarrow> ApplyState \<Rightarrow> Receipt \<Rightarrow> ReceiptProcState
     \<Rightarrow> (ReceiptProcState \<times> ExecutionOutcomeWithId, RuntimeError) result" where
  "apply_action_receipt C env st receipt ps =
     (case action_receipt receipt of
        None \<Rightarrow> Err (RuntimePanic ''given receipt should be an action receipt'')
      | Some ar \<Rightarrow>
          (let account_id = r_receiver_id receipt;
               exec_fees = execution (action_fees (fees (as_config st)) cost_new_action_receipt);
               res0 = default_result \<lparr> res_gas_used := exec_fees, res_gas_burnt := exec_fees,
                        res_compute_usage := exec_fees \<rparr> in
           result_bind (take_promise_results account_id (va_input_data_ids ar) (rp_trie ps)) (\<lambda>(committed, prs).
           result_bind (map_err RStorageError (get_account committed account_id)) (\<lambda>account.
           result_bind (apply_actions C env st receipt ar prs 0 (va_actions ar)
               (committed, account, r_predecessor_id receipt) res0) (\<lambda>(rst, res1).
           result_bind (finish_account (as_config st) account_id rst res1) (\<lambda>(s, res2).
             settle_receipt C st receipt ar committed s res2 ps))))))"

end
