(* ===== verification/Process_Receipt.thy ===== *)
theory Process_Receipt
  imports Apply_Receipt
begin

text \<open>
  One receipt that reaches its account: \<open>Runtime::process_receipt\<close> and \<open>process_action_receipt\<close> of
  \<open>runtime/runtime/src/lib.rs\<close> with the accessors of \<open>core/store/src/utils/mod.rs\<close> they use, and the
  distribution of global contracts over the shards, \<open>global_contracts.rs\<close>. An action receipt
  runs when all its input data has been received, and waits in the state until then; a
  promise yield waits for the one datum that resumes it.
\<close>

type_synonym processed = "(ReceiptProcState \<times> ExecutionOutcomeWithId option, RuntimeError) result"

section \<open>Data and waiting receipts in the state\<close>

definition set_received_data :: "AccountId \<Rightarrow> CryptoHash \<Rightarrow> bytes option \<Rightarrow> TrieUpdate \<Rightarrow> TrieUpdate" where
  "set_received_data account_id data_id data s =
     s \<lparr> t_received_data := (t_received_data s)((account_id, data_id) \<mapsto> data) \<rparr>"

definition has_received_data :: "TrieUpdate \<Rightarrow> AccountId \<Rightarrow> CryptoHash \<Rightarrow> (bool, StorageError) result" where
  "has_received_data s account_id data_id =
     result_bind (trie_read s (KReceivedData account_id data_id) (t_received_data s (account_id, data_id)))
       (\<lambda>x. Ok (x \<noteq> None))"

definition set_postponed_receipt :: "Receipt \<Rightarrow> TrieUpdate \<Rightarrow> (TrieUpdate, RuntimeError) result" where
  "set_postponed_receipt receipt s =
     (case versioned (r_receipt receipt) of
        VAction _ \<Rightarrow> Ok (s \<lparr> t_postponed := (t_postponed s)((r_receiver_id receipt, r_receipt_id receipt) \<mapsto> receipt) \<rparr>)
      | _ \<Rightarrow> Err (RuntimePanic ''set_postponed_receipt''))"

definition set_promise_yield_receipt :: "Receipt \<Rightarrow> TrieUpdate \<Rightarrow> (TrieUpdate, RuntimeError) result" where
  "set_promise_yield_receipt receipt s =
     (case versioned (r_receipt receipt) of
        VPromiseYield ar \<Rightarrow>
          (case va_input_data_ids ar of
             [data_id] \<Rightarrow> Ok (s \<lparr> t_yields := (t_yields s)((r_receiver_id receipt, data_id) \<mapsto> receipt) \<rparr>)
           | _ \<Rightarrow> Err (RuntimePanic ''set_promise_yield_receipt''))
      | _ \<Rightarrow> Err (RuntimePanic ''Expected PromiseYield receipt''))"

section \<open>Action and data receipts\<close>

text \<open>The loop over the input data: what is missing is linked to the receipt and counted.\<close>

fun await_data ::
  "AccountId \<Rightarrow> CryptoHash \<Rightarrow> CryptoHash list \<Rightarrow> TrieUpdate \<Rightarrow> u32 \<Rightarrow> (TrieUpdate \<times> u32, RuntimeError) result" where
  "await_data account_id receipt_id [] s pending = Ok (s, pending)"
| "await_data account_id receipt_id (d # ds) s pending =
     result_bind (map_err RStorageError (has_received_data s account_id d)) (\<lambda>received.
       if received then await_data account_id receipt_id ds s pending
       else result_bind (ok_or (checked_add pending 1) (RuntimePanic ''pending_data_count'')) (\<lambda>pending'.
         await_data account_id receipt_id ds
           (s \<lparr> t_postponed_ids := (t_postponed_ids s)((account_id, d) \<mapsto> receipt_id) \<rparr>) pending'))"

definition execute ::
  "'e crypto_scheme \<Rightarrow> RuntimeEnv \<Rightarrow> ApplyState \<Rightarrow> Receipt \<Rightarrow> ReceiptProcState \<Rightarrow> processed" where
  "execute C env st receipt ps =
     result_bind (apply_action_receipt C env st receipt ps) (\<lambda>(ps', outcome). Ok (ps', Some outcome))"

definition process_action_receipt ::
  "'e crypto_scheme \<Rightarrow> RuntimeEnv \<Rightarrow> ApplyState \<Rightarrow> Receipt \<Rightarrow> VersionedActionReceipt \<Rightarrow> ReceiptProcState \<Rightarrow> processed" where
  "process_action_receipt C env st receipt ar ps =
     (let account_id = r_receiver_id receipt in
      result_bind (await_data account_id (r_receipt_id receipt) (va_input_data_ids ar) (rp_trie ps) 0) (\<lambda>(s, pending).
        if pending = 0 then execute C env st receipt (ps \<lparr> rp_trie := s \<rparr>)
        else
          result_bind (set_postponed_receipt receipt
              (s \<lparr> t_pending_counts := (t_pending_counts s)((account_id, r_receipt_id receipt) \<mapsto> pending) \<rparr>)) (\<lambda>s'.
            Ok (ps \<lparr> rp_trie := s' \<rparr>, None))))"

definition process_data_receipt ::
  "'e crypto_scheme \<Rightarrow> RuntimeEnv \<Rightarrow> ApplyState \<Rightarrow> AccountId \<Rightarrow> DataReceipt \<Rightarrow> ReceiptProcState \<Rightarrow> processed" where
  "process_data_receipt C env st account_id d ps =
     (let s = set_received_data account_id (dr_data_id d) (dr_data d) (rp_trie ps) in
      result_bind (map_err RStorageError (trie_read s (KPostponedReceiptId account_id (dr_data_id d))
          (t_postponed_ids s (account_id, dr_data_id d)))) (\<lambda>waiting.
      case waiting of
        None \<Rightarrow> Ok (ps \<lparr> rp_trie := s \<rparr>, None)
      | Some receipt_id \<Rightarrow>
          (let s1 = s \<lparr> t_postponed_ids := (t_postponed_ids s)((account_id, dr_data_id d) := None) \<rparr> in
           result_bind (map_err RStorageError (trie_read s1 (KPendingDataCount account_id receipt_id)
               (t_pending_counts s1 (account_id, receipt_id)))) (\<lambda>count.
           case count of
             None \<Rightarrow> Err (RStorageError (StorageInconsistentState ''pending data count should be in the state''))
           | Some pending_data_count \<Rightarrow>
               if pending_data_count = 1 then
                 (let s2 = s1 \<lparr> t_pending_counts := (t_pending_counts s1)((account_id, receipt_id) := None) \<rparr> in
                  result_bind (map_err RStorageError (trie_read s2 (KPostponedReceipt account_id receipt_id)
                      (t_postponed s2 (account_id, receipt_id)))) (\<lambda>ready.
                  case ready of
                    None \<Rightarrow> Err (RStorageError (StorageInconsistentState ''pending receipt should be in the state''))
                  | Some ready_receipt \<Rightarrow>
                      execute C env st ready_receipt (ps \<lparr> rp_trie :=
                        s2 \<lparr> t_postponed := (t_postponed s2)((account_id, receipt_id) := None) \<rparr> \<rparr>)))
               else
                 result_bind (ok_or (checked_sub pending_data_count 1) (RStorageError (StorageInconsistentState
                     ''pending data count is 0, but there is a new DataReceipt''))) (\<lambda>n.
                   Ok (ps \<lparr> rp_trie :=
                     s1 \<lparr> t_pending_counts := (t_pending_counts s1)((account_id, receipt_id) \<mapsto> n) \<rparr> \<rparr>, None))))))"

section \<open>Promise yields\<close>

definition process_promise_resume ::
  "'e crypto_scheme \<Rightarrow> RuntimeEnv \<Rightarrow> ApplyState \<Rightarrow> AccountId \<Rightarrow> DataReceipt \<Rightarrow> ReceiptProcState \<Rightarrow> processed" where
  "process_promise_resume C env st account_id d ps =
     (let s = rp_trie ps; k = (account_id, dr_data_id d);
          improved = feature_enabled YieldResumeImprovements (as_protocol_version st) in
      result_bind (if dr_data d = None \<and> improved
          then map_err RStorageError (trie_read s (KPromiseYieldStatus account_id (dr_data_id d)) (t_yield_resumed s k))
          else Ok None) (\<lambda>status.
      if status = Some True then Ok (ps, None)
      else
        result_bind (map_err RStorageError (trie_read s (KPromiseYieldReceipt account_id (dr_data_id d)) (t_yields s k)))
          (\<lambda>yielded.
          case yielded of
            None \<Rightarrow> Ok (ps, None)
          | Some yield_receipt \<Rightarrow>
              (let s1 = s \<lparr> t_yields := (t_yields s)(k := None) \<rparr>;
                   s2 = (if improved then s1 \<lparr> t_yield_resumed := (t_yield_resumed s1)(k := None) \<rparr> else s1)
               in execute C env st yield_receipt
                    (ps \<lparr> rp_trie := set_received_data account_id (dr_data_id d) (dr_data d) s2 \<rparr>)))))"

section \<open>Global contract distribution\<close>

definition check_and_update_nonce ::
  "ProtocolVersion \<Rightarrow> GlobalContractDistributionReceipt \<Rightarrow> TrieUpdate \<Rightarrow> (TrieUpdate \<times> bool, RuntimeError) result" where
  "check_and_update_nonce pv g s =
     (if \<not> feature_enabled GlobalContractDistributionNonce pv then Ok (s, True)
      else
        result_bind (get_nonce s (gcd_id g)) (\<lambda>stored_nonce.
          if gcd_nonce g < stored_nonce then Ok (s, False)
          else Ok (set_nonce (gcd_id g) (gcd_nonce g) s, True)))"

definition apply_distribution_current_shard ::
  "ProtocolVersion \<Rightarrow> GlobalContractDistributionReceipt \<Rightarrow> TrieUpdate \<Rightarrow> (TrieUpdate, RuntimeError) result" where
  "apply_distribution_current_shard pv g s =
     result_bind (check_and_update_nonce pv g s) (\<lambda>(s1, fresh).
       Ok (if fresh then s1 \<lparr> t_global_code := (t_global_code s1)(gcd_id g \<mapsto> gcd_code g) \<rparr> else s1))"

text \<open>The delivered shards as a sorted set, and the first shard of the layout that is not among them.\<close>

definition delivered_shards :: "ShardId \<Rightarrow> GlobalContractDistributionReceipt \<Rightarrow> ShardId list" where
  "delivered_shards current g = sort (remdups (gcd_delivered g @ [current]))"

definition next_distribution ::
  "ShardId list \<Rightarrow> ShardId \<Rightarrow> GlobalContractDistributionReceipt \<Rightarrow> GlobalContractDistributionReceipt option" where
  "next_distribution shard_ids current g =
     (case filter (\<lambda>sh. sh \<notin> set (delivered_shards current g)) shard_ids of
        [] \<Rightarrow> None
      | next_shard # _ \<Rightarrow> Some (gcd_forward g next_shard (delivered_shards current g)))"

definition forward_distribution_next_shard ::
  "'e crypto_scheme \<Rightarrow> RuntimeEnv \<Rightarrow> ApplyState \<Rightarrow> Receipt \<Rightarrow> GlobalContractDistributionReceipt \<Rightarrow> ReceiptProcState
     \<Rightarrow> (ReceiptProcState, RuntimeError) result" where
  "forward_distribution_next_shard C env st receipt g ps =
     result_bind (env_shard_ids env) (\<lambda>shard_ids.
       case next_distribution shard_ids (as_shard_id st) g of
         None \<Rightarrow> Ok ps
       | Some g' \<Rightarrow>
           (let next_receipt = (new_global_contract_distribution (r_predecessor_id receipt) g')
                  \<lparr> r_receipt_id := create_receipt_id C st (r_receipt_id receipt) 0 \<rparr>
            in Ok (ps \<lparr> rp_outgoing := rp_outgoing ps @ [next_receipt] \<rparr>)))"

definition apply_global_contract_distribution_receipt ::
  "'e crypto_scheme \<Rightarrow> RuntimeEnv \<Rightarrow> ApplyState \<Rightarrow> Receipt \<Rightarrow> GlobalContractDistributionReceipt \<Rightarrow> ReceiptProcState
     \<Rightarrow> (ReceiptProcState, RuntimeError) result" where
  "apply_global_contract_distribution_receipt C env st receipt g ps =
     result_bind (apply_distribution_current_shard (as_protocol_version st) g (rp_trie ps)) (\<lambda>s.
       forward_distribution_next_shard C env st receipt g (ps \<lparr> rp_trie := s \<rparr>))"

section \<open>One receipt\<close>

definition process_receipt ::
  "'e crypto_scheme \<Rightarrow> RuntimeEnv \<Rightarrow> ApplyState \<Rightarrow> Receipt \<Rightarrow> ReceiptProcState \<Rightarrow> processed" where
  "process_receipt C env st receipt ps =
     (let account_id = r_receiver_id receipt in
      case versioned (r_receipt receipt) of
        VData d \<Rightarrow> process_data_receipt C env st account_id d ps
      | VAction ar \<Rightarrow> process_action_receipt C env st receipt ar ps
      | VPromiseYield _ \<Rightarrow>
          result_bind (set_promise_yield_receipt receipt (rp_trie ps)) (\<lambda>s. Ok (ps \<lparr> rp_trie := s \<rparr>, None))
      | VPromiseResume d \<Rightarrow> process_promise_resume C env st account_id d ps
      | VGlobalContractDistribution g \<Rightarrow>
          result_bind (apply_global_contract_distribution_receipt C env st receipt g ps) (\<lambda>ps'. Ok (ps', None)))"

end
