(* ===== verification/Receipt_Ledger.thy ===== *)
theory Receipt_Ledger
  imports Apply_Receipt Chunk_Ledger
begin

text \<open>
  The ledger of an action receipt. The worth of a receipt in execution is what the state holds,
  with the receipt's account counted at the value the actions have given it so far, plus what
  has been burnt, plus what the new receipts carry, minus the gas that is used but not burnt
  yet, at the receipt's gas price. Every action adds its own deposit to the worth and nothing
  else; refunds, burnt gas and penalties then account for all the gas that was prepaid.
\<close>

text \<open>Token sums are sums of \<^const>\<open>unat\<close> values, also where a difference makes them integers.\<close>

declare of_nat_unat [simp del]

section \<open>Tokens with one account set aside\<close>

definition others :: "AccountId \<Rightarrow> TrieUpdate \<Rightarrow> nat" where
  "others aid s = bt_sum account_tokens (bt_remove aid (t_accounts s)) + bt_sum key_tokens (t_access_keys s)"

definition held :: "Account option \<Rightarrow> nat" where
  "held acct = (case acct of None \<Rightarrow> 0 | Some a \<Rightarrow> account_tokens a)"

lemma held_simps [simp]: "held None = 0" "held (Some a) = account_tokens a"
  by (simp_all add: held_def)

lemma bt_sum_remove_get:
  "bt_sum f (bt_remove k m) + (case bt_get m k of None \<Rightarrow> 0 | Some w \<Rightarrow> f w) = bt_sum f m"
proof (cases "bt_get m k")
  case None
  have "bt_get m k = None \<Longrightarrow> bt_sum f (bt_remove k m) = bt_sum f m"
    by (induction k m rule: bt_remove.induct) (auto split: if_splits)
  then show ?thesis using None by simp
qed (simp add: bt_sum_remove)

lemma others_held: "others aid s + held (bt_get (t_accounts s) aid) = state_tokens s"
  using bt_sum_remove_get [of account_tokens aid "t_accounts s"]
  by (simp add: others_def held_def state_tokens_def)

lemma state_tokens_written:
  assumes "trie_inv s"
  shows "state_tokens (set_account aid a s) = others aid s + account_tokens a"
proof (cases "bt_get (t_accounts s) aid")
  case None
  then show ?thesis using others_held [of aid s] bt_sum_new [OF None, of account_tokens a]
    by (simp add: state_tokens_def)
next
  case (Some v)
  then show ?thesis
    using others_held [of aid s] state_tokens_set_account [OF Some assms, of a] by simp
qed

lemma others_frame:
  "t_accounts s' = t_accounts s \<Longrightarrow> t_access_keys s' = t_access_keys s \<Longrightarrow> others aid s' = others aid s"
  by (simp add: others_def)

lemma others_new_key:
  "bt_get (t_access_keys s) (a, pk) = None
     \<Longrightarrow> others aid (set_access_key a pk k s) = others aid s + key_tokens k"
  by (simp add: others_def bt_sum_new)

lemma others_set_key:
  "bt_get (t_access_keys s) (a, pk) = Some k \<Longrightarrow> trie_inv s
     \<Longrightarrow> others aid (set_access_key a pk k' s) + key_tokens k = others aid s + key_tokens k'"
  using bt_sum_upd [of "t_access_keys s" "(a, pk)" k key_tokens k'] by (simp add: others_def trie_inv_def)

lemma others_remove_key:
  "bt_get (t_access_keys s) (a, pk) = Some k
     \<Longrightarrow> others aid (remove_access_key a pk s) + key_tokens k = others aid s"
  using bt_sum_remove [of "t_access_keys s" "(a, pk)" k key_tokens] by (simp add: others_def)

lemma account_tokens_updates [simp]:
  "account_tokens (set_storage_usage u a) = account_tokens a"
  "account_tokens (set_contract c a) = account_tokens a"
  "account_tokens (account_new am lo c su) = unat am + unat lo"
  by (simp_all add: account_tokens_def)

lemma key_tokens_gas_key:
  "gas_key_info k = Some g \<Longrightarrow> key_tokens k = unat (gk_balance g)"
  "gas_key_info k = Some g \<Longrightarrow> key_tokens (set_gas_key_info (g \<lparr> gk_balance := b \<rparr>) k) = unat b"
  by (simp_all add: key_tokens_def)

section \<open>Worth\<close>

definition values_of :: "'e crypto_scheme \<Rightarrow> RuntimeConfig \<Rightarrow> Receipt list \<Rightarrow> nat" where
  "values_of C config rs = sum_list (map (receipt_value C config) rs)"

lemma values_of_simps [simp]:
  "values_of C config [] = 0" "values_of C config (r # rs) = receipt_value C config r + values_of C config rs"
  "values_of C config (rs @ rs') = values_of C config rs + values_of C config rs'"
  by (simp_all add: values_of_def)

definition gain :: "'e crypto_scheme \<Rightarrow> RuntimeConfig \<Rightarrow> Balance \<Rightarrow> ActionResult \<Rightarrow> int" where
  "gain C config price res = int (unat (res_tokens_burnt res)) + int (values_of C config (res_new_receipts res))
     + int (unat price) * (int (unat (res_gas_burnt res)) - int (unat (res_gas_used res)))"

definition worth ::
  "'e crypto_scheme \<Rightarrow> RuntimeConfig \<Rightarrow> Balance \<Rightarrow> AccountId \<Rightarrow> TrieUpdate \<Rightarrow> Account option \<Rightarrow> ActionResult \<Rightarrow> int" where
  "worth C config price aid s acct res = int (others aid s + held acct) + gain C config price res"

lemma gain_frame [simp]:
  "gain C config price (res \<lparr> res_compute_usage := c \<rparr>) = gain C config price res"
  "gain C config price (res \<lparr> res_validator_proposals := v \<rparr>) = gain C config price res"
  "gain C config price (res \<lparr> res_logs := l \<rparr>) = gain C config price res"
  "gain C config price (res \<lparr> res_result := x \<rparr>) = gain C config price res"
  by (simp_all add: gain_def)

lemma gain_push [simp]:
  "gain C config price (push_receipt rc res) = gain C config price res + int (receipt_value C config rc)"
  by (simp add: gain_def push_receipt_def)

lemma gain_burn:
  "unat t = unat (res_tokens_burnt res) + b
     \<Longrightarrow> gain C config price (res \<lparr> res_tokens_burnt := t \<rparr>) = gain C config price res + int b"
  by (simp add: gain_def)

lemma refund_values [simp]:
  "receipt_value C config (new_balance_refund r d) = unat d"
  "receipt_value C config (new_gas_refund r d pk) = unat d"
  "receipt_value C config (new_global_contract_distribution a g) = 0"
  by (simp_all add: receipt_value_def action_receipt_def new_balance_refund_def new_gas_refund_def
      new_global_contract_distribution_def)

lemma not_ok_fail [simp]:
  "is_ok (res_result (fail_with k res)) = False" "res_result (fail_with k res) \<noteq> Ok x"
  by (simp_all add: fail_with_def)

lemma result_push [simp]:
  "res_result (push_receipt rc res) = res_result res" "res_gas_burnt (push_receipt rc res) = res_gas_burnt res"
  "res_tokens_burnt (push_receipt rc res) = res_tokens_burnt res"
  "values_of C config (res_new_receipts (push_receipt rc res))
     = values_of C config (res_new_receipts res) + receipt_value C config rc"
  by (simp_all add: push_receipt_def)

lemma checked_word_Ok: "checked_word a b = Ok c \<longleftrightarrow> unat c = unat a + unat b"
  by (simp add: checked_word_def result_simps checked_add_Some)

section \<open>Each action adds its deposit\<close>

lemma remove_nonces_frame [simp]:
  "t_accounts (remove_nonces aid pk n s) = t_accounts s" "t_access_keys (remove_nonces aid pk n s) = t_access_keys s"
  "trie_inv s \<Longrightarrow> trie_inv (remove_nonces aid pk n s)"
proof -
  have "t_accounts (fold (\<lambda>i. remove_gas_key_nonce aid pk (word_of_nat i)) is s) = t_accounts s
    \<and> t_access_keys (fold (\<lambda>i. remove_gas_key_nonce aid pk (word_of_nat i)) is s) = t_access_keys s
    \<and> (trie_inv s \<longrightarrow> trie_inv (fold (\<lambda>i. remove_gas_key_nonce aid pk (word_of_nat i)) is s))" for "is"
    by (induction "is" arbitrary: s) simp_all
  then show "t_accounts (remove_nonces aid pk n s) = t_accounts s"
    "t_access_keys (remove_nonces aid pk n s) = t_access_keys s"
    "trie_inv s \<Longrightarrow> trie_inv (remove_nonces aid pk n s)"
    by (simp_all add: remove_nonces_def)
qed

lemma set_nonces_frame [simp]:
  "t_accounts (set_nonces aid pk n x s) = t_accounts s" "t_access_keys (set_nonces aid pk n x s) = t_access_keys s"
  "trie_inv s \<Longrightarrow> trie_inv (set_nonces aid pk n x s)"
proof -
  have "t_accounts (fold (\<lambda>i. set_gas_key_nonce aid pk (word_of_nat i) x) is s) = t_accounts s
    \<and> t_access_keys (fold (\<lambda>i. set_gas_key_nonce aid pk (word_of_nat i) x) is s) = t_access_keys s
    \<and> (trie_inv s \<longrightarrow> trie_inv (fold (\<lambda>i. set_gas_key_nonce aid pk (word_of_nat i) x) is s))" for "is"
    by (induction "is" arbitrary: s) simp_all
  then show "t_accounts (set_nonces aid pk n x s) = t_accounts s"
    "t_access_keys (set_nonces aid pk n x s) = t_access_keys s"
    "trie_inv s \<Longrightarrow> trie_inv (set_nonces aid pk n x s)"
    by (simp_all add: set_nonces_def)
qed

lemma others_nonces [simp]:
  "others aid (set_nonces a pk n x s) = others aid s" "others aid (remove_nonces a pk n s) = others aid s"
  by (rule others_frame; simp)+

lemma delete_key_worth:
  assumes "trie_inv s" "action_delete_key cfg aid pk (s, a, res) = Ok (s', a', res')" "is_ok (res_result res')"
  shows "trie_inv s' \<and> worth C config price aid s' (Some a') res' = worth C config price aid s (Some a) res"
proof -
  obtain k where k: "bt_get (t_access_keys s) (aid, pk) = Some k"
    using assms(2,3) by (auto simp: action_delete_key_def result_simps get_access_key_Ok split: option.splits)
  show ?thesis
  proof (cases "gas_key_info k")
    case None
    then show ?thesis
      using assms k others_remove_key [OF k, of aid]
      by (auto simp: action_delete_key_def delete_regular_key_def result_simps get_access_key_Ok worth_def key_tokens_def)
  next
    case (Some g)
    let ?s1 = "remove_nonces aid pk (num_nonces g) s"
    have k1: "bt_get (t_access_keys ?s1) (aid, pk) = Some k" using k by simp
    show ?thesis
      using assms k Some others_remove_key [OF k1, of aid] key_tokens_gas_key(1) [OF Some]
      by (auto simp: action_delete_key_def delete_gas_key_def result_simps get_access_key_Ok worth_def
          checked_word_Ok gain_burn split: if_splits)
  qed
qed

lemma add_key_worth:
  assumes "trie_inv s" "action_add_key cfg h aid pk k (s, a, res) = Ok (s', a', res')" "is_ok (res_result res')"
    and "key_tokens k = 0"
  shows "trie_inv s' \<and> worth C config price aid s' (Some a') res' = worth C config price aid s (Some a) res"
proof -
  have new: "bt_get (t_access_keys s) (aid, pk) = None"
    using assms(2,3) by (auto simp: action_add_key_def result_simps get_access_key_Ok split: if_splits)
  have "key_tokens (k \<lparr> ak_nonce := n \<rparr>) = 0" for n using assms(4) by simp
  then show ?thesis
    using assms new others_new_key [OF new]
    by (auto simp: action_add_key_def add_gas_key_def add_regular_key_def result_simps get_access_key_Ok worth_def
        Let_def split: option.splits)
qed

lemma to_gas_key_worth:
  assumes "trie_inv s" "action_transfer_to_gas_key aid pk d s res = Ok (s', res')" "is_ok (res_result res')"
  shows "trie_inv s' \<and> res' = res \<and> others aid s' = others aid s + unat d"
proof -
  obtain k g b where k: "bt_get (t_access_keys s) (aid, pk) = Some k" "gas_key_info k = Some g"
    "checked_add (gk_balance g) d = Some b"
    "s' = set_access_key aid pk (set_gas_key_info (g \<lparr> gk_balance := b \<rparr>) k) s" "res' = res"
    using assms(2,3) by (auto simp: action_transfer_to_gas_key_def result_simps get_access_key_Ok split: option.splits)
  then show ?thesis
    using others_set_key [OF k(1) assms(1), of aid "set_gas_key_info (g \<lparr> gk_balance := b \<rparr>) k"] assms(1)
      key_tokens_gas_key [OF k(2)]
    by (simp add: checked_add_Some)
qed

lemma withdraw_Ok:
  assumes "action_withdraw_from_gas_key aid pk w (s, a, res) = Ok (s', a', res')" "is_ok (res_result res')"
  obtains k g b b' where "bt_get (t_access_keys s) (aid, pk) = Some k" "gas_key_info k = Some g"
    "checked_sub (gk_balance g) w = Some b" "checked_add (amount a) w = Some b'" "res' = res"
    "s' = set_access_key aid pk (set_gas_key_info (g \<lparr> gk_balance := b \<rparr>) k) s" "a' = set_amount b' a"
proof -
  obtain k where k: "bt_get (t_access_keys s) (aid, pk) = Some k" "get_access_key s aid pk = Ok (Some k)"
    using assms by (auto simp: action_withdraw_from_gas_key_def result_simps get_access_key_Ok split: option.splits)
  obtain g where g: "gas_key_info k = Some g"
    using assms k(2) by (cases "gas_key_info k") (auto simp: action_withdraw_from_gas_key_def result_simps)
  obtain b where b: "checked_sub (gk_balance g) w = Some b"
    using assms k(2) g
    by (cases "checked_sub (gk_balance g) w") (auto simp: action_withdraw_from_gas_key_def result_simps)
  obtain b' where "checked_add (amount a) w = Some b'"
    using assms k(2) g b
    by (cases "checked_add (amount a) w") (auto simp: action_withdraw_from_gas_key_def result_simps Let_def)
  then show thesis
    using that [OF k(1) g b] assms(1) k(2) g b by (simp add: action_withdraw_from_gas_key_def Let_def result_simps)
qed

lemma withdraw_worth:
  assumes "trie_inv s" "action_withdraw_from_gas_key aid pk w (s, a, res) = Ok (s', a', res')" "is_ok (res_result res')"
  shows "trie_inv s' \<and> worth C config price aid s' (Some a') res' = worth C config price aid s (Some a) res"
proof -
  obtain k g b b' where k: "bt_get (t_access_keys s) (aid, pk) = Some k" "gas_key_info k = Some g"
    "checked_sub (gk_balance g) w = Some b" "checked_add (amount a) w = Some b'" "res' = res"
    "s' = set_access_key aid pk (set_gas_key_info (g \<lparr> gk_balance := b \<rparr>) k) s" "a' = set_amount b' a"
    by (rule withdraw_Ok [OF assms(2,3)])
  then show ?thesis
    using others_set_key [OF k(1) assms(1), of aid "set_gas_key_info (g \<lparr> gk_balance := b \<rparr>) k"] assms(1)
      key_tokens_gas_key [OF k(2)]
    by (simp add: checked_add_Some checked_sub_Some worth_def account_tokens_def)
qed

lemma stake_worth:
  assumes "action_stake env aid st pk h a res = Ok (a', res')" "is_ok (res_result res')"
  shows "worth C config price aid s (Some a') res' = worth C config price aid s (Some a) res"
proof -
  let ?inc = "saturating_sub st (locked a)"
  obtain nb where nb: "checked_sub (amount a) ?inc = Some nb"
    and a': "a' = (if locked a < st then set_locked st (set_amount nb a) else a)"
    and r: "gain C config price res' = gain C config price res"
    using assms by (auto simp: action_stake_def Let_def result_simps split: option.splits if_splits)
  have "unat (amount a) = unat nb + (unat st - unat (locked a))"
    using nb by (simp add: checked_sub_Some unat_saturating_sub)
  then have "account_tokens a' = account_tokens a"
    using a' by (auto simp: account_tokens_def word_less_nat_alt)
  then show ?thesis using r by (simp add: worth_def)
qed

text \<open>An account that does not exist has no keys.\<close>

definition keyless :: "AccountId \<Rightarrow> TrieUpdate \<Rightarrow> bool" where
  "keyless aid s \<longleftrightarrow> (\<forall>pk. bt_get (t_access_keys s) (aid, pk) = None)"

lemma gas_key_refund_worth:
  assumes "trie_inv s" "try_refund_gas_key_balance aid pk d s = Ok (s', b)"
  shows "trie_inv s' \<and> others aid s' = others aid s + (if b then unat d else 0)"
proof (cases "\<exists>k g. bt_get (t_access_keys s) (aid, pk) = Some k \<and> gas_key_info k = Some g")
  case True
  then obtain k g where k: "bt_get (t_access_keys s) (aid, pk) = Some k" "gas_key_info k = Some g" by blast
  then obtain b' where "checked_add (gk_balance g) d = Some b'" "b"
      "s' = set_access_key aid pk (set_gas_key_info (g \<lparr> gk_balance := b' \<rparr>) k) s"
    using assms(2) by (auto simp: try_refund_gas_key_balance_def result_simps get_access_key_Ok)
  then show ?thesis
    using others_set_key [OF k(1) assms(1), of aid "set_gas_key_info (g \<lparr> gk_balance := b' \<rparr>) k"] assms(1)
      key_tokens_gas_key [OF k(2)]
    by (simp add: checked_add_Some)
next
  case False
  then have "s' = s \<and> \<not> b"
    using assms(2) by (auto simp: try_refund_gas_key_balance_def result_simps get_access_key_Ok split: option.splits)
  then show ?thesis using assms(1) by simp
qed

lemma allowance_refund_worth:
  assumes "trie_inv s" "try_refund_allowance aid pk d s = Ok s'"
  shows "trie_inv s' \<and> others aid s' = others aid s"
proof (cases "s' = s")
  case False
  then obtain k fc al where k: "bt_get (t_access_keys s) (aid, pk) = Some k" "permission k = FunctionCallPerm fc"
      "s' = set_access_key aid pk (k \<lparr> permission := FunctionCallPerm (fc \<lparr> allowance := al \<rparr>) \<rparr>) s"
    using assms(2)
    by (auto simp: try_refund_allowance_def result_simps get_access_key_Ok Let_def
        split: option.splits AccessKeyPermission.splits if_splits)
  have "key_tokens k = 0" "key_tokens (k \<lparr> permission := FunctionCallPerm (fc \<lparr> allowance := al \<rparr>) \<rparr>) = 0"
    using k(2) by (simp_all add: key_tokens_def gas_key_info_def)
  then show ?thesis
    using others_set_key [OF k(1) assms(1), of aid "k \<lparr> permission := FunctionCallPerm (fc \<lparr> allowance := al \<rparr>) \<rparr>"]
      k(3) assms(1) by simp
qed (use assms(1) in simp)

lemma implicit_worth:
  assumes "trie_inv s" "keyless aid s"
    "action_implicit_account_creation_transfer C env config h aid d s = Ok (s', a)"
  shows "trie_inv s' \<and> others aid s' + account_tokens a = others aid s + unat d"
proof -
  have new: "bt_get (t_access_keys s) (aid, pk) = None" for pk using assms(2) by (simp add: keyless_def)
  have [simp]: "key_tokens (full_access \<lparr> ak_nonce := n \<rparr>) = 0" for n
    by (simp add: key_tokens_def full_access_def gas_key_info_def)
  have code: "others aid (set_code aid c s) = others aid s" for c by (rule others_frame) simp_all
  show ?thesis
    using assms(1,3) others_new_key [OF new, of aid]
    by (auto simp: action_implicit_account_creation_transfer_def create_deterministic_account_def Let_def result_simps
        code account_tokens_def split: AccountType.splits)
qed

lemma transfer_worth:
  assumes "trie_inv s" "acct = None \<longrightarrow> keyless (r_receiver_id receipt) s"
    "action_transfer_or_implicit_account_creation C env st receipt ar refund d (s, acct, act) = Ok (s', acct', act')"
  shows "trie_inv s' \<and> acct' \<noteq> None
    \<and> others (r_receiver_id receipt) s' + held acct' = others (r_receiver_id receipt) s + held acct + unat d"
proof (cases acct)
  case None
  then show ?thesis
    using assms
    by (auto simp: action_transfer_or_implicit_account_creation_def result_simps dest!: implicit_worth [OF assms(1)])
next
  case (Some a)
  let ?aid = "r_receiver_id receipt" and ?pk = "va_signer_public_key ar"
  let ?g = "refund \<and> va_signer_id ar = ?aid"
  obtain s1 b where b: "(if ?g then map_err RStorageError (try_refund_gas_key_balance ?aid ?pk d s) else Ok (s, False)) = Ok (s1, b)"
    using assms(3) Some by (auto simp: action_transfer_or_implicit_account_creation_def result_simps Let_def)
  have s1: "trie_inv s1 \<and> others ?aid s1 = others ?aid s + (if b then unat d else 0)"
    using b assms(1) gas_key_refund_worth [OF assms(1)] by (auto simp: result_simps split: if_splits)
  show ?thesis
  proof (cases b)
    case True
    then show ?thesis using assms(3) Some b s1
      by (auto simp: action_transfer_or_implicit_account_creation_def result_simps Let_def)
  next
    case False
    then obtain v where v: "checked_add (amount a) d = Some v" "acct' = Some (set_amount v a)"
      and s': "(if ?g then map_err RStorageError (try_refund_allowance ?aid ?pk d s1) else Ok s1) = Ok s'"
      using assms(3) Some b
      by (auto simp: action_transfer_or_implicit_account_creation_def action_transfer_def result_simps Let_def)
    have "trie_inv s' \<and> others ?aid s' = others ?aid s1"
      using s' s1 allowance_refund_worth by (auto simp: result_simps split: if_splits)
    then show ?thesis using v s1 Some False by (simp add: account_tokens_def checked_add_Some)
  qed
qed

lemma cleared_tokens:
  "clear_account_contract_storage_usage s aid a = Ok a' \<Longrightarrow> account_tokens a' = account_tokens a"
  by (auto simp: clear_account_contract_storage_usage_def result_simps split: AccountContract.splits)

lemma others_code [simp]:
  "others aid (set_code a c s) = others aid s" "others aid (remove_code a s) = others aid s"
  "others aid (set_nonce i n s) = others aid s" "others aid (set_data a kk v s) = others aid s"
  by (rule others_frame; simp add: remove_code_def set_nonce_def)+

lemma trie_inv_code [simp]:
  "trie_inv s \<Longrightarrow> trie_inv (remove_code a s)" "trie_inv s \<Longrightarrow> trie_inv (set_nonce i n s)"
  by (simp_all add: trie_inv_def remove_code_def set_nonce_def bt_inv_remove)

lemma deploy_worth:
  "trie_inv s \<Longrightarrow> action_deploy_contract C aid code s a = Ok (s', a')
     \<Longrightarrow> trie_inv s' \<and> others aid s' = others aid s \<and> account_tokens a' = account_tokens a"
  by (auto simp: action_deploy_contract_def result_simps dest: cleared_tokens)

lemma use_global_worth:
  assumes "trie_inv s" "use_global_contract aid i (s, a, res) = Ok (s', a', res')" "is_ok (res_result res')"
  shows "trie_inv s' \<and> others aid s' = others aid s \<and> account_tokens a' = account_tokens a \<and> res' = res"
  using assms by (auto simp: use_global_contract_def result_simps Let_def dest: cleared_tokens split: if_splits)

lemma initiate_worth:
  assumes "trie_inv s" "initiate_distribution C aid code mode sh pv s res = Ok (s', res')"
  shows "trie_inv s' \<and> others aid s' = others aid s \<and> gain C config price res' = gain C config price res"
  using assms
  by (auto simp: initiate_distribution_def increment_nonce_def Let_def result_simps split: if_splits)

lemma deploy_global_worth:
  assumes "trie_inv s" "action_deploy_global_contract C st aid code mode (s, a, res) = Ok (s', a', res')"
    "is_ok (res_result res')"
    and pv: "feature_enabled IncludeDeployGlobalContractOutcomeBurntStorage (as_protocol_version st)"
  shows "trie_inv s' \<and> worth C config price aid s' (Some a') res' = worth C config price aid s (Some a) res"
proof -
  define cost where "cost = saturating_mul
    (global_contract_storage_amount_per_byte (storage_usage_config (fees (as_config st)))) (word_of_nat (length code))"
  note unf = action_deploy_global_contract_def cost_def [symmetric] Let_def result_simps
  obtain b where b: "checked_sub (amount a) cost = Some b"
    using assms by (cases "checked_sub (amount a) cost") (auto simp: unf)
  obtain t where t: "checked_word (res_tokens_burnt res) cost = Ok t" "a' = set_amount b a"
    "initiate_distribution C aid code mode (as_shard_id st) (as_protocol_version st) s (res \<lparr> res_tokens_burnt := t \<rparr>)
       = Ok (s', res')"
    using assms(2) b pv by (auto simp: unf)
  have "gain C config price (res \<lparr> res_tokens_burnt := t \<rparr>) = gain C config price res + int (unat cost)"
    using t(1) by (intro gain_burn) (simp add: checked_word_Ok)
  then show ?thesis
    using initiate_worth [OF assms(1) t(3), of config price] b t(2)
    by (simp add: worth_def account_tokens_def checked_sub_Some)
qed

lemma insert_state_worth:
  "insert_state cfg aid kvs s u = Ok (s', u') \<Longrightarrow> trie_inv s \<Longrightarrow> trie_inv s' \<and> others aid s' = others aid s"
  by (induction cfg aid kvs s u rule: insert_state.induct) (auto simp: result_simps)

lemma deterministic_deploy_worth:
  assumes "trie_inv s" "deploy_deterministic_account cfg aid si (s, a, res) = Ok (s', a', res')" "is_ok (res_result res')"
  shows "trie_inv s' \<and> others aid s' = others aid s \<and> account_tokens a' = account_tokens a \<and> res' = res"
proof -
  obtain s1 a1 res1 where u: "use_global_contract aid (si_code si) (s, a, res) = Ok (s1, a1, res1)"
    using assms(2) by (auto simp: deploy_deterministic_account_def result_simps)
  have ok: "is_ok (res_result res1)"
    using assms(2,3) u by (auto simp: deploy_deterministic_account_def result_simps split: if_splits)
  obtain u' where "insert_state cfg aid (si_data si) s1 (storage_usage a1) = Ok (s', u')"
      "a' = set_storage_usage u' a1" "res' = res1"
    using assms(2) u ok by (auto simp: deploy_deterministic_account_def result_simps)
  then show ?thesis
    using use_global_worth [OF assms(1) u ok] insert_state_worth by (auto simp: account_tokens_def)
qed

lemma state_init_worth:
  assumes "trie_inv s" "action_deterministic_state_init config aid receipt si d (s, acct, res) = Ok (s', acct', res')"
    "is_ok (res_result res')"
  shows "trie_inv s' \<and> acct' \<noteq> None
    \<and> worth C config' price aid s' acct' res' = worth C config' price aid s acct res + int (unat d)"
proof -
  let ?a = "case acct of Some a \<Rightarrow> a | None \<Rightarrow> create_deterministic_account 0 (storage_usage_config (fees config))"
  note unf = action_deterministic_state_init_def Let_def result_simps
  obtain s1 a1 res1 where u: "(if contract ?a = NoContract
      then deploy_deterministic_account (storage_usage_config (fees config)) aid si (s, ?a, res) else Ok (s, ?a, res))
      = Ok (s1, a1, res1)"
    using assms(2) by (auto simp: unf)
  have ok: "is_ok (res_result res1)" using assms(2,3) u by (auto simp: unf split: if_splits)
  then obtain v where v: "res_result res1 = Ok v" by (auto simp: result_simps)
  have s1: "trie_inv s1 \<and> others aid s1 = others aid s \<and> account_tokens a1 = account_tokens ?a \<and> res1 = res"
    using u ok assms(1) deterministic_deploy_worth [OF assms(1), of "storage_usage_config (fees config)" aid si ?a res s1 a1 res1]
    by (auto split: if_splits)
  have a: "account_tokens ?a = held acct"
    by (cases acct) (simp_all add: create_deterministic_account_def account_tokens_def)
  obtain e a' where e: "e \<le> d" "acct' = Some a'" "s' = s1" "unat (amount a') = unat (amount a1) + (unat d - unat e)"
      "locked a' = locked a1"
      "res' = (if 0 < e then push_receipt (new_balance_refund (balance_refund_receiver receipt) e) res1 else res1)"
  proof (cases "check_storage_stake a1 (amount a1) config")
    case (Ok x)
    then show ?thesis using that [of d a1] assms(2) u v by (simp add: unf)
  next
    case (Err x)
    then obtain m where m: "x = LackBalanceForStorageStaking m" "m \<le> d"
      using assms(2,3) u v by (cases x) (auto simp: unf split: if_splits)
    obtain b where b: "safe_add_balance (amount a1) m = Ok b"
      using assms(2) u v Err m by (auto simp: unf)
    have "unat (d - m) = unat d - unat m" "unat m \<le> unat d" using m(2) by (simp_all add: word_le_nat_alt unat_sub)
    moreover have "unat b = unat (amount a1) + unat m"
      using b by (simp add: checked_ops result_simps checked_add_Some)
    ultimately show ?thesis
      using that [of "d - m" "set_amount b a1"] assms(2) u v Err m b by (simp add: unf word_le_nat_alt)
  qed
  have "gain C config' price res' = gain C config' price res1 + int (unat e)"
    using e(6) by (cases "e = 0") (auto simp: word_neq_0_conv)
  moreover have "unat e \<le> unat d" using e(1) by (simp add: word_le_nat_alt)
  ultimately show ?thesis using s1 a e(2-5) by (auto simp: worth_def account_tokens_def)
qed

text \<open>Deleting an account burns its gas keys and sends the rest to the beneficiary.\<close>

lemma sum_gas_keys_exact:
  assumes "\<And>a pk k. ((a, pk), k) \<in> set ks \<Longrightarrow> bt_get (t_access_keys s) (a, pk) = Some k"
    and "sum_gas_keys s aid ks tot = Ok r"
  shows "unat r + bt_sum key_tokens (filter (\<lambda>((a, _), _). a \<noteq> aid) ks) = unat tot + bt_sum key_tokens ks"
  using assms
proof (induction ks arbitrary: tot)
  case (Cons e ks)
  obtain a pk k where e: "e = ((a, pk), k)" by (cases e) auto
  have IH: "unat r + bt_sum key_tokens (filter (\<lambda>((a, _), _). a \<noteq> aid) ks) = unat t + bt_sum key_tokens ks"
    if "sum_gas_keys s aid ks t = Ok r" for t
    using Cons.IH [OF _ that] Cons.prems(1) by (meson list.set_intros(2))
  have k: "bt_get (t_access_keys s) (a, pk) = Some k" using Cons.prems(1) e by simp
  show ?case
  proof (cases "a = aid")
    case False
    then show ?thesis using Cons.prems(2) IH by (auto simp: e)
  next
    case True
    show ?thesis
    proof (cases "gas_key_info k")
      case None
      then have "key_tokens k = 0" by (simp add: key_tokens_def)
      then show ?thesis using Cons.prems(2) k True IH None by (auto simp: e result_simps get_access_key_Ok)
    next
      case (Some g)
      then obtain t where "checked_add tot (gk_balance g) = Some t" "sum_gas_keys s aid ks t = Ok r"
        using Cons.prems(2) k True by (auto simp: e result_simps get_access_key_Ok)
      then show ?thesis using IH True key_tokens_gas_key(1) [OF Some] by (simp add: e checked_add_Some)
    qed
  qed
qed simp

lemma others_remove_account:
  assumes "trie_inv s" "compute_gas_key_balance_sum s aid = Ok r"
  shows "others aid (remove_account aid s) + unat r = others aid s"
proof -
  have "bt_sum account_tokens (bt_remove aid (bt_remove aid (t_accounts s)))
      = bt_sum account_tokens (bt_remove aid (t_accounts s))"
    using assms(1) bt_sum_remove_get [of account_tokens aid "bt_remove aid (t_accounts s)"]
    by (simp add: bt_get_remove trie_inv_def)
  moreover have "unat r + bt_sum key_tokens (filter (\<lambda>((a, _), _). a \<noteq> aid) (t_access_keys s))
      = bt_sum key_tokens (t_access_keys s)"
    using sum_gas_keys_exact [of "t_access_keys s" s aid 0 r] assms
    by (simp add: compute_gas_key_balance_sum_def bt_entries trie_inv_def)
  ultimately show ?thesis by (simp add: others_def remove_account_def)
qed

lemma keyless_removed: "keyless aid (remove_account aid s)"
  by (auto simp: keyless_def remove_account_def bt_get_None)

lemma delete_account_worth:
  assumes "trie_inv s" "action_delete_account aid ben pred s a act res = Ok (s', acct', act', res')"
    "is_ok (res_result res')" "locked a = 0"
  shows "trie_inv s' \<and> acct' = None \<and> keyless aid s'
    \<and> worth C config price aid s' acct' res' = worth C config price aid s (Some a) res"
proof -
  let ?res1 = "if 0 < amount a then push_receipt (new_balance_refund ben (amount a)) res else res"
  obtain r t where r: "compute_gas_key_balance_sum s aid = Ok r" "checked_add (res_tokens_burnt ?res1) r = Some t"
    "s' = remove_account aid s" "acct' = None" "res' = ?res1 \<lparr> res_tokens_burnt := t \<rparr>"
    using assms(2,3) by (auto simp: action_delete_account_def result_simps Let_def split: if_splits)
  have "gain C config price ?res1 = gain C config price res + int (unat (amount a))"
    by (cases "amount a = 0") (auto simp: word_neq_0_conv)
  moreover have "gain C config price res' = gain C config price ?res1 + int (unat r)"
    unfolding r(5) by (rule gain_burn) (use r(2) in \<open>simp add: checked_add_Some\<close>)
  ultimately show ?thesis
    using others_remove_account [OF assms(1) r(1)] assms(1,4) r(3,4) keyless_removed
    by (simp add: worth_def account_tokens_def)
qed

text \<open>A delegate action turns gas that the outer receipt prepaid into the new receipt.\<close>

lemma inner_send_fees:
  "\<forall>a \<in> set as. non_delegate a \<Longrightarrow> total_prepaid_send_fees C config as acc = Ok acc"
proof (induction as arbitrary: acc)
  case (Cons a as)
  have "checked_add acc 0 = Some acc" by (simp add: checked_add_Some)
  then show ?case using Cons by (cases a) (simp_all add: checked_ops)
qed simp

lemma delegate_receipt_value:
  assumes "action_receipt_required_gas C config (da_receiver_id d) (da_actions d) = Ok g"
    and "\<forall>a \<in> set (da_actions d). non_delegate a"
  shows "receipt_value C config (delegate_receipt ar aid d) = deposits (da_actions d) + unat (va_gas_price ar) * unat g"
  using assms(1) inner_send_fees [OF assms(2), of C config 0]
  by (auto simp: receipt_value_def delegate_receipt_def action_receipt_def receipt_gas_def
      action_receipt_required_gas_def result_simps checked_ops checked_add_Some)

lemma delegate_key_worth:
  assumes "trie_inv s" "validate_delegate_action_key h d s res = Ok (s', res')" "is_ok (res_result res')"
  shows "trie_inv s' \<and> others aid s' = others aid s \<and> res' = res"
proof -
  obtain k where k: "bt_get (t_access_keys s) (da_sender_id d, da_public_key d) = Some k" "res' = res"
    "s' = set_access_key (da_sender_id d) (da_public_key d) (k \<lparr> ak_nonce := da_nonce d \<rparr>) s"
    using assms(2,3)
    by (auto simp: validate_delegate_action_key_def check_delegate_permission_def result_simps get_access_key_Ok Let_def
        split: option.splits if_splits sum.splits AccessKeyPermission.splits list.splits Action.splits)
  then show ?thesis
    using others_set_key [OF k(1) assms(1), of aid "k \<lparr> ak_nonce := da_nonce d \<rparr>"] assms(1) by simp
qed

lemma deposit_of_delegate: "deposit_of (Delegate d sig) = deposits (da_actions d)"
  by (cases d) simp

lemma delegate_worth:
  assumes "trie_inv s" "apply_delegate_action C st ar aid d sig s res = Ok (s', res')" "is_ok (res_result res')"
    and "\<forall>a \<in> set (da_actions d). non_delegate a"
  shows "trie_inv s' \<and> worth C (as_config st) (va_gas_price ar) aid s' acct res'
    = worth C (as_config st) (va_gas_price ar) aid s acct res + int (deposit_of (Delegate d sig))"
proof -
  obtain s1 res1 where v: "validate_delegate_action_key (as_block_height st) d s res = Ok (s1, res1)"
    using assms(2,3) by (auto simp: apply_delegate_action_def result_simps split: if_splits)
  have ok: "is_ok (res_result res1)"
    using assms(2,3) v by (auto simp: apply_delegate_action_def result_simps split: if_splits)
  then obtain x where x: "res_result res1 = Ok x" by (auto simp: result_simps)
  obtain sf g u1 u2 b c where g: "action_receipt_required_gas C (as_config st) (da_receiver_id d) (da_actions d) = Ok g"
    "checked_word (res_gas_used res1) g = Ok u1" "checked_word u1 sf = Ok u2" "checked_word (res_gas_burnt res1) sf = Ok b"
    "s' = s1" "res' = push_receipt (delegate_receipt ar aid d)
       (res1 \<lparr> res_gas_used := u2, res_gas_burnt := b, res_compute_usage := c \<rparr>)"
    using assms(2,3) v x by (auto simp: apply_delegate_action_def result_simps Let_def split: if_splits)
  have "gain C (as_config st) (va_gas_price ar) res' = gain C (as_config st) (va_gas_price ar) res1
      + int (deposits (da_actions d))"
    using g(2-4,6) delegate_receipt_value [OF g(1) assms(4)]
    by (simp add: gain_def push_receipt_def checked_word_Ok algebra_simps)
  then show ?thesis
    using delegate_key_worth [OF assms(1) v ok, of aid] g(5) by (simp add: worth_def deposit_of_delegate)
qed

section \<open>The loop over the actions\<close>

text \<open>
  Actions whose tokens the runtime itself accounts for. A function call hands the account to
  the contract. A new gas key must start without a balance, which \<open>validate_action\<close> demands; a
  delegated action is no delegate action, by its type in the source; and the storage paid for a
  global contract is counted as burnt from the protocol version of its feature on.
\<close>

fun accounted :: "ProtocolVersion \<Rightarrow> Action \<Rightarrow> bool" where
  "accounted pv (FunctionCall _) = False"
| "accounted pv (AddKey _ k) = (key_tokens k = 0)"
| "accounted pv (Delegate d _) = (\<forall>a \<in> set (da_actions d). non_delegate a)"
| "accounted pv (DeployGlobalContract _ _) = feature_enabled IncludeDeployGlobalContractOutcomeBurntStorage pv"
| "accounted pv _ = True"

definition absent :: "AccountId \<Rightarrow> TrieUpdate \<Rightarrow> bool" where
  "absent aid s \<longleftrightarrow> keyless aid s \<and> bt_get (t_accounts s) aid = None"

lemma on_account_Ok:
  assumes "on_account (s, acct, act) res f = Ok ((s', acct', act'), res')"
  obtains a a' where "acct = Some a" "acct' = Some a'" "f (s, a, res) = Ok (s', a', res')"
  using assms by (auto simp: on_account_def result_simps split: option.splits)

lemma absent_removed:
  "trie_inv s \<Longrightarrow> absent aid (remove_account aid s)"
  by (simp add: absent_def keyless_removed) (simp add: remove_account_def bt_get_remove trie_inv_def)

lemma created_worth:
  assumes "action_create_account config aid pred None act res = (acct', act', res')" "is_ok (res_result res')"
  shows "acct' \<noteq> None \<and> held acct' = 0 \<and> res' = res"
  using assms by (auto simp: action_create_account_def account_tokens_def Let_def split: if_splits)

lemma delete_account_absent:
  assumes "trie_inv s" "action_delete_account aid ben pred s a act res = Ok (s', acct', act', res')"
    "is_ok (res_result res')"
  shows "absent aid s'"
  using assms absent_removed [OF assms(1)]
  by (auto simp: action_delete_account_def result_simps Let_def split: if_splits)

text \<open>An action on the existing account that moves no deposit.\<close>

lemma on_account_worth:
  assumes "on_account (s, acct, act) res f = Ok ((s', acct', act'), res')"
    and "\<And>a a'. f (s, a, res) = Ok (s', a', res') \<Longrightarrow> trie_inv s'
      \<and> worth C config price aid s' (Some a') res' = worth C config price aid s (Some a) res"
  shows "trie_inv s' \<and> (acct' = None \<longrightarrow> absent aid s')
    \<and> worth C config price aid s' acct' res' = worth C config price aid s acct res"
  using assms by (auto elim!: on_account_Ok)

lemma action_body_worth:
  fixes C :: "'e crypto_scheme"
  defines "w \<equiv> \<lambda>st ar. worth C (as_config st) (va_gas_price ar)"
  assumes body: "apply_action_body C env st receipt ar prs i a (s, acct, act) res = Ok ((s', acct', act'), res')"
    and inv: "trie_inv s" and ab: "acct = None \<longrightarrow> absent (r_receiver_id receipt) s"
    and acc: "accounted (as_protocol_version st) a" and ok: "is_ok (res_result res')"
    and ex: "check_account_existence C a acct (r_receiver_id receipt) (as_config st) el = Ok ()"
    and perm: "check_actor_permissions a acct act (r_receiver_id receipt) = Ok ()"
  shows "trie_inv s' \<and> (acct' = None \<longrightarrow> absent (r_receiver_id receipt) s')
    \<and> w st ar (r_receiver_id receipt) s' acct' res' = w st ar (r_receiver_id receipt) s acct res + int (deposit_of a)"
proof -
  let ?aid = "r_receiver_id receipt"
  note b = body [unfolded apply_action_body_def Let_def]
  have some: "\<exists>v. acct = Some v"
    if "a \<noteq> CreateAccount" "\<And>d. a \<noteq> Transfer d" "\<And>si d. a \<noteq> DeterministicStateInit si d"
    using ex that by (cases a) (auto simp: check_account_existence_def split: if_splits)
  show ?thesis
  proof (cases a)
    case CreateAccount
    then have "acct = None" using ex by (simp add: check_account_existence_def split: if_splits)
    moreover have "action_create_account (as_config st) ?aid (r_predecessor_id receipt) acct act res = (acct', act', res')" "s' = s"
      using b CreateAccount by (auto split: prod.splits)
    ultimately show ?thesis using created_worth ok inv CreateAccount by (fastforce simp: w_def worth_def)
  next
    case (DeployContract code)
    then show ?thesis using b deploy_worth [OF inv]
      by simp (erule on_account_Ok, fastforce simp: w_def worth_def result_simps)
  next
    case (Transfer d)
    then have t: "action_transfer_or_implicit_account_creation C env st receipt ar
        (is_system (r_predecessor_id receipt)) d (s, acct, act) = Ok (s', acct', act')" "res' = res"
      using b by (auto simp: result_simps)
    have "acct = None \<longrightarrow> keyless ?aid s" using ab by (simp add: absent_def)
    from transfer_worth [OF inv this t(1)] show ?thesis using Transfer t(2) by (auto simp: w_def worth_def)
  next
    case (Stake stk pk)
    then show ?thesis using b stake_worth [OF _ ok] inv
      by simp (erule on_account_Ok, fastforce simp: w_def result_simps)
  next
    case (AddKey pk k)
    then show ?thesis using b on_account_worth [OF _ add_key_worth [OF inv _ ok]] acc by (fastforce simp: w_def)
  next
    case (DeleteKey pk)
    then show ?thesis using b on_account_worth [OF _ delete_key_worth [OF inv _ ok]] by (fastforce simp: w_def)
  next
    case (DeleteAccount ben)
    then obtain v where v: "acct = Some v" using some by auto
    then have d: "action_delete_account ?aid ben (r_predecessor_id receipt) s v act res = Ok (s', acct', act', res')"
      using b DeleteAccount by (auto simp: result_simps)
    have l: "locked v = 0" using perm DeleteAccount v by (auto simp: check_actor_permissions_def result_simps Let_def split: if_splits)
    show ?thesis
      using delete_account_worth [OF inv d ok l, of C "as_config st" "va_gas_price ar"]
        delete_account_absent [OF inv d ok] v DeleteAccount by (auto simp: w_def)
  next
    case (Delegate d sig)
    then have d: "apply_delegate_action C st ar ?aid d sig s res = Ok (s', res')" "acct' = acct"
      using b by (auto simp: result_simps)
    have "\<forall>a \<in> set (da_actions d). non_delegate a" using acc Delegate by simp
    from delegate_worth [OF inv d(1) ok this, of acct] show ?thesis using Delegate d(2) some by (auto simp: w_def)
  next
    case (DeployGlobalContract code mode)
    then show ?thesis using b on_account_worth [OF _ deploy_global_worth [OF inv _ ok]] acc by (fastforce simp: w_def)
  next
    case (UseGlobalContract ident)
    then show ?thesis using b use_global_worth [OF inv _ ok]
      by simp (erule on_account_Ok, fastforce simp: w_def worth_def)
  next
    case (DeterministicStateInit si d)
    then have "action_deterministic_state_init (as_config st) ?aid receipt si d (s, acct, res) = Ok (s', acct', res')"
      using b by (auto simp: result_simps)
    from state_init_worth [OF inv this ok, of C "as_config st" "va_gas_price ar"] show ?thesis
      using DeterministicStateInit by (auto simp: w_def)
  next
    case (TransferToGasKey pk d)
    then have d: "action_transfer_to_gas_key ?aid pk d s res = Ok (s', res')" "acct' = acct"
      using b by (auto simp: result_simps)
    from to_gas_key_worth [OF inv d(1) ok] show ?thesis
      using TransferToGasKey some d(2) by (auto simp: w_def worth_def)
  next
    case (WithdrawFromGasKey pk x)
    then show ?thesis using b on_account_worth [OF _ withdraw_worth [OF inv _ ok]] by (fastforce simp: w_def)
  qed (use acc in simp)
qed

lemma apply_action_worth:
  assumes act: "apply_action C env st receipt ar prs i a (s, acct, actor) = Ok ((s', acct', actor'), res)"
    and "trie_inv s" "acct = None \<longrightarrow> absent (r_receiver_id receipt) s"
    and "accounted (as_protocol_version st) a" and ok: "is_ok (res_result res)"
  shows "trie_inv s' \<and> (acct' = None \<longrightarrow> absent (r_receiver_id receipt) s')
    \<and> worth C (as_config st) (va_gas_price ar) (r_receiver_id receipt) s' acct' res
      = int (others (r_receiver_id receipt) s + held acct) + int (deposit_of a)"
proof -
  obtain f where f: "exec_fee C (as_config st) a (r_receiver_id receipt) = Ok f"
    using act by (auto simp: apply_action_def result_simps)
  define el where "el \<longleftrightarrow> \<not> is_system (r_predecessor_id receipt) \<and> (length (va_actions ar) = 1
      \<or> feature_enabled FixDeterministicAccountIdCreation (as_protocol_version st)
        \<and> deterministic_account_ids (as_config st) \<and> get_account_type C (r_receiver_id receipt) = NearDeterministicAccount)"
  let ?r = "default_result \<lparr> res_gas_used := f, res_gas_burnt := f, res_compute_usage := f \<rparr>"
  have run: "(case check_account_existence C a acct (r_receiver_id receipt) (as_config st) el of
       Err e \<Rightarrow> Ok ((s, acct, actor), fail_with e ?r)
     | Ok _ \<Rightarrow>
         (case check_actor_permissions a acct actor (r_receiver_id receipt) of
            Err e \<Rightarrow> Ok ((s, acct, actor), fail_with e ?r)
          | Ok _ \<Rightarrow> apply_action_body C env st receipt ar prs i a (s, acct, actor) ?r)) = Ok ((s', acct', actor'), res)"
    using act f by (simp add: apply_action_def Let_def el_def)
  have c1: "check_account_existence C a acct (r_receiver_id receipt) (as_config st) el = Ok ()"
    using run ok by (cases "check_account_existence C a acct (r_receiver_id receipt) (as_config st) el") auto
  have c2: "check_actor_permissions a acct actor (r_receiver_id receipt) = Ok ()"
    using run ok c1 by (cases "check_actor_permissions a acct actor (r_receiver_id receipt)") auto
  have c3: "apply_action_body C env st receipt ar prs i a (s, acct, actor) ?r = Ok ((s', acct', actor'), res)"
    using run c1 c2 by simp
  show ?thesis
    using action_body_worth [OF c3 assms(2-4) ok c1 c2]
    by (simp add: worth_def gain_def default_result_def)
qed

lemma check_new_receipts_cases:
  assumes "is_ok (res_result (check_new_receipts C st res))"
  shows "is_ok (res_result res) \<and> check_new_receipts C st res = res"
  using assms by (auto simp: check_new_receipts_def split: if_splits result.splits)

text \<open>Merging adds the gains of two successes; a failure drops receipts and burnt tokens.\<close>

lemma merge_gain:
  assumes "merge_result r n = Ok m"
  shows "is_ok (res_result m) = is_ok (res_result n)"
    and "is_ok (res_result n) \<Longrightarrow> gain C config price m = gain C config price r + gain C config price n"
    and "\<not> is_ok (res_result n) \<Longrightarrow> res_new_receipts m = [] \<and> res_tokens_burnt m = 0"
proof -
  have guard: "\<not> (\<not> res_gas_burnt_for_function_call n \<le> res_gas_burnt n \<or> \<not> res_gas_burnt n \<le> res_gas_used n)" (is "\<not> ?g")
  proof
    assume ?g
    then have "merge_result r n = Err (RuntimePanic ''gas burnt'')" unfolding merge_result_def by (rule if_P)
    then show False using assms by simp
  qed
  obtain b fc u c outcome where bu: "checked_word (res_gas_burnt r) (res_gas_burnt n) = Ok b"
    "checked_word (res_gas_used r) (res_gas_used n) = Ok u"
    and out: "(case res_result n of
            Ok (ReturnReceiptIndex i) \<Rightarrow>
              result_bind (ok_or (checked_add i (word_of_nat (length (res_new_receipts r))))
                  (RuntimePanic ''receipt index'')) (\<lambda>j. Ok (Ok (ReturnReceiptIndex j)))
          | x \<Rightarrow> Ok x) = Ok outcome"
    and fin: "(let r1 = r \<lparr> res_gas_burnt := b, res_gas_burnt_for_function_call := fc,
                    res_gas_used := u, res_compute_usage := c, res_result := outcome,
                    res_logs := res_logs r @ res_logs n \<rparr> in
        if is_ok outcome then
          result_bind (checked_word (res_tokens_burnt r) (res_tokens_burnt n)) (\<lambda>tokens.
            Ok (r1 \<lparr> res_new_receipts := res_new_receipts r @ res_new_receipts n,
                     res_validator_proposals := res_validator_proposals r @ res_validator_proposals n,
                     res_tokens_burnt := tokens \<rparr>))
        else Ok (r1 \<lparr> res_new_receipts := [], res_validator_proposals := [], res_tokens_burnt := 0 \<rparr>)) = Ok m"
    using assms unfolding merge_result_def if_not_P [OF guard] result_bind_Ok by blast
  have o: "is_ok outcome = is_ok (res_result n)"
  proof (cases "res_result n")
    case (Ok v)
    then show ?thesis using out by (cases v) (auto simp: result_bind_Ok)
  qed (use out in auto)
  show "is_ok (res_result m) = is_ok (res_result n)"
    using o fin by (auto simp: Let_def result_bind_Ok split: if_splits)
  show "gain C config price m = gain C config price r + gain C config price n" if "is_ok (res_result n)"
    using that o fin bu by (auto simp: gain_def checked_word_Ok algebra_simps Let_def result_bind_Ok)
  show "res_new_receipts m = [] \<and> res_tokens_burnt m = 0" if "\<not> is_ok (res_result n)"
    using that o fin by (auto simp: Let_def)
qed

lemma apply_actions_worth:
  assumes "apply_actions C env st receipt ar prs i as (s, acct, actor) res = Ok ((s', acct', actor'), res')"
    and "trie_inv s" "acct = None \<longrightarrow> absent (r_receiver_id receipt) s"
    and "\<forall>a \<in> set as. accounted (as_protocol_version st) a" "is_ok (res_result res)"
  shows "if is_ok (res_result res')
    then trie_inv s' \<and> (acct' = None \<longrightarrow> absent (r_receiver_id receipt) s')
      \<and> worth C (as_config st) (va_gas_price ar) (r_receiver_id receipt) s' acct' res'
        = worth C (as_config st) (va_gas_price ar) (r_receiver_id receipt) s acct res + int (deposits as)
    else res_new_receipts res' = [] \<and> res_tokens_burnt res' = 0"
  using assms
proof (induction as arbitrary: i s acct actor res)
  case (Cons a as)
  let ?aid = "r_receiver_id receipt" and ?w = "worth C (as_config st) (va_gas_price ar) (r_receiver_id receipt)"
  obtain s1 acct1 actor1 n m where one: "apply_action C env st receipt ar prs i a (s, acct, actor) = Ok ((s1, acct1, actor1), n)"
    and m: "merge_result res (check_new_receipts C st n) = Ok m"
    and rest: "(if is_ok (res_result m) then apply_actions C env st receipt ar prs (Suc i) as (s1, acct1, actor1) m
       else Ok ((s1, acct1, actor1), set_error_index i m)) = Ok ((s', acct', actor'), res')"
    using Cons.prems(1) by (auto simp: result_bind_Ok)
  show ?case
  proof (cases "is_ok (res_result m)")
    case True
    then have n: "is_ok (res_result n)" "check_new_receipts C st n = n"
      using merge_gain(1) [OF m] check_new_receipts_cases by auto
    have w1: "trie_inv s1 \<and> (acct1 = None \<longrightarrow> absent ?aid s1)
        \<and> ?w s1 acct1 n = int (others ?aid s + held acct) + int (deposit_of a)"
      using apply_action_worth [OF one Cons.prems(2,3) _ n(1)] Cons.prems(4) by simp
    have "?w s1 acct1 m = ?w s acct res + int (deposit_of a)"
      using w1 merge_gain(2) [OF m, of C "as_config st" "va_gas_price ar"] n by (simp add: worth_def)
    then show ?thesis
      using Cons.IH [of "Suc i" s1 acct1 actor1 m] rest True w1 Cons.prems(4) by (auto split: if_splits)
  next
    case False
    then have "res' = set_error_index i m" using rest by simp
    moreover have "res_new_receipts m = [] \<and> res_tokens_burnt m = 0" using merge_gain(1,3) [OF m] False by blast
    ultimately show ?thesis using False
      by (cases "res_result m") (auto simp: set_error_index_def)
  qed
qed simp

lemma finish_account_worth:
  assumes "finish_account config aid (s, acct, actor) res = Ok (s', res')"
    "is_ok (res_result res) \<Longrightarrow> trie_inv s \<and> (acct = None \<longrightarrow> absent aid s)"
  shows "if is_ok (res_result res') then trie_inv s' \<and> state_tokens s' = others aid s + held acct \<and> res' = res
         else (if is_ok (res_result res) then res_new_receipts res' = [] \<and> res_tokens_burnt res' = 0 else res' = res)"
proof (cases "is_ok (res_result res)")
  case False
  then show ?thesis using assms by (simp add: finish_account_def)
next
  case ok: True
  show ?thesis
  proof (cases acct)
    case None
    then show ?thesis using assms ok others_held [of aid s] by (auto simp: finish_account_def absent_def)
  next
    case (Some a)
    show ?thesis
    proof (cases "check_storage_stake a (amount a) config")
      case (Ok x)
      then show ?thesis using assms ok Some state_tokens_written [of s aid a] by (auto simp: finish_account_def)
    next
      case (Err e)
      then obtain m r where "merge_result res (fail_with (ActionLackBalanceForState aid m) default_result) = Ok res'"
        using assms(1) ok Some by (cases e) (auto simp: finish_account_def result_simps)
      then show ?thesis using merge_gain(1,3) ok by fastforce
    qed
  qed
qed

section \<open>Settlement\<close>

text \<open>What a success returns and burns, and what a failure does, at the receipt's gas price.\<close>

lemma ucast_gas: "unat (ucast g :: u128) = unat (g :: u64)"
  by (rule unat_ucast_up) simp

lemma gas_to_balance: "safe_gas_to_balance p g = Ok b \<Longrightarrow> unat b = unat p * unat g"
  by (simp add: checked_ops result_simps checked_mul_Some ucast_gas)

definition receipt_prepaid ::
  "'e crypto_scheme \<Rightarrow> RuntimeConfig \<Rightarrow> Receipt \<Rightarrow> VersionedActionReceipt \<Rightarrow> nat" where
  "receipt_prepaid C config receipt ar =
     (case receipt_gas C config (r_receiver_id receipt) (va_actions ar) of Ok g \<Rightarrow> g | Err _ \<Rightarrow> 0)"

lemma price_gap:
  assumes "(if p < cur then safe_gas_to_balance (cur - p) g else Ok 0) = Ok defi"
    and "(if p < cur then Ok 0 else safe_gas_to_balance (p - cur) g) = Ok surp"
  shows "unat cur * unat g + unat surp = unat p * unat g + unat defi"
proof (cases "p < cur")
  case True
  then have "unat (cur - p) = unat cur - unat p" "unat p \<le> unat cur"
    by (simp_all add: word_less_nat_alt unat_sub word_le_nat_alt)
  then show ?thesis using assms True gas_to_balance [of "cur - p" g defi] by (simp add: diff_mult_distrib mult_le_mono1)
next
  case False
  then have "unat (p - cur) = unat p - unat cur" "unat cur \<le> unat p"
    by (simp_all add: word_less_nat_alt unat_sub word_le_nat_alt)
  then show ?thesis using assms False gas_to_balance [of "p - cur" g surp] by (simp add: diff_mult_distrib mult_le_mono1)
qed

lemma refund_balance:
  assumes "refund_unspent_gas_and_deposits C current receipt ar config res = Ok (res', grr)"
  defines "gas \<equiv> if is_ok (res_result res) then res_gas_used res else res_gas_burnt res"
  shows "res_result res' = res_result res \<and> res_gas_burnt res' = res_gas_burnt res
    \<and> res_tokens_burnt res' = res_tokens_burnt res
    \<and> values_of C config (res_new_receipts res') + unat (refund_penalty grr) + unat (va_gas_price ar) * unat gas
      = values_of C config (res_new_receipts res) + unat (va_gas_price ar) * receipt_prepaid C config receipt ar
        + (if is_ok (res_result res) then 0 else deposits (va_actions ar))
    \<and> unat current * unat (res_gas_burnt res) + unat (price_surplus grr)
      = unat (va_gas_price ar) * unat (res_gas_burnt res) + unat (price_deficit grr)"
proof -
  obtain dep pg sf pgs ef pe all gross pen net grefund penb defi surp where
    f: "total_deposit (va_actions ar) 0 = Ok dep" "total_prepaid_gas (va_actions ar) 0 = Ok pg"
      "total_prepaid_send_fees C config (va_actions ar) 0 = Ok sf" "checked_add_result pg sf = Ok pgs"
      "total_prepaid_exec_fees C config (r_receiver_id receipt) (va_actions ar) 0 = Ok ef"
      "checked_add_result ef (execution (action_fees (fees config) cost_new_action_receipt)) = Ok pe"
      "checked_add_result pgs pe = Ok all"
      "ok_or (checked_sub all (if \<not> is_ok (res_result res) then res_gas_burnt res else res_gas_used res)) FeePanic = Ok gross"
      "gas_penalty_for_gas_refund (fees config) gross = Ok pen" "ok_or (checked_sub gross pen) FeePanic = Ok net"
      "safe_gas_to_balance (va_gas_price ar) net = Ok grefund" "safe_gas_to_balance (va_gas_price ar) pen = Ok penb"
      "(if va_gas_price ar < current then safe_gas_to_balance (current - va_gas_price ar) (res_gas_burnt res) else Ok 0) = Ok defi"
      "(if va_gas_price ar < current then Ok 0 else safe_gas_to_balance (va_gas_price ar - current) (res_gas_burnt res)) = Ok surp"
    and r: "(let deposit_refund = (if \<not> is_ok (res_result res) then dep else 0);
          res1 = (if 0 < deposit_refund
             then push_receipt (new_balance_refund (balance_refund_receiver receipt) deposit_refund) res else res);
           res2 = (if 0 < grefund
             then push_receipt (new_gas_refund (va_signer_id ar) grefund (va_signer_public_key ar)) res1
             else res1) in (res2, \<lparr> price_deficit = defi, price_surplus = surp, refund_penalty = penb \<rparr>)) = (res', grr)"
    using assms(1) unfolding refund_unspent_gas_and_deposits_def Let_def map_err_Ok result_bind_Ok by blast
  let ?p = "unat (va_gas_price ar)"
  have all: "unat all = receipt_prepaid C config receipt ar"
    using f by (simp add: receipt_prepaid_def receipt_gas_def checked_ops result_simps checked_add_Some)
  have "unat grefund + unat penb + ?p * unat gas = ?p * unat all"
    using f(8,10) gas_to_balance [OF f(11)] gas_to_balance [OF f(12)]
    by (auto simp: gas_def result_simps checked_sub_Some algebra_simps split: if_splits)
  moreover have "unat current * unat (res_gas_burnt res) + unat surp = ?p * unat (res_gas_burnt res) + unat defi"
    by (rule price_gap [OF f(13,14)])
  moreover have "unat dep = deposits (va_actions ar)" using f(1) by (simp add: total_deposit_iff)
  ultimately show ?thesis
    using r all by (auto simp: Let_def word_neq_0_conv [symmetric])
qed

text \<open>Routing the output, giving identifiers and splitting the sent receipts keep their value.\<close>

lemma receipt_value_cong:
  assumes "action_receipt r' = action_receipt r" "r_receiver_id r' = r_receiver_id r"
  shows "receipt_value C config r' = receipt_value C config r"
  by (simp only: receipt_value_def assms)

lemma value_output_receivers:
  assumes "add_output_receivers out (r_receipt r) = Some e"
  shows "receipt_value C config (r \<lparr> r_receipt := e \<rparr>) = receipt_value C config r"
  using assms
  by (cases "r_receipt r") (auto simp: receipt_value_def action_receipt_def split: if_splits)

lemma values_update:
  "i < length rs \<Longrightarrow> receipt_value C config r = receipt_value C config (rs ! i)
     \<Longrightarrow> values_of C config (rs[i := r]) = values_of C config rs"
  by (simp add: values_of_def map_update) (metis list_update_id nth_map)

lemma values_data: "values_of C config (data_receipts aid data out) = 0"
  by (induction out) (auto simp: values_of_def data_receipts_def receipt_value_def action_receipt_def)

lemma route_values:
  assumes "route_output aid out res = Ok rs"
  shows "values_of C config rs = values_of C config (res_new_receipts res)"
  using assms
  by (auto simp: route_output_def Let_def values_data values_update value_output_receivers
      split: if_splits result.splits ReturnData.splits option.splits)

lemma assign_values: "values_of C config (assign_receipt_ids C' st p rs) = values_of C config rs"
proof -
  have "receipt_value C config (r \<lparr> r_receipt_id := x \<rparr>) = receipt_value C config r" for r x
    by (rule receipt_value_cong) (simp_all add: action_receipt_def)
  then have "map (receipt_value C config) (assign_receipt_ids C' st p rs) = map (receipt_value C config) rs"
    by (intro nth_equalityI) (simp_all add: assign_receipt_ids_def nth_enumerate_eq)
  then show ?thesis by (simp add: values_of_def)
qed

lemma split_values: "values_of C config (filter P rs) + values_of C config (filter (\<lambda>r. \<not> P r) rs) = values_of C config rs"
  by (induction rs) auto

lemma send_values:
  "values_of C config (rp_outgoing (send_receipts pv rs ps)) + values_of C config (rp_instant (send_receipts pv rs ps))
     = values_of C config (rp_outgoing ps) + values_of C config (rp_instant ps) + values_of C config rs"
  using split_values [of C config "\<lambda>r. is_instant_receipt r pv" rs] by (simp add: send_receipts_def)

lemma pay_reward_balance:
  assumes "pay_reward aid reward s b = Ok (s', b')" "trie_inv s"
  shows "trie_inv s' \<and> state_tokens s' + unat b' = state_tokens s + unat b"
proof (cases "reward = 0 \<or> bt_get (t_accounts s) aid = None")
  case True
  then show ?thesis
    using assms by (auto simp: pay_reward_def result_simps get_account_Ok split: option.splits if_splits)
next
  case False
  then obtain a where a: "bt_get (t_accounts s) aid = Some a" "reward \<noteq> 0" by auto
  then have g: "get_account s aid = Ok (Some a)"
    using assms(1) by (auto simp: pay_reward_def result_simps get_account_Ok)
  obtain v where v: "checked_sub b reward = Some b'" "safe_add_balance (amount a) reward = Ok v"
    "s' = set_account aid (set_amount v a) s"
    using assms(1) a(2) g by (auto simp: pay_reward_def result_simps)
  then show ?thesis
    using state_tokens_set_account [OF a(1) assms(2), of "set_amount v a"] assms(2)
    by (simp add: checked_ops result_simps checked_add_Some checked_sub_Some account_tokens_def)
qed

definition receipt_ledger :: "'e crypto_scheme \<Rightarrow> RuntimeConfig \<Rightarrow> ReceiptProcState \<Rightarrow> nat" where
  "receipt_ledger C config ps = state_tokens (rp_trie ps)
     + unat (bs_tx_burnt_amount (rp_stats ps)) + unat (bs_other_burnt_amount (rp_stats ps))
     + values_of C config (rp_outgoing ps) + values_of C config (rp_instant ps)"

text \<open>The first step of the settlement: the refunds, or nothing for a refund receipt.\<close>

definition settle_refunds ::
  "'e crypto_scheme \<Rightarrow> ApplyState \<Rightarrow> Receipt \<Rightarrow> VersionedActionReceipt \<Rightarrow> BalanceStats \<Rightarrow> ActionResult
     \<Rightarrow> (BalanceStats \<times> ActionResult \<times> GasRefundResult, RuntimeError) result" where
  "settle_refunds C st receipt ar stats res0 =
     (if is_system (r_predecessor_id receipt) then
        (if is_ok (res_result res0) then Ok (stats, res0, no_refund)
         else map_err fee_error (
           result_bind (total_deposit (va_actions ar) 0) (\<lambda>d.
           result_bind (safe_add_balance (bs_other_burnt_amount stats) d) (\<lambda>b.
             Ok (stats \<lparr> bs_other_burnt_amount := b \<rparr>, res0, no_refund)))))
      else
        result_bind (refund_unspent_gas_and_deposits C (as_gas_price st) receipt ar (as_config st) res0)
          (\<lambda>(r, g). Ok (stats, r, g)))"

lemma settle_refunds_balance:
  assumes "settle_refunds C st receipt ar stats res = Ok (stats', res', grr)"
    and price: "is_system (r_predecessor_id receipt) \<longrightarrow> va_gas_price ar = 0"
    and burnt: "receipt_tokens_burnt (as_gas_price st)
      (if is_system (r_predecessor_id receipt) then 0 else res_gas_burnt res') grr (res_tokens_burnt res') = Ok b"
  defines "gas \<equiv> if is_ok (res_result res) then res_gas_used res else res_gas_burnt res"
  shows "res_result res' = res_result res \<and> bs_tx_burnt_amount stats' = bs_tx_burnt_amount stats
    \<and> unat b + unat (bs_other_burnt_amount stats') + values_of C (as_config st) (res_new_receipts res')
        + unat (va_gas_price ar) * unat gas
      = unat (res_tokens_burnt res) + unat (bs_other_burnt_amount stats) + values_of C (as_config st) (res_new_receipts res)
        + unat (va_gas_price ar) * unat (res_gas_burnt res)
        + unat (va_gas_price ar) * receipt_prepaid C (as_config st) receipt ar
        + (if is_ok (res_result res) then 0 else deposits (va_actions ar))"
proof (cases "is_system (r_predecessor_id receipt)")
  case True
  then have "grr = no_refund \<and> res' = res \<and> bs_tx_burnt_amount stats' = bs_tx_burnt_amount stats
      \<and> unat (bs_other_burnt_amount stats') = unat (bs_other_burnt_amount stats)
        + (if is_ok (res_result res) then 0 else deposits (va_actions ar))"
    using assms(1)
    by (auto simp: settle_refunds_def result_bind_Ok map_err_Ok checked_ops ok_or_Ok total_deposit_iff checked_add_Some
        split: if_splits)
  moreover have "unat b = unat (res_tokens_burnt res)" if "grr = no_refund" "res' = res"
    using burnt True that
    by (auto simp: receipt_tokens_burnt_def no_refund_def checked_ops result_simps checked_add_Some checked_sub_Some
        checked_mul_Some)
  ultimately show ?thesis using price True by auto
next
  case False
  then have r: "refund_unspent_gas_and_deposits C (as_gas_price st) receipt ar (as_config st) res = Ok (res', grr)"
    "stats' = stats"
    using assms(1) by (auto simp: settle_refunds_def result_bind_Ok)
  have "unat b + unat (price_deficit grr) = unat (as_gas_price st) * unat (res_gas_burnt res')
      + unat (price_surplus grr) + unat (refund_penalty grr) + unat (res_tokens_burnt res')"
    using burnt False
    by (auto simp: receipt_tokens_burnt_def checked_ops result_simps checked_add_Some checked_sub_Some
        checked_mul_Some ucast_gas)
  then show ?thesis using refund_balance [OF r(1)] r(2) by (auto simp: gas_def)
qed

lemma settle_balance:
  assumes settle: "settle_receipt C st receipt ar committed s res ps = Ok (ps', outcome)"
    and inv: "trie_inv committed" and price: "is_system (r_predecessor_id receipt) \<longrightarrow> va_gas_price ar = 0"
    and ok: "is_ok (res_result res) \<Longrightarrow> trie_inv s \<and> int (state_tokens s) + gain C (as_config st) (va_gas_price ar) res
      = int (state_tokens committed) + int (deposits (va_actions ar))"
    and err: "\<not> is_ok (res_result res) \<Longrightarrow> res_new_receipts res = [] \<and> res_tokens_burnt res = 0"
  shows "trie_inv (rp_trie ps') \<and> receipt_ledger C (as_config st) ps' + state_tokens (rp_trie ps)
    = receipt_ledger C (as_config st) ps + state_tokens committed + deposits (va_actions ar)
      + unat (va_gas_price ar) * receipt_prepaid C (as_config st) receipt ar"
proof -
  obtain stats1 res1 grr gd b reward s2 txb tb rs where
    r: "settle_refunds C st receipt ar (rp_stats ps) res = Ok (stats1, res1, grr)"
    and b: "receipt_tokens_burnt (as_gas_price st)
      (if is_system (r_predecessor_id receipt) then 0 else res_gas_burnt res1) grr (res_tokens_burnt res1) = Ok b"
    and p: "pay_reward (r_receiver_id receipt) reward (if is_ok (res_result res1) then s else committed) b = Ok (s2, txb)"
    and t: "safe_add_balance (bs_tx_burnt_amount stats1) txb = Ok tb"
    and o: "route_output (r_receiver_id receipt) (va_output_data_receivers ar) res1 = Ok rs"
    and ps': "ps' = send_receipts (as_protocol_version st) (assign_receipt_ids C st (r_receipt_id receipt) rs)
      (ps \<lparr> rp_trie := s2, rp_stats := stats1 \<lparr> bs_gas_deficit_amount := gd, bs_tx_burnt_amount := tb \<rparr>,
            rp_proposals := rp_proposals ps @ res_validator_proposals res1 \<rparr>)"
    using settle unfolding settle_receipt_def Let_def settle_refunds_def [symmetric]
    by (auto simp: result_bind_Ok map_err_Ok)
  let ?config = "as_config st" and ?p = "unat (va_gas_price ar)"
  note refunds = settle_refunds_balance [OF r price b]
  have s2: "trie_inv s2 \<and> state_tokens s2 + unat txb = state_tokens (if is_ok (res_result res) then s else committed) + unat b"
    using pay_reward_balance [OF p] refunds inv ok by (auto split: if_splits)
  have tb: "unat tb = unat (bs_tx_burnt_amount (rp_stats ps)) + unat txb"
    using t refunds by (simp add: checked_ops result_simps checked_add_Some)
  have ledger: "receipt_ledger C ?config ps' = state_tokens s2 + unat tb + unat (bs_other_burnt_amount stats1)
      + values_of C ?config (rp_outgoing ps) + values_of C ?config (rp_instant ps) + values_of C ?config (res_new_receipts res1)"
    using send_values [of C ?config "as_protocol_version st" "assign_receipt_ids C st (r_receipt_id receipt) rs"]
    by (simp add: receipt_ledger_def ps' assign_values route_values [OF o]) (simp add: send_receipts_def)
  have "state_tokens (if is_ok (res_result res) then s else committed) + unat (res_tokens_burnt res)
      + values_of C ?config (res_new_receipts res) + ?p * unat (res_gas_burnt res)
      + (if is_ok (res_result res) then 0 else deposits (va_actions ar))
    = state_tokens committed + deposits (va_actions ar)
      + ?p * unat (if is_ok (res_result res) then res_gas_used res else res_gas_burnt res)"
    using ok err by (auto simp: gain_def algebra_simps of_nat_mult [symmetric] of_nat_add [symmetric] simp del: of_nat_mult of_nat_add)
  then show ?thesis
    using refunds s2 tb ledger by (auto simp: receipt_ledger_def ps' send_receipts_def)
qed

lemma promise_results_frame:
  "take_promise_results aid ds s = Ok (s', xs) \<Longrightarrow> t_accounts s' = t_accounts s \<and> t_access_keys s' = t_access_keys s
     \<and> (trie_inv s \<longrightarrow> trie_inv s')"
proof (induction ds arbitrary: s xs)
  case (Cons d ds)
  then show ?case by (fastforce simp: result_bind_Ok trie_inv_def split: option.splits)
qed simp

section \<open>Property\<close>

text \<open>Concrete objects for the witness: a transfer of 5 to an existing account, at a gas price above the current one.\<close>

definition l_ar :: ActionReceipt where
  "l_ar = \<lparr> ar_signer_id = ''bob'', ar_signer_public_key = ED25519 [2], ar_gas_price = 12,
     ar_output_data_receivers = [([3], ''carol'')], ar_input_data_ids = [], ar_actions = [Transfer 5] \<rparr>"

definition l_receipt :: Receipt where
  "l_receipt = \<lparr> r_predecessor_id = ''bob'', r_receiver_id = ''alice'', r_receipt_id = [8], r_receipt = RAction l_ar \<rparr>"

definition l_proc :: ReceiptProcState where
  "l_proc = \<lparr> rp_trie = set_account ''alice'' w_account w_empty,
     rp_stats = \<lparr> bs_tx_burnt_amount = 0, bs_other_burnt_amount = 0, bs_gas_deficit_amount = 0 \<rparr>,
     rp_outgoing = [], rp_instant = [], rp_proposals = [] \<rparr>"

definition l_env :: RuntimeEnv where
  "l_env = \<lparr> env_minimum_stake = (\<lambda>_. Ok 0), env_shard_ids = Ok [0], env_wallet_code = [],
     env_function_call = (\<lambda>_ _ _ _ x. Ok x) \<rparr>"

lemma l_alice_named: "get_account_type toy_crypto ''alice'' = NamedAccount"
  by (simp add: get_account_type_def is_bitcoin_implicit_def has_valid_base58check_address_def
      has_valid_segwit_address_def is_legacy_lowercased_bitcoin_def starts_with_def
      is_eth_implicit_def is_near_implicit_def is_near_deterministic_def toy_crypto_def)

lemma l_fee: "exec_fee toy_crypto unit_config (Transfer 5) ''alice'' = Ok 1"
  by (simp add: exec_fee_def transfer_fee_of_def l_alice_named unit_config_def unit_fee_def checked_ops checked_add_def)

lemma l_parts:
  "r_receiver_id l_receipt = ''alice''" "\<not> is_system ''bob''"
  "r_predecessor_id l_receipt = ''bob''" "r_receipt_id l_receipt = [8]" "action_receipt l_receipt = Some (ArV1 l_ar)"
  "ar_actions l_ar = [Transfer 5]" "ar_gas_price l_ar = 12" "ar_input_data_ids l_ar = []"
  "ar_output_data_receivers l_ar = [([3], ''carol'')]" "execution (action_fees (fees unit_config) cost_new_action_receipt) = 1"
  "as_config l_state = unit_config" "as_gas_price l_state = 10" "as_protocol_version l_state = 84"
  by (simp_all add: l_receipt_def is_system_def action_receipt_def l_ar_def l_state_def unit_config_def unit_fee_def)

lemma l_actions:
  "apply_actions toy_crypto l_env l_state l_receipt (ArV1 l_ar) prs 0 [Transfer 5]
     (s, Some w_account, ''bob'') (default_result \<lparr> res_gas_used := 1, res_gas_burnt := 1, res_compute_usage := 1 \<rparr>)
   = Ok ((s, Some (set_amount 1005 w_account), ''bob''),
       default_result \<lparr> res_gas_used := 2, res_gas_burnt := 2, res_compute_usage := 2 \<rparr>)"
  by (simp add: apply_action_def l_parts l_fee Let_def check_account_existence_def check_actor_permissions_def
      apply_action_body_def action_transfer_or_implicit_account_creation_def action_transfer_def w_account_def
      checked_add_def check_new_receipts_def default_result_def merge_result_def checked_word_def)

lemma l_refunds:
  "refund_unspent_gas_and_deposits toy_crypto 10 l_receipt (ArV1 l_ar) unit_config
     (default_result \<lparr> res_gas_used := 2, res_gas_burnt := 2, res_compute_usage := 2 \<rparr>)
   = Ok (default_result \<lparr> res_gas_used := 2, res_gas_burnt := 2, res_compute_usage := 2 \<rparr>,
       \<lparr> price_deficit = 0, price_surplus = 4, refund_penalty = 0 \<rparr>)"
proof -
  have "gas_penalty_for_gas_refund (fees unit_config) 0 = Ok 0"
    by (simp add: gas_penalty_for_gas_refund_def unit_config_def checked_mul_def Let_def)
  then show ?thesis
    by (simp add: refund_unspent_gas_and_deposits_def l_parts l_fee Let_def default_result_def checked_ops
        checked_add_def checked_sub_def checked_mul_def)
qed

lemma l_receipt_run:
  "\<exists>ps' out. apply_action_receipt toy_crypto l_env l_state l_receipt l_proc = Ok (ps', out)
     \<and> bs_tx_burnt_amount (rp_stats ps') = 24 \<and> length (rp_outgoing ps') = 1"
proof -
  let ?s = "set_account ''alice'' w_account w_empty"
  have st: "check_storage_stake (set_amount 1005 w_account) 1005 unit_config = Ok ()"
    by (simp add: check_storage_stake_Ok w_account_def unit_config_def config_storage_amount_per_byte_def)
  have "get_account ?s ''alice'' = Ok (Some w_account)"
    by (simp add: get_account_Ok w_empty_def bt_get_insert)
  moreover have "amount (set_amount 1005 w_account) = 1005" by simp
  moreover have "receiver_reward unit_config 12 0 = Ok 0"
    by (simp add: receiver_reward_def unit_config_def checked_ops checked_mul_def Let_def)
  moreover have "receipt_tokens_burnt 10 2 \<lparr> price_deficit = 0, price_surplus = 4, refund_penalty = 0 \<rparr> 0 = Ok 24"
    by (simp add: receipt_tokens_burnt_def checked_ops checked_mul_def checked_add_def checked_sub_def)
  ultimately show ?thesis
    using l_refunds
    by (simp add: apply_action_receipt_def l_parts l_actions l_proc_def Let_def del: apply_actions.simps)
      (simp add: finish_account_def st default_result_def settle_receipt_def l_parts Let_def pay_reward_def route_output_def data_receipts_def
        safe_add_balance_def checked_add_def send_receipts_def assign_receipt_ids_def is_instant_receipt_def)
qed

lemma l_proc_ledger: "receipt_ledger toy_crypto unit_config l_proc = 1050" "trie_inv (rp_trie l_proc)"
  "bt_get (t_accounts (rp_trie l_proc)) ''alice'' = Some w_account"
  by (simp_all add: receipt_ledger_def l_proc_def state_tokens_def w_account_def account_tokens_def
      trie_inv_def w_empty_def trie_ops bt_inv_def)



end

