(* ===== verification/Receipt_Waiting.thy ===== *)
theory Receipt_Waiting
  imports Process_Receipt Receipt_Ledger
begin

text \<open>
  Receipts that wait for data. The state links every missing datum to the one receipt that waits for
  it and counts what is missing; the invariant says that links and counts agree with the
  data received. From it, a receipt is executed exactly when the last of the receipt itself and its
  data arrives, in whatever order they come.
\<close>

section \<open>Invariant\<close>

definition inputs :: "Receipt \<Rightarrow> CryptoHash list" where
  "inputs rc = (case versioned (r_receipt rc) of VAction ar \<Rightarrow> va_input_data_ids ar | _ \<Rightarrow> [])"

definition missing :: "TrieUpdate \<Rightarrow> AccountId \<Rightarrow> CryptoHash list \<Rightarrow> CryptoHash set" where
  "missing s a ds = {d \<in> set ds. t_received_data s (a, d) = None}"

definition waits :: "TrieUpdate \<Rightarrow> AccountId \<Rightarrow> CryptoHash \<Rightarrow> Receipt \<Rightarrow> bool" where
  "waits s a r rc \<longleftrightarrow> r_receiver_id rc = a \<and> r_receipt_id rc = r \<and> (\<exists>ar. versioned (r_receipt rc) = VAction ar)
     \<and> (\<forall>d \<in> missing s a (inputs rc). t_postponed_ids s (a, d) = Some r)
     \<and> missing s a (inputs rc) \<noteq> {}
     \<and> (\<exists>n. t_pending_counts s (a, r) = Some n \<and> unat n = card (missing s a (inputs rc)))"

definition wait_inv :: "TrieUpdate \<Rightarrow> bool" where
  "wait_inv s \<longleftrightarrow> (\<forall>a r rc. t_postponed s (a, r) = Some rc \<longrightarrow> waits s a r rc)
     \<and> (\<forall>a d r. t_postponed_ids s (a, d) = Some r \<longrightarrow>
          (\<exists>rc. t_postponed s (a, r) = Some rc \<and> d \<in> missing s a (inputs rc)))"

definition healthy :: "TrieUpdate \<Rightarrow> bool" where
  "healthy s \<longleftrightarrow> (\<forall>k. t_fault s k = None)"

lemma read_healthy [simp]: "healthy s \<Longrightarrow> trie_read s k v = Ok v"
  by (simp add: healthy_def trie_read_def)

lemma finite_missing [simp]: "finite (missing s a ds)"
  by (simp add: missing_def)

lemma missing_received:
  "missing (set_received_data a d x s) a' ds = (if a' = a then missing s a ds - {d} else missing s a' ds)"
  by (auto simp: missing_def set_received_data_def)

lemma set_received_frame [simp]:
  "t_postponed (set_received_data a d x s) = t_postponed s"
  "t_postponed_ids (set_received_data a d x s) = t_postponed_ids s"
  "t_pending_counts (set_received_data a d x s) = t_pending_counts s"
  "t_fault (set_received_data a d x s) = t_fault s"
  "t_received_data (set_received_data a d x s) = (t_received_data s)((a, d) \<mapsto> x)"
  by (simp_all add: set_received_data_def)

lemma wait_invI:
  assumes "\<And>a r rc. t_postponed s (a, r) = Some rc \<Longrightarrow> waits s a r rc"
    and "\<And>a d r. t_postponed_ids s (a, d) = Some r \<Longrightarrow>
      \<exists>rc. t_postponed s (a, r) = Some rc \<and> d \<in> missing s a (inputs rc)"
  shows "wait_inv s"
  using assms by (simp add: wait_inv_def)

lemma wait_invD:
  assumes "wait_inv s"
  shows "t_postponed s (a, r) = Some rc \<Longrightarrow> waits s a r rc"
    and "t_postponed_ids s (a, d) = Some r \<Longrightarrow> \<exists>rc. t_postponed s (a, r) = Some rc \<and> d \<in> missing s a (inputs rc)"
  using assms by (simp_all add: wait_inv_def)

lemma waits_link: "waits s a r rc \<Longrightarrow> d \<in> missing s a (inputs rc) \<Longrightarrow> t_postponed_ids s (a, d) = Some r"
  by (simp add: waits_def)

lemma waits_cong:
  assumes "waits s a r rc" "missing s' a (inputs rc) = missing s a (inputs rc)"
    and "\<And>d. d \<in> missing s a (inputs rc) \<Longrightarrow> t_postponed_ids s' (a, d) = t_postponed_ids s (a, d)"
    and "t_pending_counts s' (a, r) = t_pending_counts s (a, r)"
  shows "waits s' a r rc"
  using assms by (simp add: waits_def)

section \<open>A datum arrives\<close>

lemma unawaited_datum:
  assumes "wait_inv s" "t_postponed_ids s (a, d) = None"
  shows "wait_inv (set_received_data a d x s)"
proof (rule wait_invI)
  fix a' r rc
  assume "t_postponed (set_received_data a d x s) (a', r) = Some rc"
  then have w: "waits s a' r rc" using wait_invD(1) [OF assms(1)] by simp
  then have "a' = a \<Longrightarrow> d \<notin> missing s a (inputs rc)" using waits_link assms(2) by fastforce
  then show "waits (set_received_data a d x s) a' r rc"
    by (intro waits_cong [OF w]) (auto simp: missing_received)
next
  fix a' d' r
  assume "t_postponed_ids (set_received_data a d x s) (a', d') = Some r"
  then show "\<exists>rc. t_postponed (set_received_data a d x s) (a', r) = Some rc
      \<and> d' \<in> missing (set_received_data a d x s) a' (inputs rc)"
    using wait_invD(2) [OF assms(1)] assms(2) by (fastforce simp: missing_received)
qed

text \<open>The state after an awaited datum, with the receipt it was for woken up or not.\<close>

definition datum_state :: "AccountId \<Rightarrow> CryptoHash \<Rightarrow> bytes option \<Rightarrow> CryptoHash \<Rightarrow> TrieUpdate \<Rightarrow> TrieUpdate" where
  "datum_state a d x r s =
     (let s1 = (set_received_data a d x s) \<lparr> t_postponed_ids := (t_postponed_ids s)((a, d) := None) \<rparr> in
      if t_pending_counts s (a, r) = Some 1
      then s1 \<lparr> t_pending_counts := (t_pending_counts s)((a, r) := None), t_postponed := (t_postponed s)((a, r) := None) \<rparr>
      else s1 \<lparr> t_pending_counts := (t_pending_counts s)((a, r) := map_option (\<lambda>n. n - 1) (t_pending_counts s (a, r))) \<rparr>)"

lemma datum_state_frame [simp]:
  "t_received_data (datum_state a d x r s) = (t_received_data s)((a, d) \<mapsto> x)"
  "t_postponed_ids (datum_state a d x r s) = (t_postponed_ids s)((a, d) := None)"
  "t_fault (datum_state a d x r s) = t_fault s"
  "(a', r') \<noteq> (a, r) \<Longrightarrow> t_pending_counts (datum_state a d x r s) (a', r') = t_pending_counts s (a', r')"
  by (auto simp: datum_state_def Let_def)

lemma missing_datum [simp]:
  "missing (datum_state a d x r s) a' ds = (if a' = a then missing s a ds - {d} else missing s a' ds)"
  by (auto simp: missing_def)

lemma datum_state_postponed:
  "t_postponed (datum_state a d x r s)
     = (if t_pending_counts s (a, r) = Some 1 then (t_postponed s)((a, r) := None) else t_postponed s)"
  by (simp add: datum_state_def Let_def)

lemma last_datum:
  assumes "waits s a r rc" "d \<in> missing s a (inputs rc)"
  shows "t_pending_counts s (a, r) = Some 1 \<longleftrightarrow> missing s a (inputs rc) = {d}"
proof -
  obtain n where n: "t_pending_counts s (a, r) = Some n" "unat n = card (missing s a (inputs rc))"
    using assms(1) by (auto simp: waits_def)
  have "n = 1 \<longleftrightarrow> card (missing s a (inputs rc)) = 1" unfolding n(2) [symmetric] by (simp add: word_unat_eq_iff)
  also have "\<dots> \<longleftrightarrow> missing s a (inputs rc) = {d}"
  proof
    assume "card (missing s a (inputs rc)) = 1"
    then obtain e where "missing s a (inputs rc) = {e}" by (rule card_1_singletonE)
    then show "missing s a (inputs rc) = {d}" using assms(2) by simp
  qed simp
  finally show ?thesis using n(1) by simp
qed

lemma awaited_datum:
  assumes inv: "wait_inv s" and rc: "t_postponed s (a, r) = Some rc" and d: "d \<in> missing s a (inputs rc)"
  shows "wait_inv (datum_state a d x r s)"
proof (rule wait_invI)
  fix a' r' rc'
  let ?s' = "datum_state a d x r s"
  have w: "waits s a r rc" by (rule wait_invD(1) [OF inv rc])
  assume p: "t_postponed ?s' (a', r') = Some rc'"
  then have p0: "t_postponed s (a', r') = Some rc'" by (auto simp: datum_state_postponed split: if_splits)
  then have w': "waits s a' r' rc'" by (rule wait_invD(1) [OF inv])
  show "waits ?s' a' r' rc'"
  proof (cases "(a', r') = (a, r)")
    case False
    have "d \<notin> missing s a (inputs rc')" if "a' = a"
      using waits_link [OF w'] waits_link [OF w d] that False by auto
    then show ?thesis by (intro waits_cong [OF w']) (use False in auto)
  next
    case True
    then have more: "missing s a (inputs rc) \<noteq> {d}" and rc': "rc' = rc"
      using p p0 rc last_datum [OF w d] by (auto simp: datum_state_postponed split: if_splits)
    obtain n where n: "t_pending_counts s (a, r) = Some n" "unat n = card (missing s a (inputs rc))"
      using w by (auto simp: waits_def)
    have "unat (n - 1) = card (missing s a (inputs rc) - {d})"
      using n(2) d by (subst unat_sub) (auto simp: word_le_nat_alt Suc_le_eq card_gt_0_iff)
    moreover have "t_pending_counts ?s' (a, r) = Some (n - 1)"
      using n(1) last_datum [OF w d] more by (simp add: datum_state_def Let_def)
    ultimately show ?thesis using w more d True rc' by (auto simp: waits_def)
  qed
next
  fix a' d' r'
  let ?s' = "datum_state a d x r s"
  assume "t_postponed_ids ?s' (a', d') = Some r'"
  then have l: "t_postponed_ids s (a', d') = Some r'" "(a', d') \<noteq> (a, d)" by (auto split: if_splits)
  obtain rc' where rc': "t_postponed s (a', r') = Some rc'" "d' \<in> missing s a' (inputs rc')"
    using wait_invD(2) [OF inv l(1)] by (elim exE conjE)
  have "t_postponed ?s' (a', r') = Some rc'"
  proof (cases "(a', r') = (a, r) \<and> t_pending_counts s (a, r) = Some 1")
    case True
    then have "rc' = rc" "missing s a (inputs rc) = {d}"
      using rc'(1) rc last_datum [OF wait_invD(1) [OF inv rc] d] by simp_all
    then show ?thesis using rc'(2) l(2) True by simp
  next
    case False
    then show ?thesis using rc'(1) by (simp add: datum_state_postponed)
  qed
  then show "\<exists>rc. t_postponed ?s' (a', r') = Some rc \<and> d' \<in> missing ?s' a' (inputs rc)"
    using rc'(2) l(2) by auto
qed

lemma datum_stored:
  assumes "healthy (rp_trie ps)" "t_postponed_ids (rp_trie ps) (a, dr_data_id d) = None"
  shows "process_data_receipt C env st a d ps
    = Ok (ps \<lparr> rp_trie := set_received_data a (dr_data_id d) (dr_data d) (rp_trie ps) \<rparr>, None)"
  using assms by (simp add: process_data_receipt_def healthy_def trie_read_def)

lemma datum_processed:
  assumes "healthy (rp_trie ps)" "wait_inv (rp_trie ps)" "t_postponed (rp_trie ps) (a, r) = Some rc"
    and d: "dr_data_id d \<in> missing (rp_trie ps) a (inputs rc)"
  defines "s' \<equiv> datum_state a (dr_data_id d) (dr_data d) r (rp_trie ps)"
  shows "process_data_receipt C env st a d ps
    = (if missing (rp_trie ps) a (inputs rc) = {dr_data_id d} then execute C env st rc (ps \<lparr> rp_trie := s' \<rparr>)
       else Ok (ps \<lparr> rp_trie := s' \<rparr>, None))"
proof -
  let ?s = "rp_trie ps"
  have w: "waits ?s a r rc" by (rule wait_invD(1) [OF assms(2,3)])
  obtain n where n: "t_pending_counts ?s (a, r) = Some n" "unat n = card (missing ?s a (inputs rc))"
    using w by (auto simp: waits_def)
  have "0 < unat n" using n(2) d by (auto simp: card_gt_0_iff)
  then have "checked_sub n 1 = Some (n - 1)" by (simp add: checked_sub_def word_le_nat_alt)
  moreover have "t_fault ?s k = None" for k using assms(1) by (simp add: healthy_def)
  ultimately show ?thesis
    using n(1) waits_link [OF w d] assms(3) last_datum [OF w d]
    by (simp add: process_data_receipt_def trie_read_def s'_def datum_state_def Let_def)
qed

section \<open>An action receipt arrives\<close>

definition linked :: "AccountId \<Rightarrow> CryptoHash \<Rightarrow> CryptoHash set \<Rightarrow> TrieUpdate \<Rightarrow> TrieUpdate" where
  "linked a r M s = s \<lparr> t_postponed_ids := (\<lambda>(a', d). if a' = a \<and> d \<in> M then Some r else t_postponed_ids s (a', d)) \<rparr>"

lemma linked_frame [simp]:
  "t_received_data (linked a r M s) = t_received_data s" "t_postponed (linked a r M s) = t_postponed s"
  "t_pending_counts (linked a r M s) = t_pending_counts s" "t_fault (linked a r M s) = t_fault s"
  "t_postponed_ids (linked a r M s) (a', d) = (if a' = a \<and> d \<in> M then Some r else t_postponed_ids s (a', d))"
  "linked a r {} s = s"
  by (simp_all add: linked_def)

lemma missing_linked [simp]: "missing (linked a r M s) a' ds = missing s a' ds"
  by (simp add: missing_def)

lemma linked_insert:
  "linked a r M (s \<lparr> t_postponed_ids := (t_postponed_ids s)((a, d) \<mapsto> r) \<rparr>) = linked a r (insert d M) s"
  by (auto simp: linked_def fun_eq_iff)

lemma await_data_linked:
  assumes "healthy s" "distinct ds" "unat p + length ds < 2 ^ 32"
  shows "\<exists>p'. await_data a r ds s p = Ok (linked a r (missing s a ds) s, p')
    \<and> unat p' = unat p + card (missing s a ds)"
  using assms
proof (induction ds arbitrary: s p)
  case Nil
  then show ?case by (simp add: missing_def)
next
  case (Cons d ds)
  show ?case
  proof (cases "t_received_data s (a, d)")
    case (Some x)
    then have "missing s a (d # ds) = missing s a ds" by (auto simp: missing_def)
    then show ?thesis using Cons Some by (simp add: has_received_data_def)
  next
    case None
    let ?s = "s \<lparr> t_postponed_ids := (t_postponed_ids s)((a, d) \<mapsto> r) \<rparr>"
    obtain p1 where p1: "checked_add p 1 = Some p1" using Cons.prems(3) by (simp add: checked_add_def)
    then have u: "unat p1 = unat p + 1" by (simp add: checked_add_Some)
    have m: "missing ?s a ds = missing s a ds" "missing s a (d # ds) = insert d (missing s a ds)" "d \<notin> missing s a ds"
      using None Cons.prems(2) by (auto simp: missing_def)
    have "healthy ?s" using Cons.prems(1) by (simp add: healthy_def)
    from Cons.IH [OF this, of p1] show ?thesis
      using Cons.prems None p1 u m by (auto simp: has_received_data_def linked_insert)
  qed
qed

definition postponed_state :: "Receipt \<Rightarrow> TrieUpdate \<Rightarrow> TrieUpdate" where
  "postponed_state rc s =
     (let a = r_receiver_id rc; r = r_receipt_id rc; M = missing s a (inputs rc) in
      (linked a r M s) \<lparr> t_pending_counts := (t_pending_counts s)((a, r) \<mapsto> word_of_nat (card M)),
         t_postponed := (t_postponed s)((a, r) \<mapsto> rc) \<rparr>)"

lemma postponed_state_frame [simp]:
  "t_received_data (postponed_state rc s) = t_received_data s" "t_fault (postponed_state rc s) = t_fault s"
  "missing (postponed_state rc s) a ds = missing s a ds"
  "t_postponed (postponed_state rc s) = (t_postponed s)((r_receiver_id rc, r_receipt_id rc) \<mapsto> rc)"
  "t_postponed_ids (postponed_state rc s) (a, d)
     = (if a = r_receiver_id rc \<and> d \<in> missing s (r_receiver_id rc) (inputs rc) then Some (r_receipt_id rc)
        else t_postponed_ids s (a, d))"
  "t_pending_counts (postponed_state rc s) = (t_pending_counts s)((r_receiver_id rc, r_receipt_id rc)
     \<mapsto> word_of_nat (card (missing s (r_receiver_id rc) (inputs rc))))"
  by (simp_all add: postponed_state_def Let_def missing_def)

lemma action_receipt_processed:
  assumes "healthy (rp_trie ps)" "versioned (r_receipt rc) = VAction ar" "distinct (inputs rc)" "length (inputs rc) < 2 ^ 32"
  shows "process_action_receipt C env st rc ar ps
    = (if missing (rp_trie ps) (r_receiver_id rc) (inputs rc) = {} then execute C env st rc ps
       else Ok (ps \<lparr> rp_trie := postponed_state rc (rp_trie ps) \<rparr>, None))"
proof -
  let ?s = "rp_trie ps" and ?a = "r_receiver_id rc" and ?r = "r_receipt_id rc"
  let ?M = "missing ?s ?a (inputs rc)"
  have i: "va_input_data_ids ar = inputs rc" using assms(2) by (simp add: inputs_def)
  obtain p where p: "await_data ?a ?r (inputs rc) ?s 0 = Ok (linked ?a ?r ?M ?s, p)" "unat p = card ?M"
    using await_data_linked [OF assms(1,3), of 0] assms(4) by auto
  have "p = word_of_nat (card ?M)" unfolding p(2) [symmetric] by simp
  moreover have "p = 0 \<longleftrightarrow> ?M = {}" using p(2) by (auto simp: unat_eq_0 [symmetric])
  ultimately show ?thesis
    using p(1) i assms(2)
    by (simp add: process_action_receipt_def Let_def set_postponed_receipt_def postponed_state_def)
qed

lemma postponed_inv:
  assumes inv: "wait_inv s" and rc: "versioned (r_receipt rc) = VAction ar"
    and new: "t_postponed s (r_receiver_id rc, r_receipt_id rc) = None"
    and free: "\<And>d. d \<in> missing s (r_receiver_id rc) (inputs rc) \<Longrightarrow> t_postponed_ids s (r_receiver_id rc, d) = None"
    and M: "missing s (r_receiver_id rc) (inputs rc) \<noteq> {}" "length (inputs rc) < 2 ^ 32"
  shows "wait_inv (postponed_state rc s)"
proof (rule wait_invI)
  let ?a = "r_receiver_id rc" and ?r = "r_receipt_id rc" and ?s' = "postponed_state rc s"
  let ?M = "missing s ?a (inputs rc)"
  have "card ?M \<le> card (set (inputs rc))" by (rule card_mono) (auto simp: missing_def)
  then have "card ?M < 2 ^ 32" using M(2) card_length [of "inputs rc"] by linarith
  then have card: "unat (word_of_nat (card ?M) :: u32) = card ?M" by (simp add: unat_of_nat take_bit_nat_eq_self)
  fix a' r' rc'
  assume p: "t_postponed ?s' (a', r') = Some rc'"
  show "waits ?s' a' r' rc'"
  proof (cases "(a', r') = (?a, ?r)")
    case True
    then have "rc' = rc" using p by simp
    then show ?thesis using True rc M(1) card by (simp add: waits_def)
  next
    case False
    then have w: "waits s a' r' rc'" using p wait_invD(1) [OF inv] by (auto split: if_splits)
    have "d \<notin> ?M" if "a' = ?a" "d \<in> missing s ?a (inputs rc')" for d
      using waits_link [OF w] that free by fastforce
    then show ?thesis
      using False by (intro waits_cong [OF w]) auto
  qed
next
  let ?a = "r_receiver_id rc" and ?r = "r_receipt_id rc" and ?s' = "postponed_state rc s"
  fix a' d r'
  assume "t_postponed_ids ?s' (a', d) = Some r'"
  then have l: "(if a' = ?a \<and> d \<in> missing s ?a (inputs rc) then Some ?r else t_postponed_ids s (a', d)) = Some r'" by simp
  show "\<exists>rc'. t_postponed ?s' (a', r') = Some rc' \<and> d \<in> missing ?s' a' (inputs rc')"
  proof (cases "a' = ?a \<and> d \<in> missing s ?a (inputs rc)")
    case True
    then show ?thesis using l by (intro exI [of _ rc]) simp
  next
    case False
    have "t_postponed_ids s (a', d) = Some r'" using l unfolding if_not_P [OF False] .
    then obtain rc' where rc': "t_postponed s (a', r') = Some rc'" "d \<in> missing s a' (inputs rc')"
      using wait_invD(2) [OF inv] by blast
    then have "(a', r') \<noteq> (?a, ?r)" using new by auto
    then show ?thesis using rc' by (intro exI [of _ rc']) auto
  qed
qed

section \<open>Whatever the order of arrival\<close>

definition data_of :: "Receipt \<Rightarrow> DataReceipt option" where
  "data_of e = (case versioned (r_receipt e) of VData d \<Rightarrow> Some d | _ \<Rightarrow> None)"

definition delivered :: "DataReceipt list \<Rightarrow> CryptoHash \<rightharpoonup> bytes option" where
  "delivered D = map_of (map (\<lambda>d. (dr_data_id d, dr_data d)) D)"

text \<open>What the state is like after some of the arrivals: \<open>D\<close> has been delivered, the latest first.\<close>

definition phase ::
  "Receipt \<Rightarrow> TrieUpdate \<Rightarrow> DataReceipt list \<Rightarrow> bool \<Rightarrow> TrieUpdate \<Rightarrow> bool" where
  "phase rc s0 D posted s \<longleftrightarrow> healthy s \<and> wait_inv s
     \<and> (\<forall>d \<in> set (inputs rc). t_received_data s (r_receiver_id rc, d) = delivered D d)
     \<and> t_postponed s = (if posted then (t_postponed s0)((r_receiver_id rc, r_receipt_id rc) \<mapsto> rc) else t_postponed s0)
     \<and> (\<not> posted \<longrightarrow> (\<forall>d \<in> set (inputs rc). t_postponed_ids s (r_receiver_id rc, d) = None))
     \<and> t_accounts s = t_accounts s0 \<and> t_access_keys s = t_access_keys s0"

lemma accounts_frame [simp]:
  "t_accounts (set_received_data a d x s) = t_accounts s" "t_access_keys (set_received_data a d x s) = t_access_keys s"
  "t_accounts (datum_state a d x r s) = t_accounts s" "t_access_keys (datum_state a d x r s) = t_access_keys s"
  "t_accounts (postponed_state rc s) = t_accounts s" "t_access_keys (postponed_state rc s) = t_access_keys s"
  by (simp_all add: set_received_data_def datum_state_def postponed_state_def linked_def Let_def)

lemma phase_missing:
  assumes "phase rc s0 D posted s"
  shows "missing s (r_receiver_id rc) (inputs rc) = set (inputs rc) - dr_data_id ` set D"
proof -
  have "delivered D d = None \<longleftrightarrow> d \<notin> dr_data_id ` set D" for d
    by (auto simp: delivered_def map_of_eq_None_iff image_image)
  then show ?thesis using assms by (auto simp: phase_def missing_def)
qed

lemma phase_action:
  assumes ph: "phase rc s0 D False (rp_trie ps)" and rc: "versioned (r_receipt rc) = VAction ar"
    and new: "t_postponed s0 (r_receiver_id rc, r_receipt_id rc) = None"
    and len: "distinct (inputs rc)" "length (inputs rc) < 2 ^ 32"
  shows "if set (inputs rc) \<subseteq> dr_data_id ` set D then process_receipt C env st rc ps = execute C env st rc ps
    else \<exists>s'. process_receipt C env st rc ps = Ok (ps \<lparr> rp_trie := s' \<rparr>, None) \<and> phase rc s0 D True s'"
proof -
  have h: "healthy (rp_trie ps)" and inv: "wait_inv (rp_trie ps)" using ph by (simp_all add: phase_def)
  note m = phase_missing [OF ph]
  have run: "process_receipt C env st rc ps
    = (if missing (rp_trie ps) (r_receiver_id rc) (inputs rc) = {} then execute C env st rc ps
       else Ok (ps \<lparr> rp_trie := postponed_state rc (rp_trie ps) \<rparr>, None))"
    using action_receipt_processed [OF h rc len, of C env st] rc by (simp add: process_receipt_def)
  show ?thesis
  proof (cases "set (inputs rc) \<subseteq> dr_data_id ` set D")
    case True
    then show ?thesis using run m by auto
  next
    case False
    then have ne: "missing (rp_trie ps) (r_receiver_id rc) (inputs rc) \<noteq> {}" using m by auto
    have "wait_inv (postponed_state rc (rp_trie ps))"
      by (rule postponed_inv [OF inv rc _ _ ne len(2)]) (use ph new in \<open>auto simp: phase_def missing_def\<close>)
    then have "phase rc s0 D True (postponed_state rc (rp_trie ps))"
      using ph by (simp add: phase_def healthy_def)
    then show ?thesis using False run ne by auto
  qed
qed

lemma phase_datum:
  assumes ph: "phase rc s0 D posted (rp_trie ps)" and e: "data_of e = Some d" "r_receiver_id e = r_receiver_id rc"
    and d: "dr_data_id d \<in> set (inputs rc)" "dr_data_id d \<notin> dr_data_id ` set D"
    and new: "t_postponed s0 (r_receiver_id rc, r_receipt_id rc) = None"
  shows "if posted \<and> set (inputs rc) \<subseteq> dr_data_id ` set (d # D)
    then \<exists>s'. process_receipt C env st e ps = execute C env st rc (ps \<lparr> rp_trie := s' \<rparr>) \<and> phase rc s0 (d # D) False s'
    else \<exists>s'. process_receipt C env st e ps = Ok (ps \<lparr> rp_trie := s' \<rparr>, None) \<and> phase rc s0 (d # D) posted s'"
proof -
  let ?s = "rp_trie ps" and ?a = "r_receiver_id rc" and ?r = "r_receipt_id rc"
  have h: "healthy ?s" and inv: "wait_inv ?s" using ph by (simp_all add: phase_def)
  have pr: "process_receipt C env st e ps = process_data_receipt C env st ?a d ps"
    using e by (auto simp: process_receipt_def data_of_def split: VersionedReceiptEnum.splits)
  have m: "missing ?s ?a (inputs rc) = set (inputs rc) - dr_data_id ` set D" by (rule phase_missing [OF ph])
  have val: "delivered (d # D) x = ((delivered D)(dr_data_id d \<mapsto> dr_data d)) x" for x by (simp add: delivered_def)
  show ?thesis
  proof (cases posted)
    case False
    then have none: "t_postponed_ids ?s (?a, dr_data_id d) = None" using ph d(1) by (simp add: phase_def)
    let ?s' = "set_received_data ?a (dr_data_id d) (dr_data d) ?s"
    have "phase rc s0 (d # D) False ?s'"
      using ph unawaited_datum [OF inv none] False by (simp add: phase_def healthy_def val)
    then show ?thesis using False datum_stored [OF h none, of C env st] pr by (simp add: exI [of _ ?s'])
  next
    case True
    then have p: "t_postponed ?s (?a, ?r) = Some rc" using ph by (simp add: phase_def)
    have dm: "dr_data_id d \<in> missing ?s ?a (inputs rc)" using d m by simp
    define s' where "s' = datum_state ?a (dr_data_id d) (dr_data d) ?r ?s"
    have inv': "wait_inv s'" unfolding s'_def by (rule awaited_datum [OF inv p dm])
    have last: "missing ?s ?a (inputs rc) = {dr_data_id d} \<longleftrightarrow> set (inputs rc) \<subseteq> dr_data_id ` set (d # D)"
      using d m by auto
    have post: "t_postponed s' = (if missing ?s ?a (inputs rc) = {dr_data_id d} then t_postponed s0
        else (t_postponed s0)((?a, ?r) \<mapsto> rc))"
    proof -
      have "(t_postponed s0)((?a, ?r) := None) = t_postponed s0" using new by (metis fun_upd_triv)
      moreover have "t_postponed ?s = (t_postponed s0)((?a, ?r) \<mapsto> rc)" using ph True by (simp add: phase_def)
      ultimately show ?thesis
        unfolding s'_def datum_state_postponed last_datum [OF wait_invD(1) [OF inv p] dm] by simp
    qed
    have unlinked: "t_postponed_ids s' (?a, x) = None"
      if "missing ?s ?a (inputs rc) = {dr_data_id d}" "x \<in> set (inputs rc)" for x
    proof (rule ccontr)
      assume "t_postponed_ids s' (?a, x) \<noteq> None"
      then obtain r' rc' where "t_postponed_ids s' (?a, x) = Some r'" "x \<in> missing s' ?a (inputs rc')"
        using wait_invD(2) [OF inv'] by blast
      then have "x \<in> missing ?s ?a (inputs rc)" "x \<noteq> dr_data_id d"
        using that(2) by (auto simp: s'_def missing_def split: if_splits)
      then show False using that(1) by simp
    qed
    have ph': "phase rc s0 (d # D) (missing ?s ?a (inputs rc) \<noteq> {dr_data_id d}) s'"
    proof -
      have "healthy s'" using h by (simp add: healthy_def s'_def)
      moreover have "t_received_data s' (?a, x) = delivered (d # D) x" if "x \<in> set (inputs rc)" for x
        using ph that by (simp add: phase_def s'_def val)
      moreover have "t_accounts s' = t_accounts s0 \<and> t_access_keys s' = t_access_keys s0"
        using ph by (simp add: phase_def s'_def)
      ultimately show ?thesis unfolding phase_def post using inv' unlinked by simp
    qed
    have run: "process_receipt C env st e ps = (if missing ?s ?a (inputs rc) = {dr_data_id d}
        then execute C env st rc (ps \<lparr> rp_trie := s' \<rparr>) else Ok (ps \<lparr> rp_trie := s' \<rparr>, None))"
      unfolding pr s'_def by (rule datum_processed [OF h inv p dm])
    show ?thesis
    proof (cases "missing ?s ?a (inputs rc) = {dr_data_id d}")
      case last': True
      then have c: "posted \<and> set (inputs rc) \<subseteq> dr_data_id ` set (d # D)" using last True by blast
      show ?thesis unfolding if_P [OF c] using run ph' last' by (intro exI [of _ s']) simp
    next
      case more: False
      then have c: "\<not> (posted \<and> set (inputs rc) \<subseteq> dr_data_id ` set (d # D))" using last by blast
      show ?thesis unfolding if_not_P [OF c] using run ph' more True by (intro exI [of _ s']) simp
    qed
  qed
qed

fun process_seq ::
  "'e crypto_scheme \<Rightarrow> RuntimeEnv \<Rightarrow> ApplyState \<Rightarrow> Receipt list \<Rightarrow> ReceiptProcState
     \<Rightarrow> (ReceiptProcState \<times> ExecutionOutcomeWithId option list, RuntimeError) result" where
  "process_seq C env st [] ps = Ok (ps, [])"
| "process_seq C env st (e # es) ps =
     result_bind (process_receipt C env st e ps) (\<lambda>(ps', out).
     result_bind (process_seq C env st es ps') (\<lambda>(ps'', outs). Ok (ps'', out # outs)))"

text \<open>The arrivals still to come: the receipt unless it is there already, and each missing datum once.\<close>

definition to_come :: "Receipt \<Rightarrow> DataReceipt list \<Rightarrow> bool \<Rightarrow> Receipt list \<Rightarrow> bool" where
  "to_come rc D posted es \<longleftrightarrow> (\<forall>e \<in> set es. r_receiver_id e = r_receiver_id rc)
     \<and> filter (\<lambda>e. data_of e = None) es = (if posted then [] else [rc])
     \<and> distinct (map dr_data_id (List.map_filter data_of es))
     \<and> dr_data_id ` set (List.map_filter data_of es) = set (inputs rc) - dr_data_id ` set D
     \<and> dr_data_id ` set D \<subseteq> set (inputs rc)"

lemma remove_inserted:
  assumes "insert x I = A - B" "x \<notin> I"
  shows "I = A - insert x B" "x \<in> A - B"
proof -
  show "x \<in> A - B" unfolding assms(1) [symmetric] by (rule insertI1)
  have "I = insert x I - {x}" using assms(2) by (rule Diff_insert_absorb [symmetric])
  then show "I = A - insert x B" unfolding assms(1) Diff_insert [of A x B] .
qed

lemma to_come_step:
  assumes "to_come rc D posted (e # es)" "data_of rc = None"
  shows "r_receiver_id e = r_receiver_id rc"
    and "data_of e = None \<Longrightarrow> e = rc \<and> \<not> posted \<and> to_come rc D True es"
    and "data_of e = Some d \<Longrightarrow> to_come rc (d # D) posted es
      \<and> dr_data_id d \<in> set (inputs rc) \<and> dr_data_id d \<notin> dr_data_id ` set D"
proof -
  show "r_receiver_id e = r_receiver_id rc" using assms(1) by (simp add: to_come_def)
  show "e = rc \<and> \<not> posted \<and> to_come rc D True es" if "data_of e = None"
    using assms(1) that by (auto simp: to_come_def map_filter_simps split: if_splits)
  show "to_come rc (d # D) posted es \<and> dr_data_id d \<in> set (inputs rc) \<and> dr_data_id d \<notin> dr_data_id ` set D"
    if "data_of e = Some d"
  proof -
    let ?I = "dr_data_id ` set (List.map_filter data_of es)"
    have t: "insert (dr_data_id d) ?I = set (inputs rc) - dr_data_id ` set D" "dr_data_id d \<notin> ?I"
      using assms(1) that by (simp_all add: to_come_def map_filter_simps)
    note out = remove_inserted [OF t]
    have "?I = set (inputs rc) - dr_data_id ` set (d # D)" unfolding list.set image_insert by (rule out(1))
    moreover have "distinct (map dr_data_id (List.map_filter data_of es))" "dr_data_id ` set (d # D) \<subseteq> set (inputs rc)"
      using assms(1) that out(2) by (simp_all add: to_come_def map_filter_simps)
    moreover have "\<forall>e \<in> set es. r_receiver_id e = r_receiver_id rc" "filter (\<lambda>e. data_of e = None) es = (if posted then [] else [rc])"
      using assms(1) that by (simp_all add: to_come_def)
    ultimately show ?thesis using out(2) unfolding to_come_def by blast
  qed
qed

lemma to_come_done:
  assumes "to_come rc D posted es" "data_of rc = None" "es \<noteq> []" "posted"
  shows "\<not> set (inputs rc) \<subseteq> dr_data_id ` set D"
proof -
  have "filter (\<lambda>e. data_of e = None) es = []" using assms(1,4) by (simp add: to_come_def)
  then have "List.map_filter data_of es \<noteq> []" using assms(3) by (cases es) (auto split: if_splits option.splits)
  then have "dr_data_id ` set (List.map_filter data_of es) \<noteq> {}" by simp
  moreover have "dr_data_id ` set (List.map_filter data_of es) = set (inputs rc) - dr_data_id ` set D"
    using assms(1) unfolding to_come_def by blast
  ultimately show ?thesis by (metis Diff_eq_empty_iff)
qed

lemma seq_replicate: "es \<noteq> [] \<Longrightarrow> x # replicate (length es - Suc 0) x = replicate (length es) x"
  by (cases es) simp_all

lemma arrivals_run:
  assumes "phase rc s0 D posted (rp_trie ps)" "to_come rc D posted es" "es \<noteq> []"
    and rc: "versioned (r_receipt rc) = VAction ar" "t_postponed s0 (r_receiver_id rc, r_receipt_id rc) = None"
      "distinct (inputs rc)" "length (inputs rc) < 2 ^ 32"
  shows "\<exists>ps1 s'. process_seq C env st (butlast es) ps = Ok (ps1, replicate (length es - 1) None)
    \<and> process_receipt C env st (last es) ps1 = execute C env st rc (ps \<lparr> rp_trie := s' \<rparr>)
    \<and> phase rc s0 (rev (List.map_filter data_of es) @ D) False s'"
  using assms(1-3)
proof (induction es arbitrary: D posted ps)
  case (Cons e es)
  have nd: "data_of rc = None" using rc(1) by (simp add: data_of_def)
  note step = to_come_step [OF Cons.prems(2) nd]
  show ?case
  proof (cases "data_of e")
    case None
    then have e: "e = rc" "\<not> posted" "to_come rc D True es" using step(2) by auto
    have ph: "phase rc s0 D False (rp_trie ps)" using Cons.prems(1) e(2) by simp
    note act = phase_action [OF ph rc, of C env st]
    show ?thesis
    proof (cases "es = []")
      case True
      then have "set (inputs rc) \<subseteq> dr_data_id ` set D" using e(3) by (auto simp: to_come_def map_filter_simps)
      then show ?thesis using act ph e(1) True None by (intro exI [of _ ps] exI [of _ "rp_trie ps"]) (simp add: map_filter_simps)
    next
      case False
      then have "\<not> set (inputs rc) \<subseteq> dr_data_id ` set D" using to_come_done [OF e(3) nd] by simp
      then obtain s' where s': "process_receipt C env st rc ps = Ok (ps \<lparr> rp_trie := s' \<rparr>, None)" "phase rc s0 D True s'"
        using act by auto
      obtain ps1 s2 where "process_seq C env st (butlast es) (ps \<lparr> rp_trie := s' \<rparr>) = Ok (ps1, replicate (length es - 1) None)"
        "process_receipt C env st (last es) ps1 = execute C env st rc (ps \<lparr> rp_trie := s2 \<rparr>)"
        "phase rc s0 (rev (List.map_filter data_of es) @ D) False s2"
        using Cons.IH [of D True "ps \<lparr> rp_trie := s' \<rparr>"] s'(2) e(3) False by auto
      then show ?thesis
        using s'(1) e(1) False None
        by (intro exI [of _ ps1] exI [of _ s2]) (simp add: map_filter_simps seq_replicate)
    qed
  next
    case (Some d)
    then have d: "to_come rc (d # D) posted es" "dr_data_id d \<in> set (inputs rc)" "dr_data_id d \<notin> dr_data_id ` set D"
      using step(3) by auto
    note dat = phase_datum [OF Cons.prems(1) Some step(1) d(2,3) rc(2), of C env st]
    show ?thesis
    proof (cases "es = []")
      case True
      then have "posted" "set (inputs rc) - dr_data_id ` set (d # D) = {}"
        using d(1) by (simp_all add: to_come_def map_filter_simps split: if_splits)
      then have c: "posted \<and> set (inputs rc) \<subseteq> dr_data_id ` set (d # D)" by blast
      obtain s' where "process_receipt C env st e ps = execute C env st rc (ps \<lparr> rp_trie := s' \<rparr>)" "phase rc s0 (d # D) False s'"
        using dat unfolding if_P [OF c] by blast
      then show ?thesis
        using Some True by (intro exI [of _ ps] exI [of _ s']) (simp add: map_filter_simps)
    next
      case False
      then have c: "\<not> (posted \<and> set (inputs rc) \<subseteq> dr_data_id ` set (d # D))" using to_come_done [OF d(1) nd] by blast
      obtain s' where s': "process_receipt C env st e ps = Ok (ps \<lparr> rp_trie := s' \<rparr>, None)" "phase rc s0 (d # D) posted s'"
        using dat unfolding if_not_P [OF c] by blast
      obtain ps1 s2 where "process_seq C env st (butlast es) (ps \<lparr> rp_trie := s' \<rparr>) = Ok (ps1, replicate (length es - 1) None)"
        "process_receipt C env st (last es) ps1 = execute C env st rc (ps \<lparr> rp_trie := s2 \<rparr>)"
        "phase rc s0 (rev (List.map_filter data_of es) @ d # D) False s2"
        using Cons.IH [of "d # D" posted "ps \<lparr> rp_trie := s' \<rparr>"] s'(2) d(1) False by auto
      then show ?thesis
        using s'(1) False Some
        by (intro exI [of _ ps1] exI [of _ s2]) (simp add: map_filter_simps seq_replicate)
    qed
  qed
qed simp

text \<open>C7: A receipt runs exactly when the last of what it needs arrives. Take an action receipt with
  distinct input data ids, none of them received or awaited yet, in a state whose links and counts
  agree with its data. Let the receipt and each of its data arrive once, in any order. Then every
  arrival but the last is processed without executing anything and without an error. The last one
  executes the receipt, in a state that holds every datum as delivered, in which the
  receipt no longer waits and the receipts of others wait as before, on untouched accounts.\<close>

theorem receipt_runs_at_last_arrival:
  assumes rc: "versioned (r_receipt rc) = VAction ar" "t_postponed (rp_trie ps) (r_receiver_id rc, r_receipt_id rc) = None"
      "distinct (inputs rc)" "length (inputs rc) < 2 ^ 32"
    and s: "healthy (rp_trie ps)" "wait_inv (rp_trie ps)"
      "\<forall>d \<in> set (inputs rc). t_received_data (rp_trie ps) (r_receiver_id rc, d) = None
         \<and> t_postponed_ids (rp_trie ps) (r_receiver_id rc, d) = None"
    and es: "to_come rc [] False es"
  shows "\<exists>ps1 s'. process_seq C env st (butlast es) ps = Ok (ps1, replicate (length es - 1) None)
    \<and> process_receipt C env st (last es) ps1 = execute C env st rc (ps \<lparr> rp_trie := s' \<rparr>)
    \<and> (\<forall>d \<in> set (List.map_filter data_of es). t_received_data s' (r_receiver_id rc, dr_data_id d) = Some (dr_data d))
    \<and> t_postponed s' = t_postponed (rp_trie ps) \<and> wait_inv s' \<and> t_accounts s' = t_accounts (rp_trie ps)"
proof -
  have "phase rc (rp_trie ps) [] False (rp_trie ps)" using s by (simp add: phase_def delivered_def)
  moreover have ne: "es \<noteq> []" using es by (auto simp: to_come_def)
  ultimately obtain ps1 s' where run: "process_seq C env st (butlast es) ps = Ok (ps1, replicate (length es - 1) None)"
      "process_receipt C env st (last es) ps1 = execute C env st rc (ps \<lparr> rp_trie := s' \<rparr>)"
    and ph: "phase rc (rp_trie ps) (rev (List.map_filter data_of es)) False s'"
    using arrivals_run [OF _ es _ rc, of ps C env st] by auto
  have "t_received_data s' (r_receiver_id rc, dr_data_id d) = Some (dr_data d)"
    if "d \<in> set (List.map_filter data_of es)" for d
  proof -
    have "dr_data_id d \<in> set (inputs rc)" "distinct (map dr_data_id (List.map_filter data_of es))"
      using es that by (auto simp: to_come_def)
    moreover from this(2) that have "delivered (rev (List.map_filter data_of es)) (dr_data_id d) = Some (dr_data d)"
      by (simp add: delivered_def rev_map [symmetric] comp_def)
    ultimately show ?thesis using ph by (simp add: phase_def)
  qed
  then show ?thesis using run ph by (intro exI [of _ ps1] exI [of _ s']) (simp add: phase_def)
qed

text \<open>Concrete arrivals: a datum, the receipt that needs two, and the other datum.\<close>

definition q_receipt :: Receipt where
  "q_receipt = l_receipt \<lparr> r_receipt := RAction (l_ar \<lparr> ar_input_data_ids := [[1], [2]] \<rparr>) \<rparr>"

definition q_datum :: "u8 \<Rightarrow> Receipt" where
  "q_datum n = l_receipt \<lparr> r_receipt := RData \<lparr> dr_data_id = [n], dr_data = Some [n, n] \<rparr> \<rparr>"

theorem receipt_runs_at_last_arrival_witness:
  "\<exists>ps1 s'. process_seq toy_crypto l_env l_state [q_datum 1, q_receipt] l_proc = Ok (ps1, [None, None])
    \<and> process_receipt toy_crypto l_env l_state (q_datum 2) ps1
      = execute toy_crypto l_env l_state q_receipt (l_proc \<lparr> rp_trie := s' \<rparr>)
    \<and> t_received_data s' (''alice'', [1]) = Some (Some [1, 1]) \<and> t_received_data s' (''alice'', [2]) = Some (Some [2, 2])"
proof -
  have rc: "versioned (r_receipt q_receipt) = VAction (ArV1 (l_ar \<lparr> ar_input_data_ids := [[1], [2]] \<rparr>))"
    "r_receiver_id q_receipt = ''alice''" "r_receipt_id q_receipt = [8]"
    by (simp_all add: q_receipt_def l_receipt_def)
  then have ins: "inputs q_receipt = [[1], [2]]" by (simp add: inputs_def)
  have dat: "data_of (q_datum n) = Some \<lparr> dr_data_id = [n], dr_data = Some [n, n] \<rparr>" "r_receiver_id (q_datum n) = ''alice''" for n
    by (simp_all add: q_datum_def l_receipt_def data_of_def)
  have nd: "data_of q_receipt = None" by (simp add: data_of_def rc)
  have "to_come q_receipt [] False [q_datum 1, q_receipt, q_datum 2]"
    by (simp add: to_come_def dat nd rc ins)
  moreover have "t_postponed (rp_trie l_proc) (''alice'', [8]) = None" "healthy (rp_trie l_proc)" "wait_inv (rp_trie l_proc)"
    "t_received_data (rp_trie l_proc) = Map.empty" "t_postponed_ids (rp_trie l_proc) = Map.empty"
    by (simp_all add: l_proc_def w_empty_def healthy_def wait_inv_def set_account_def)
  moreover have two: "replicate 2 None = [None, None]" by (simp add: numeral_2_eq_2)
  ultimately show ?thesis
    using receipt_runs_at_last_arrival [OF rc(1), of l_proc "[q_datum 1, q_receipt, q_datum 2]" toy_crypto l_env l_state]
    unfolding rc(2,3) ins by (simp add: dat nd two del: process_seq.simps) blast
qed

end
