(* ===== verification/Global_Distribution.thy ===== *)
theory Global_Distribution
  imports Receipt_Waiting
begin

text \<open>
  The life of one global contract distribution. Every shard installs the code and sends the
  distribution on to one shard that has not had it (\<open>global_contracts.rs\<close>), and the receipt is routed by
  its target shard (\<open>Receipt::receiver_shard_id\<close>). The chain of receipts ends, having installed the code
  on every shard of the layout; and distributions of the same contract that reach a shard in different orders
  leave it in the same state.
\<close>

section \<open>The chain of receipts\<close>

fun gcd_target :: "GlobalContractDistributionReceipt \<Rightarrow> ShardId" where
  "gcd_target (GcdV1 g) = gcd1_target_shard g"
| "gcd_target (GcdV2 g) = gcd2_target_shard g"

text \<open>
  A distribution whose target is a shard of the layout is processed there. What the shard sends
  is what it appends to its outgoing receipts.
\<close>

partial_function (option) deliver ::
  "'e crypto_scheme \<Rightarrow> RuntimeEnv \<Rightarrow> ApplyState \<Rightarrow> Receipt \<Rightarrow> (ShardId \<Rightarrow> ReceiptProcState)
     \<Rightarrow> (ShardId \<Rightarrow> ReceiptProcState, RuntimeError) result option" where
  "deliver C env st rc w =
     (case r_receipt rc of
        RGlobalContractDistribution g \<Rightarrow>
          (let sh = gcd_target g in
           case process_receipt C env (st \<lparr> as_shard_id := sh \<rparr>) rc (w sh) of
             Err e \<Rightarrow> Some (Err e)
           | Ok (ps, _) \<Rightarrow>
               (case drop (length (rp_outgoing (w sh))) (rp_outgoing ps) of
                  [] \<Rightarrow> Some (Ok (w(sh := ps)))
                | rc' # _ \<Rightarrow> deliver C env st rc' (w(sh := ps))))
      | _ \<Rightarrow> None)"

lemma forward_simps [simp]:
  "gcd_id (gcd_forward g t ds) = gcd_id g" "gcd_code (gcd_forward g t ds) = gcd_code g"
  "gcd_nonce (gcd_forward g t ds) = gcd_nonce g" "gcd_target (gcd_forward g t ds) = t"
  "gcd_delivered (gcd_forward g t ds) = ds"
  by (cases g; simp)+

lemma set_delivered_shards [simp]: "set (delivered_shards c g) = insert c (set (gcd_delivered g))"
  by (simp add: delivered_shards_def)

text \<open>The nonce stored for a contract lets a distribution in.\<close>

definition admits :: "TrieUpdate \<Rightarrow> GlobalContractDistributionReceipt \<Rightarrow> bool" where
  "admits s g \<longleftrightarrow> (case t_global_nonces s (gcd_id g) of None \<Rightarrow> True | Some n \<Rightarrow> n \<le> gcd_nonce g)"

lemma admits_forward [simp]: "admits s (gcd_forward g t ds) = admits s g"
  by (simp add: admits_def split: option.splits)

lemma get_nonce_healthy:
  "healthy s \<Longrightarrow> get_nonce s i = Ok (case t_global_nonces s i of Some x \<Rightarrow> x | None \<Rightarrow> 0)"
  by (simp add: get_nonce_def)

lemma installed:
  assumes "healthy s" "admits s g"
  shows "\<exists>s'. apply_distribution_current_shard pv g s = Ok s' \<and> t_global_code s' (gcd_id g) = Some (gcd_code g)"
proof -
  have "\<not> gcd_nonce g < (case t_global_nonces s (gcd_id g) of Some x \<Rightarrow> x | None \<Rightarrow> 0)"
    using assms(2) by (auto simp: admits_def split: option.splits)
  then show ?thesis
    using assms(1) by (simp add: apply_distribution_current_shard_def check_and_update_nonce_def get_nonce_healthy)
qed

lemma next_None:
  "next_distribution ids c g = None \<longleftrightarrow> set ids \<subseteq> insert c (set (gcd_delivered g))"
proof -
  have "next_distribution ids c g = None \<longleftrightarrow> filter (\<lambda>sh. sh \<notin> set (delivered_shards c g)) ids = []"
    by (simp add: next_distribution_def split: list.splits)
  then show ?thesis unfolding filter_empty_conv set_delivered_shards by blast
qed

lemma next_Some:
  assumes "next_distribution ids c g = Some g'"
  shows "\<exists>t. t \<in> set ids \<and> t \<notin> insert c (set (gcd_delivered g)) \<and> g' = gcd_forward g t (delivered_shards c g)"
proof -
  obtain t ts where f: "filter (\<lambda>sh. sh \<notin> set (delivered_shards c g)) ids = t # ts"
    and g': "g' = gcd_forward g t (delivered_shards c g)"
    using assms by (auto simp: next_distribution_def split: list.splits)
  have "t \<in> set (filter (\<lambda>sh. sh \<notin> set (delivered_shards c g)) ids)" unfolding f by simp
  then show ?thesis using g' by (intro exI [of _ t]) simp
qed

text \<open>One hop: the shard installs the code and sends at most one receipt on.\<close>

lemma hop:
  assumes ids: "env_shard_ids env = Ok ids" and rc: "r_receipt rc = RGlobalContractDistribution g"
    and s: "healthy (rp_trie ps)" "admits (rp_trie ps) g"
  shows "\<exists>s' out. process_receipt C env st rc ps = Ok (ps \<lparr> rp_trie := s', rp_outgoing := rp_outgoing ps @ out \<rparr>, None)
    \<and> t_global_code s' (gcd_id g) = Some (gcd_code g)
    \<and> (case next_distribution ids (as_shard_id st) g of
         None \<Rightarrow> out = []
       | Some g' \<Rightarrow> \<exists>rc'. out = [rc'] \<and> r_receipt rc' = RGlobalContractDistribution g')"
proof -
  obtain s' where s': "apply_distribution_current_shard (as_protocol_version st) g (rp_trie ps) = Ok s'"
      "t_global_code s' (gcd_id g) = Some (gcd_code g)"
    using installed [OF s] by blast
  have run: "process_receipt C env st rc ps = result_bind (forward_distribution_next_shard C env st rc g (ps \<lparr> rp_trie := s' \<rparr>)) (\<lambda>ps'. Ok (ps', None))"
    using rc s'(1) by (simp add: process_receipt_def apply_global_contract_distribution_receipt_def)
  show ?thesis
  proof (cases "next_distribution ids (as_shard_id st) g")
    case None
    then show ?thesis
      using run s'(2) ids by (intro exI [of _ s'] exI [of _ "[]"]) (simp add: forward_distribution_next_shard_def)
  next
    case (Some g')
    define rc' where "rc' = (new_global_contract_distribution (r_predecessor_id rc) g')
      \<lparr> r_receipt_id := create_receipt_id C st (r_receipt_id rc) 0 \<rparr>"
    have "r_receipt rc' = RGlobalContractDistribution g'" by (simp add: rc'_def new_global_contract_distribution_def)
    then show ?thesis
      using run s'(2) ids Some
      by (intro exI [of _ s'] exI [of _ "[rc']"]) (simp add: forward_distribution_next_shard_def rc'_def Let_def)
  qed
qed

definition undelivered :: "ShardId list \<Rightarrow> GlobalContractDistributionReceipt \<Rightarrow> ShardId set" where
  "undelivered ids g = set ids - set (gcd_delivered g)"

lemma delivery_ends:
  assumes "env_shard_ids env = Ok ids" "r_receipt rc = RGlobalContractDistribution g" "gcd_target g \<in> undelivered ids g"
    "\<forall>sh \<in> undelivered ids g. healthy (rp_trie (w sh)) \<and> admits (rp_trie (w sh)) g"
  shows "\<exists>w'. deliver C env st rc w = Some (Ok w')
    \<and> (\<forall>sh \<in> undelivered ids g. t_global_code (rp_trie (w' sh)) (gcd_id g) = Some (gcd_code g)
          \<and> length (rp_outgoing (w' sh)) \<le> length (rp_outgoing (w sh)) + 1)
    \<and> (\<forall>sh. sh \<notin> undelivered ids g \<longrightarrow> w' sh = w sh)"
  using assms(2-)
proof (induction "card (undelivered ids g)" arbitrary: rc g w rule: less_induct)
  case less
  let ?t = "gcd_target g"
  obtain s' out where run: "process_receipt C env (st \<lparr> as_shard_id := ?t \<rparr>) rc (w ?t)
      = Ok ((w ?t) \<lparr> rp_trie := s', rp_outgoing := rp_outgoing (w ?t) @ out \<rparr>, None)"
    and code: "t_global_code s' (gcd_id g) = Some (gcd_code g)"
    and out: "case next_distribution ids ?t g of None \<Rightarrow> out = []
       | Some g' \<Rightarrow> \<exists>rc'. out = [rc'] \<and> r_receipt rc' = RGlobalContractDistribution g'"
    using hop [OF assms(1) less.prems(1), of "w ?t" C "st \<lparr> as_shard_id := ?t \<rparr>"] less.prems(2,3) by auto
  define w1 where "w1 = w(?t := (w ?t) \<lparr> rp_trie := s', rp_outgoing := rp_outgoing (w ?t) @ out \<rparr>)"
  have step: "deliver C env st rc w = (case out of [] \<Rightarrow> Some (Ok w1) | rc' # _ \<Rightarrow> deliver C env st rc' w1)"
    by (subst deliver.simps) (simp add: less.prems(1) run w1_def Let_def split: list.split)
  show ?case
  proof (cases "next_distribution ids ?t g")
    case None
    then have "undelivered ids g = {?t}" using less.prems(2) by (auto simp: next_None undelivered_def)
    then show ?thesis using step out None code by (simp add: w1_def)
  next
    case (Some g')
    obtain rc' where rc': "out = [rc']" "r_receipt rc' = RGlobalContractDistribution g'" using out Some by auto
    obtain t where t: "t \<in> set ids" "t \<notin> insert ?t (set (gcd_delivered g))" "g' = gcd_forward g t (delivered_shards ?t g)"
      using next_Some [OF Some] by blast
    have u: "undelivered ids g' = undelivered ids g - {?t}" using t(3) by (auto simp: undelivered_def)
    have less': "card (undelivered ids g') < card (undelivered ids g)"
      unfolding u using less.prems(2) by (intro card_Diff1_less) (simp_all add: undelivered_def)
    have "gcd_target g' \<in> undelivered ids g'" using t by (simp add: undelivered_def)
    moreover have "\<forall>sh \<in> undelivered ids g'. healthy (rp_trie (w1 sh)) \<and> admits (rp_trie (w1 sh)) g'"
      using less.prems(3) t(3) unfolding u by (simp add: w1_def)
    ultimately obtain w' where w': "deliver C env st rc' w1 = Some (Ok w')"
      "\<forall>sh \<in> undelivered ids g'. t_global_code (rp_trie (w' sh)) (gcd_id g') = Some (gcd_code g')
         \<and> length (rp_outgoing (w' sh)) \<le> length (rp_outgoing (w1 sh)) + 1"
      "\<forall>sh. sh \<notin> undelivered ids g' \<longrightarrow> w' sh = w1 sh"
      using less.hyps [OF less' rc'(2)] by blast
    have wt: "w' ?t = w1 ?t" using w'(3) u by simp
    have "t_global_code (rp_trie (w' sh)) (gcd_id g) = Some (gcd_code g)
          \<and> length (rp_outgoing (w' sh)) \<le> length (rp_outgoing (w sh)) + 1" if "sh \<in> undelivered ids g" for sh
    proof (cases "sh = ?t")
      case True
      then show ?thesis using wt code rc'(1) by (simp add: w1_def)
    next
      case False
      then have "sh \<in> undelivered ids g'" "w1 sh = w sh" using that u by (simp_all add: w1_def)
      then show ?thesis using w'(2) t(3) by fastforce
    qed
    moreover have "w' sh = w sh" if "sh \<notin> undelivered ids g" for sh
    proof -
      have "sh \<noteq> ?t" "sh \<notin> undelivered ids g'" using that less.prems(2) u by blast+
      then show ?thesis using w'(3) by (simp add: w1_def)
    qed
    moreover have "deliver C env st rc w = Some (Ok w')" using step rc'(1) w'(1) by simp
    ultimately show ?thesis by blast
  qed
qed

section \<open>Properties\<close>

text \<open>C8: A global contract reaches every shard, and the chain of receipts that carries it ends. Start with a
  distribution that no shard has had yet, whose target is a shard of the layout, with every shard's
  stored nonce letting it in. Processing it at its target, then the receipt that shard sends at that receipt's
  target, and so on, terminates without an error. At the end every shard of the layout has the
  distributed code for the contract, has sent at most one receipt for it, and nothing else has changed.\<close>

theorem distribution_reaches_every_shard:
  assumes "env_shard_ids env = Ok ids" "r_receipt rc = RGlobalContractDistribution g"
    "gcd_delivered g = []" "gcd_target g \<in> set ids"
    "\<forall>sh \<in> set ids. healthy (rp_trie (w sh)) \<and> admits (rp_trie (w sh)) g"
  shows "\<exists>w'. deliver C env st rc w = Some (Ok w')
    \<and> (\<forall>sh \<in> set ids. t_global_code (rp_trie (w' sh)) (gcd_id g) = Some (gcd_code g)
          \<and> length (rp_outgoing (w' sh)) \<le> length (rp_outgoing (w sh)) + 1)
    \<and> (\<forall>sh. sh \<notin> set ids \<longrightarrow> w' sh = w sh)"
  using delivery_ends [OF assms(1,2), of w C st] assms(3-5) by (simp add: undelivered_def)

definition d_dist :: GlobalContractDistributionReceipt where
  "d_dist = gcd_new (IdAccountId ''alice'') 2 [] [1, 2, 3] 7 149"

definition d_env :: RuntimeEnv where
  "d_env = l_env \<lparr> env_shard_ids := Ok [5, 2, 9] \<rparr>"

theorem distribution_reaches_every_shard_witness:
  "\<exists>w'. deliver toy_crypto d_env l_state (new_global_contract_distribution ''alice'' d_dist) (\<lambda>_. l_proc) = Some (Ok w')
     \<and> (\<forall>sh \<in> set [5, 2, 9]. t_global_code (rp_trie (w' sh)) (IdAccountId ''alice'') = Some [1, 2, 3])"
proof -
  have g: "gcd_delivered d_dist = []" "gcd_target d_dist = 2" "gcd_id d_dist = IdAccountId ''alice''" "gcd_code d_dist = [1, 2, 3]"
    by (simp_all add: d_dist_def gcd_new_def)
  have "healthy (rp_trie l_proc)" "admits (rp_trie l_proc) d_dist"
    by (simp_all add: l_proc_def w_empty_def healthy_def admits_def set_account_def)
  then show ?thesis
    using distribution_reaches_every_shard [of d_env "[5, 2, 9]" "new_global_contract_distribution ''alice'' d_dist" d_dist
        "\<lambda>_. l_proc" toy_crypto l_state]
    by (auto simp: d_env_def new_global_contract_distribution_def g)
qed

text \<open>C9: The order in which distributions reach a shard does not matter. Under the nonce feature, two
  distributions that are of different contracts, or of the same contract with different nonces, leave a
  shard in the same state whichever is applied first: of two versions of a contract the later one wins
  everywhere, so no shard is left behind by receipts that overtake each other.\<close>

theorem distributions_commute:
  assumes "healthy s" "feature_enabled GlobalContractDistributionNonce pv"
    and "gcd_id g1 = gcd_id g2 \<longrightarrow> gcd_nonce g1 \<noteq> gcd_nonce g2"
  shows "result_bind (apply_distribution_current_shard pv g1 s) (apply_distribution_current_shard pv g2)
    = result_bind (apply_distribution_current_shard pv g2 s) (apply_distribution_current_shard pv g1)"
proof -
  let ?n = "\<lambda>g. case t_global_nonces s (gcd_id g) of Some x \<Rightarrow> x | None \<Rightarrow> 0"
  let ?after = "\<lambda>g s. s \<lparr> t_global_nonces := (t_global_nonces s)(gcd_id g \<mapsto> gcd_nonce g),
     t_global_code := (t_global_code s)(gcd_id g \<mapsto> gcd_code g) \<rparr>"
  have one: "apply_distribution_current_shard pv g u
      = Ok (if gcd_nonce g < (case t_global_nonces u (gcd_id g) of Some x \<Rightarrow> x | None \<Rightarrow> 0) then u else ?after g u)"
    if "healthy u" for g u
    using that assms(2) by (simp add: apply_distribution_current_shard_def check_and_update_nonce_def get_nonce_healthy set_nonce_def)
  have h: "healthy (s \<lparr> t_global_nonces := n, t_global_code := c \<rparr>)" for n c
    using assms(1) by (simp add: healthy_def)
  show ?thesis
  proof (cases "gcd_id g1 = gcd_id g2")
    case True
    then show ?thesis using assms(3) by (auto simp: one h assms(1))
  next
    case False
    then show ?thesis by (simp add: one h assms(1) fun_upd_twist [of "gcd_id g1" "gcd_id g2"])
  qed
qed

theorem distributions_commute_witness:
  "result_bind (apply_distribution_current_shard 149 d_dist w_empty)
       (apply_distribution_current_shard 149 (gcd_new (IdAccountId ''alice'') 2 [] [4] 8 149))
     = result_bind (apply_distribution_current_shard 149 (gcd_new (IdAccountId ''alice'') 2 [] [4] 8 149) w_empty)
       (apply_distribution_current_shard 149 d_dist)
   \<and> is_ok (apply_distribution_current_shard 149 d_dist w_empty)"
proof -
  have f: "feature_enabled GlobalContractDistributionNonce 149" by (simp add: feature_enabled_def)
  have h: "healthy w_empty" by (simp add: healthy_def w_empty_def)
  have "gcd_nonce d_dist \<noteq> gcd_nonce (gcd_new (IdAccountId ''alice'') 2 [] [4] 8 149)"
    using f by (simp add: d_dist_def gcd_new_def)
  moreover have "is_ok (apply_distribution_current_shard 149 d_dist w_empty)"
    using f h by (simp add: apply_distribution_current_shard_def check_and_update_nonce_def get_nonce_healthy)
  ultimately show ?thesis using distributions_commute [OF h f] by blast
qed

end
