(* ===== verification/Trie_Queue.thy ===== *)
theory Trie_Queue
  imports Outcomes
begin

text \<open>
  The persistent queues of receipts that live in the trie: the trait \<open>TrieQueue\<close> of
  \<open>core/store/src/trie/receipts_column_helper.rs\<close> with its default methods, used for delayed
  receipts, outgoing buffers and promise-yield timeouts. A queue is a range of 64-bit
  indices and an item under each of them; a read may fail. The interface its users rely on is a
  double-ended queue, refined by lists.
\<close>

record 'a TrieQueue =
  first_index :: u64
  next_available_index :: u64
  tq_items :: "u64 \<rightharpoonup> 'a"
  tq_fault :: "u64 \<Rightarrow> StorageError option"

section \<open>Operations\<close>

definition tq_get :: "'a TrieQueue \<Rightarrow> u64 \<Rightarrow> ('a, RuntimeError) result" where
  "tq_get q i = (case tq_fault q i of
     Some e \<Rightarrow> Err (RStorageError e)
   | None \<Rightarrow> ok_or (tq_items q i) (RStorageError (StorageInconsistentState ''TrieQueue::Item should be in the state'')))"

definition push_back :: "'a \<Rightarrow> 'a TrieQueue \<Rightarrow> ('a TrieQueue, RuntimeError) result" where
  "push_back item q =
     (let index = next_available_index q in
      result_bind (ok_or (checked_add index 1) overflow_error) (\<lambda>next.
        Ok (q \<lparr> tq_items := (tq_items q)(index \<mapsto> item), next_available_index := next \<rparr>)))"

definition pop_front :: "'a TrieQueue \<Rightarrow> ('a option \<times> 'a TrieQueue, RuntimeError) result" where
  "pop_front q =
     (if next_available_index q \<le> first_index q then Ok (None, q)
      else result_bind (tq_get q (first_index q)) (\<lambda>item.
        Ok (Some item, q \<lparr> tq_items := (tq_items q)(first_index q := None), first_index := first_index q + 1 \<rparr>)))"

definition pop_back :: "'a TrieQueue \<Rightarrow> ('a option \<times> 'a TrieQueue, RuntimeError) result" where
  "pop_back q =
     (if next_available_index q \<le> first_index q then Ok (None, q)
      else (let last_item_index = next_available_index q - 1 in
        result_bind (tq_get q last_item_index) (\<lambda>item.
          Ok (Some item, q \<lparr> tq_items := (tq_items q)(last_item_index := None),
                            next_available_index := last_item_index \<rparr>))))"

text \<open>The closure of \<open>modify_first\<close> may panic, so it returns a result.\<close>

definition modify_first ::
  "('a \<Rightarrow> ('a option, RuntimeError) result) \<Rightarrow> 'a TrieQueue \<Rightarrow> ('a TrieQueue, RuntimeError) result" where
  "modify_first modify_fn q =
     (if next_available_index q \<le> first_index q then Err (RuntimePanic ''TrieQueue::modify_first called on an empty queue!'')
      else result_bind (tq_get q (first_index q)) (\<lambda>first_item.
        result_bind (modify_fn first_item) (\<lambda>modified_item.
        case modified_item of
          Some item \<Rightarrow> Ok (q \<lparr> tq_items := (tq_items q)(first_index q \<mapsto> item) \<rparr>)
        | None \<Rightarrow> result_bind (pop_front q) (\<lambda>(_, q'). Ok q'))))"

definition pop_n :: "u64 \<Rightarrow> 'a TrieQueue \<Rightarrow> u64 \<times> 'a TrieQueue" where
  "pop_n n q =
     (let to_remove = min n (case checked_sub (next_available_index q) (first_index q) of Some l \<Rightarrow> l | None \<Rightarrow> 0);
          items = fold (\<lambda>i m. m(word_of_nat i := None))
            [unat (first_index q)..<unat (first_index q) + unat to_remove] (tq_items q)
      in (to_remove, if 0 < to_remove
            then q \<lparr> tq_items := items, first_index := first_index q + to_remove \<rparr>
            else q \<lparr> tq_items := items \<rparr>))"

definition tq_len :: "'a TrieQueue \<Rightarrow> u64" where
  "tq_len q = next_available_index q - first_index q"

text \<open>What the iterator over a queue yields, item by item; a read may fail.\<close>

definition tq_iter :: "'a TrieQueue \<Rightarrow> ('a, RuntimeError) result list" where
  "tq_iter q = map (\<lambda>i. tq_get q (word_of_nat i)) [unat (first_index q)..<unat (next_available_index q)]"

definition empty_queue :: "'a TrieQueue" where
  "empty_queue = \<lparr> first_index = 0, next_available_index = 0, tq_items = Map.empty, tq_fault = (\<lambda>_. None) \<rparr>"

section \<open>The list a queue stands for\<close>

text \<open>The storage serves every read, the items are those of the range, and nothing is left behind outside of it.\<close>

definition tq_inv :: "'a TrieQueue \<Rightarrow> bool" where
  "tq_inv q \<longleftrightarrow> unat (first_index q) \<le> unat (next_available_index q)
     \<and> (\<forall>i. tq_items q i \<noteq> None \<longleftrightarrow> unat (first_index q) \<le> unat i \<and> unat i < unat (next_available_index q))
     \<and> (\<forall>i. tq_fault q i = None)"

definition tq_list :: "'a TrieQueue \<Rightarrow> 'a list" where
  "tq_list q = map (\<lambda>i. the (tq_items q (word_of_nat i))) [unat (first_index q)..<unat (next_available_index q)]"

lemma tq_list_Nil: "tq_list q = [] \<longleftrightarrow> next_available_index q \<le> first_index q"
  by (auto simp: tq_list_def word_le_nat_alt)

lemma tq_len_list: "tq_inv q \<Longrightarrow> unat (tq_len q) = length (tq_list q)"
  by (simp add: tq_inv_def tq_len_def tq_list_def unat_sub word_le_nat_alt)

lemma tq_get_item:
  assumes "tq_inv q" "unat (first_index q) \<le> unat i" "unat i < unat (next_available_index q)"
  shows "tq_get q i = Ok (the (tq_items q i))"
proof -
  have "tq_items q i \<noteq> None" using assms unfolding tq_inv_def by blast
  then obtain x where "tq_items q i = Some x" by auto
  then show ?thesis using assms(1) by (simp add: tq_get_def tq_inv_def)
qed

lemma tq_iter_list: "tq_inv q \<Longrightarrow> tq_iter q = map Ok (tq_list q)"
proof -
  assume inv: "tq_inv q"
  have "tq_get q (word_of_nat i) = Ok (the (tq_items q (word_of_nat i)))"
    if "unat (first_index q) \<le> i" "i < unat (next_available_index q)" for i
  proof -
    have "unat (word_of_nat i :: u64) = i"
      using that(2) unat_bound [of "next_available_index q"] by (simp add: unat_of_nat take_bit_nat_eq_self)
    then show ?thesis using tq_get_item [OF inv, of "word_of_nat i"] that by simp
  qed
  then show ?thesis by (simp add: tq_iter_def tq_list_def)
qed

lemma tq_list_cong:
  assumes "\<And>i. unat (first_index q) \<le> unat i \<Longrightarrow> unat i < unat (next_available_index q) \<Longrightarrow> items i = tq_items q i"
  shows "map (\<lambda>i. the (items (word_of_nat i))) [unat (first_index q)..<unat (next_available_index q)] = tq_list q"
proof -
  have "unat (word_of_nat i :: u64) = i" if "i < unat (next_available_index q)" for i
    using that unat_bound [of "next_available_index q"] by (simp add: unat_of_nat take_bit_nat_eq_self)
  then show ?thesis by (auto simp: tq_list_def assms)
qed

lemma push_back_list:
  assumes "tq_inv q" "unat (next_available_index q) + 1 < 2 ^ 64"
  shows "\<exists>q'. push_back x q = Ok q' \<and> tq_inv q' \<and> tq_list q' = tq_list q @ [x]
    \<and> unat (next_available_index q') = unat (next_available_index q) + 1"
proof -
  let ?n = "next_available_index q"
  obtain n where n1: "checked_add ?n 1 = Some n" using assms(2) by (simp add: checked_add_def)
  then have "unat n = unat ?n + 1" by (simp add: checked_add_Some)
  note n = n1 this
  define q' where "q' = q \<lparr> tq_items := (tq_items q)(?n \<mapsto> x), next_available_index := n \<rparr>"
  have "tq_inv q'" using assms(1) n(2) by (auto simp: q'_def tq_inv_def word_unat_eq_iff)
  moreover have "tq_list q' = tq_list q @ [x]"
  proof -
    have "tq_list q' = map (\<lambda>i. the (tq_items q' (word_of_nat i))) [unat (first_index q)..<unat ?n] @ [x]"
      using assms(1) n(2) by (simp add: tq_list_def q'_def tq_inv_def)
    also have "\<dots> = tq_list q @ [x]"
      by (subst tq_list_cong) (auto simp: q'_def)
    finally show ?thesis .
  qed
  ultimately show ?thesis using n by (auto simp: push_back_def q'_def)
qed

lemma nonempty_range:
  assumes "\<not> next_available_index q \<le> first_index q"
  shows "unat (first_index q) < unat (next_available_index q)" "unat (first_index q + 1) = unat (first_index q) + 1"
    "unat (next_available_index q - 1) = unat (next_available_index q) - 1"
proof -
  show lt: "unat (first_index q) < unat (next_available_index q)"
    using assms by (simp add: word_le_nat_alt)
  then have "unat (first_index q) + unat (1 :: u64) < 2 ^ LENGTH(64)"
    using unat_bound [of "next_available_index q"] by simp
  then show "unat (first_index q + 1) = unat (first_index q) + 1"
    by (subst unat_add_lem [THEN iffD1]) simp_all
  show "unat (next_available_index q - 1) = unat (next_available_index q) - 1"
    using lt by (subst unat_sub) (simp_all add: word_le_nat_alt)
qed

lemma push_back_cases:
  assumes "tq_inv q"
  shows "case push_back x q of
      Ok q' \<Rightarrow> tq_inv q' \<and> tq_list q' = tq_list q @ [x] \<and> unat (next_available_index q') = unat (next_available_index q) + 1
    | Err _ \<Rightarrow> 2 ^ 64 \<le> unat (next_available_index q) + 1"
proof (cases "unat (next_available_index q) + 1 < 2 ^ 64")
  case True
  then show ?thesis using push_back_list [OF assms True, of x] by auto
next
  case False
  then show ?thesis by (auto simp: push_back_def checked_add_def)
qed

lemma push_back_Ok:
  assumes "tq_inv q" "push_back x q = Ok q'"
  shows "tq_inv q'" "tq_list q' = tq_list q @ [x]"
  using push_back_cases [OF assms(1), of x] assms(2) by auto

lemma pop_front_list:
  assumes "tq_inv q"
  shows "\<exists>q'. pop_front q = Ok (if tq_list q = [] then None else Some (hd (tq_list q)), q')
    \<and> tq_inv q' \<and> tq_list q' = tl (tq_list q) \<and> next_available_index q' = next_available_index q"
proof (cases "next_available_index q \<le> first_index q")
  case True
  then show ?thesis using assms tq_list_Nil [of q] by (simp add: pop_front_def)
next
  case False
  note r = nonempty_range [OF this]
  let ?f = "first_index q"
  define q' where "q' = q \<lparr> tq_items := (tq_items q)(?f := None), first_index := ?f + 1 \<rparr>"
  have "tq_get q ?f = Ok (the (tq_items q ?f))" by (rule tq_get_item [OF assms]) (use r in simp_all)
  then have p: "pop_front q = Ok (Some (the (tq_items q ?f)), q')"
    using False by (simp add: pop_front_def q'_def)
  have cons: "tq_list q = the (tq_items q ?f) # map (\<lambda>i. the (tq_items q (word_of_nat i))) [unat ?f + 1..<unat (next_available_index q)]"
    using r(1) by (simp add: tq_list_def upt_conv_Cons)
  have inv: "tq_inv q'" using assms r by (auto simp: q'_def tq_inv_def word_unat_eq_iff)
  have "tq_list q' = map (\<lambda>i. the (tq_items q (word_of_nat i))) [unat ?f + 1..<unat (next_available_index q)]"
    using tq_list_cong [of q' "tq_items q"] r by (simp add: q'_def word_unat_eq_iff)
  then show ?thesis using p inv cons by (simp add: q'_def)
qed

lemma pop_back_list:
  assumes "tq_inv q"
  shows "\<exists>q'. pop_back q = Ok (if tq_list q = [] then None else Some (last (tq_list q)), q')
    \<and> tq_inv q' \<and> tq_list q' = butlast (tq_list q)
    \<and> unat (next_available_index q') = unat (next_available_index q) - (if tq_list q = [] then 0 else 1)"
proof (cases "next_available_index q \<le> first_index q")
  case True
  then show ?thesis using assms tq_list_Nil [of q] by (simp add: pop_back_def)
next
  case False
  note r = nonempty_range [OF this]
  let ?l = "next_available_index q - 1"
  define q' where "q' = q \<lparr> tq_items := (tq_items q)(?l := None), next_available_index := ?l \<rparr>"
  have "tq_get q ?l = Ok (the (tq_items q ?l))" by (rule tq_get_item [OF assms]) (use r in simp_all)
  then have p: "pop_back q = Ok (Some (the (tq_items q ?l)), q')"
    using False by (simp add: pop_back_def q'_def Let_def)
  have n: "unat (next_available_index q) = Suc (unat ?l)" "unat (first_index q) \<le> unat ?l" using r by simp_all
  have l: "word_of_nat (unat ?l) = ?l" by simp
  have snoc: "tq_list q = map (\<lambda>i. the (tq_items q (word_of_nat i))) [unat (first_index q)..<unat ?l] @ [the (tq_items q ?l)]"
    unfolding tq_list_def n(1) using n(2) l by simp
  have inv: "tq_inv q'" using assms r by (auto simp: q'_def tq_inv_def word_unat_eq_iff)
  have "tq_list q' = map (\<lambda>i. the (tq_items q (word_of_nat i))) [unat (first_index q)..<unat ?l]"
    using tq_list_cong [of q' "tq_items q"] r by (simp add: q'_def word_unat_eq_iff)
  then show ?thesis using p inv snoc r by (simp add: q'_def)
qed

lemma cleared_items:
  "fold (\<lambda>i m. m(word_of_nat i := None)) is items j = (if j \<in> word_of_nat ` set is then None else items (j :: u64))"
  by (induction "is" arbitrary: items) auto

lemma pop_n_list:
  assumes "tq_inv q" "pop_n n q = (k, q')"
  shows "unat k = min (unat n) (length (tq_list q)) \<and> tq_inv q' \<and> tq_list q' = drop (unat k) (tq_list q)
    \<and> next_available_index q' = next_available_index q"
proof -
  let ?f = "first_index q" and ?n = "next_available_index q"
  have fn: "unat ?f \<le> unat ?n" using assms(1) by (simp add: tq_inv_def)
  then have sub: "checked_sub ?n ?f = Some (?n - ?f)" by (simp add: checked_sub_def word_le_nat_alt)
  have len: "length (tq_list q) = unat ?n - unat ?f" by (simp add: tq_list_def)
  have k: "k = min n (?n - ?f)" using assms(2) sub by (simp add: pop_n_def Let_def)
  have uk: "unat k = min (unat n) (unat ?n - unat ?f)"
    using fn by (simp add: k min_def word_le_nat_alt unat_sub)
  have "unat (?f + k) = unat ?f + unat k"
    using uk fn unat_bound [of ?n] by (subst unat_add_lem [THEN iffD1]) simp_all
  note fk = this
  define items where "items = fold (\<lambda>i m. m(word_of_nat i := None)) [unat ?f..<unat ?f + unat k] (tq_items q)"
  have q': "q' = q \<lparr> tq_items := items, first_index := ?f + k \<rparr>"
    using assms(2) sub k by (auto simp: pop_n_def Let_def items_def word_neq_0_conv [symmetric])
  have items: "items j = (if unat ?f \<le> unat j \<and> unat j < unat ?f + unat k then None else tq_items q j)" for j
  proof -
    have "j \<in> word_of_nat ` {unat ?f..<unat ?f + unat k} \<longleftrightarrow> unat ?f \<le> unat j \<and> unat j < unat ?f + unat k"
    proof
      assume "j \<in> word_of_nat ` {unat ?f..<unat ?f + unat k}"
      then obtain i where i: "j = word_of_nat i" "unat ?f \<le> i" "i < unat ?f + unat k" by auto
      have "i < 2 ^ 64" using i(3) uk fn unat_bound [of ?n] by simp
      then have "unat j = i" using i(1) by (simp add: unat_of_nat take_bit_nat_eq_self)
      then show "unat ?f \<le> unat j \<and> unat j < unat ?f + unat k" using i by simp
    next
      assume "unat ?f \<le> unat j \<and> unat j < unat ?f + unat k"
      then show "j \<in> word_of_nat ` {unat ?f..<unat ?f + unat k}" by (intro image_eqI [of _ _ "unat j"]) simp_all
    qed
    then show ?thesis by (simp add: items_def cleared_items)
  qed
  have inv: "tq_inv q'" using assms(1) uk fn by (auto simp: q' tq_inv_def items fk)
  have "tq_list q' = map (\<lambda>i. the (tq_items q (word_of_nat i))) [unat ?f + unat k..<unat ?n]"
    using tq_list_cong [of q' "tq_items q"] by (simp add: q' fk items)
  also have "\<dots> = drop (unat k) (tq_list q)" by (simp add: tq_list_def drop_map)
  finally show ?thesis using inv uk len by (simp add: q')
qed

lemma modify_first_list:
  assumes "tq_inv q" "tq_list q \<noteq> []" and m: "f (hd (tq_list q)) = Ok r"
  shows "\<exists>q'. modify_first f q = Ok q' \<and> tq_inv q'
    \<and> tq_list q' = (case r of Some x \<Rightarrow> x # tl (tq_list q) | None \<Rightarrow> tl (tq_list q))
    \<and> next_available_index q' = next_available_index q"
proof -
  have ne: "\<not> next_available_index q \<le> first_index q" using assms(2) by (simp add: tq_list_Nil)
  note r = nonempty_range [OF this]
  let ?f = "first_index q"
  have get: "tq_get q ?f = Ok (the (tq_items q ?f))" by (rule tq_get_item [OF assms(1)]) (use r in simp_all)
  have cons: "tq_list q = the (tq_items q ?f) # map (\<lambda>i. the (tq_items q (word_of_nat i))) [unat ?f + 1..<unat (next_available_index q)]"
    using r(1) by (simp add: tq_list_def upt_conv_Cons)
  show ?thesis
  proof (cases r)
    case None
    then show ?thesis using pop_front_list [OF assms(1)] ne get cons m by (auto simp: modify_first_def)
  next
    case (Some x)
    define q' where "q' = q \<lparr> tq_items := (tq_items q)(?f \<mapsto> x) \<rparr>"
    have "tq_list q' = x # map (\<lambda>i. the (tq_items q' (word_of_nat i))) [unat ?f + 1..<unat (next_available_index q)]"
      using r(1) by (simp add: tq_list_def upt_conv_Cons q'_def)
    also have "\<dots> = x # tl (tq_list q)"
      using tq_list_cong [of "q \<lparr> first_index := ?f + 1 \<rparr>" "tq_items q'"] r cons
      by (simp add: q'_def word_unat_eq_iff tq_list_def)
    finally have "tq_list q' = x # tl (tq_list q)" .
    moreover have "tq_inv q'" using assms(1) r by (auto simp: q'_def tq_inv_def word_unat_eq_iff)
    ultimately show ?thesis using ne get Some cons m by (simp add: modify_first_def q'_def)
  qed
qed

section \<open>The interface\<close>

text \<open>
  What the runtime relies on: a queue with some room left takes a receipt at its end and gives
  them back in order.
\<close>

locale fifo =
  fixes inv :: "'q \<Rightarrow> bool" and contents :: "'q \<Rightarrow> 'a list" and room :: "'q \<Rightarrow> nat"
    and push :: "'a \<Rightarrow> 'q \<Rightarrow> ('q, 'e) result" and pop :: "'q \<Rightarrow> ('a option \<times> 'q, 'e) result"
  assumes push_law: "inv q \<Longrightarrow> 0 < room q \<Longrightarrow>
      \<exists>q'. push x q = Ok q' \<and> inv q' \<and> contents q' = contents q @ [x] \<and> Suc (room q') = room q"
    and pop_law: "inv q \<Longrightarrow>
      \<exists>q'. pop q = Ok (if contents q = [] then None else Some (hd (contents q)), q')
        \<and> inv q' \<and> contents q' = tl (contents q) \<and> room q' = room q"
begin

lemma push_Ok:
  assumes "inv q" "0 < room q" "push x q = Ok q'"
  shows "inv q' \<and> contents q' = contents q @ [x] \<and> Suc (room q') = room q"
  using push_law [OF assms(1,2), of x] assms(3) by auto

lemma pop_Some:
  assumes "inv q" "pop q = Ok (Some x, q')"
  shows "inv q' \<and> contents q = x # contents q' \<and> room q' = room q"
  using pop_law [OF assms(1)] assms(2) by (cases "contents q") auto

lemma pop_None: "inv q \<Longrightarrow> pop q = Ok (None, q') \<Longrightarrow> contents q = [] \<and> inv q' \<and> contents q' = []"
  using pop_law [of q] by (auto split: if_splits)

lemma pop_never_fails: "inv q \<Longrightarrow> pop q \<noteq> Err e"
  using pop_law [of q] by auto

end

interpretation tq: fifo tq_inv tq_list "\<lambda>q. 2 ^ 64 - 1 - unat (next_available_index q)" push_back pop_front
proof
  fix q :: "'a TrieQueue" and x
  assume "tq_inv q" "0 < 2 ^ 64 - 1 - unat (next_available_index q)"
  then show "\<exists>q'. push_back x q = Ok q' \<and> tq_inv q' \<and> tq_list q' = tq_list q @ [x]
      \<and> Suc (2 ^ 64 - 1 - unat (next_available_index q')) = 2 ^ 64 - 1 - unat (next_available_index q)"
    using push_back_list [of q x] by force
next
  fix q :: "'a TrieQueue"
  assume "tq_inv q"
  then show "\<exists>q'. pop_front q = Ok (if tq_list q = [] then None else Some (hd (tq_list q)), q') \<and> tq_inv q'
      \<and> tq_list q' = tl (tq_list q) \<and> 2 ^ 64 - 1 - unat (next_available_index q') = 2 ^ 64 - 1 - unat (next_available_index q)"
    using pop_front_list [of q] by force
qed

section \<open>Property\<close>

text \<open>A client's calls, and what they do on a list. \<open>modify_first\<close> panics on an empty queue and when its closure does.\<close>

datatype 'a queue_op = PushBack 'a | PopFront | PopBack | ModifyFirst "'a \<Rightarrow> ('a option, RuntimeError) result" | PopN u64

fun queue_step :: "'a queue_op \<Rightarrow> 'a TrieQueue \<Rightarrow> ('a option \<times> 'a TrieQueue, RuntimeError) result" where
  "queue_step (PushBack x) q = result_bind (push_back x q) (\<lambda>q'. Ok (None, q'))"
| "queue_step PopFront q = pop_front q"
| "queue_step PopBack q = pop_back q"
| "queue_step (ModifyFirst f) q = result_bind (modify_first f q) (\<lambda>q'. Ok (None, q'))"
| "queue_step (PopN n) q = Ok (None, snd (pop_n n q))"

fun queue_run :: "'a queue_op list \<Rightarrow> 'a TrieQueue \<Rightarrow> ('a option list \<times> 'a TrieQueue, RuntimeError) result" where
  "queue_run [] q = Ok ([], q)"
| "queue_run (p # ps) q = result_bind (queue_step p q) (\<lambda>(r, q'). result_bind (queue_run ps q') (\<lambda>(rs, q''). Ok (r # rs, q'')))"

fun list_step :: "'a queue_op \<Rightarrow> 'a list \<Rightarrow> ('a option \<times> 'a list) option" where
  "list_step (PushBack x) xs = Some (None, xs @ [x])"
| "list_step PopFront xs = Some (if xs = [] then None else Some (hd xs), tl xs)"
| "list_step PopBack xs = Some (if xs = [] then None else Some (last xs), butlast xs)"
| "list_step (ModifyFirst f) xs =
     (if xs = [] then None else
      (case f (hd xs) of
         Ok (Some x) \<Rightarrow> Some (None, x # tl xs)
       | Ok None \<Rightarrow> Some (None, tl xs)
       | Err _ \<Rightarrow> None))"
| "list_step (PopN n) xs = Some (None, drop (unat n) xs)"

fun list_run :: "'a queue_op list \<Rightarrow> 'a list \<Rightarrow> ('a option list \<times> 'a list) option" where
  "list_run [] xs = Some ([], xs)"
| "list_run (p # ps) xs = Option.bind (list_step p xs) (\<lambda>(r, xs'). Option.bind (list_run ps xs') (\<lambda>(rs, ys). Some (r # rs, ys)))"

lemma queue_step_refines:
  assumes "tq_inv q" "list_step p (tq_list q) = Some (r, xs)" "unat (next_available_index q) + 1 < 2 ^ 64"
  shows "\<exists>q'. queue_step p q = Ok (r, q') \<and> tq_inv q' \<and> tq_list q' = xs
    \<and> unat (next_available_index q') \<le> unat (next_available_index q) + 1"
proof (cases p)
  case (PushBack x)
  then show ?thesis using push_back_list [OF assms(1,3), of x] assms(2) by auto
next
  case PopFront
  then show ?thesis using pop_front_list [OF assms(1)] assms(2) by auto
next
  case PopBack
  then show ?thesis using pop_back_list [OF assms(1)] assms(2) by fastforce
next
  case (ModifyFirst f)
  then have ne: "tq_list q \<noteq> []" using assms(2) by (auto split: if_splits)
  then obtain m where m: "f (hd (tq_list q)) = Ok m" using ModifyFirst assms(2) by (auto split: result.splits)
  then show ?thesis
    using modify_first_list [of q f, OF assms(1) ne m] ModifyFirst assms(2) ne by (auto split: option.splits)
next
  case (PopN n)
  obtain k q' where "pop_n n q = (k, q')" by fastforce
  then show ?thesis using pop_n_list [OF assms(1)] PopN assms(2) by (auto simp: min_def)
qed



end
