(* ===== verification/Outgoing_Metadata.thy ===== *)
theory Outgoing_Metadata
  imports Trie_Queue
begin

text \<open>
  What a shard remembers of the receipts in its outgoing buffers: \<open>core/store/src/trie/outgoing_metadata.rs\<close>.
  Consecutive receipts are summed up in groups, kept in a queue of their own in the trie; a bandwidth
  request is made from the sizes of the groups. The arithmetic panics on overflow, so panics are
  error values here, and the property below shows there are none.
\<close>

section \<open>Groups\<close>

record ReceiptGroup =
  rg_size :: u64
  rg_gas :: u128

definition new_group :: "u64 \<Rightarrow> Gas \<Rightarrow> ReceiptGroup" where
  "new_group receipt_size receipt_gas = \<lparr> rg_size = receipt_size, rg_gas = ucast receipt_gas \<rparr>"

definition add_size_checked :: "u64 \<Rightarrow> u64 \<Rightarrow> (u64, RuntimeError) result" where
  "add_size_checked t delta = ok_or (checked_add t delta) (RuntimePanic ''add_size_checked'')"

definition subtract_size_checked :: "u64 \<Rightarrow> u64 \<Rightarrow> (u64, RuntimeError) result" where
  "subtract_size_checked t delta = ok_or (checked_sub t delta) (RuntimePanic ''subtract_size_checked'')"

definition add_gas_checked :: "u128 \<Rightarrow> Gas \<Rightarrow> (u128, RuntimeError) result" where
  "add_gas_checked t delta = ok_or (checked_add t (ucast delta)) (RuntimePanic ''add_gas_checked'')"

definition subtract_gas_checked :: "u128 \<Rightarrow> Gas \<Rightarrow> (u128, RuntimeError) result" where
  "subtract_gas_checked t delta = ok_or (checked_sub t (ucast delta)) (RuntimePanic ''subtract_gas_checked'')"

text \<open>A group of size zero has no receipts left; its gas is asserted to be zero.\<close>

definition group_is_empty :: "ReceiptGroup \<Rightarrow> (bool, RuntimeError) result" where
  "group_is_empty g =
     (if rg_size g = 0 then
        (if rg_gas g = 0 then Ok True else Err (RuntimePanic ''Gas should be zero for an empty group.''))
      else Ok False)"

record ReceiptGroupsConfig =
  size_upper_bound :: u64
  gas_upper_bound :: Gas

definition default_groups_config :: ReceiptGroupsConfig where
  "default_groups_config = \<lparr> size_upper_bound = 100000, gas_upper_bound = - 1 \<rparr>"

definition should_start_new_group ::
  "ReceiptGroupsConfig \<Rightarrow> ReceiptGroup \<Rightarrow> u64 \<Rightarrow> Gas \<Rightarrow> (bool, RuntimeError) result" where
  "should_start_new_group cfg last_group new_receipt_size new_receipt_gas =
     result_bind (add_size_checked (rg_size last_group) new_receipt_size) (\<lambda>group_size.
       if size_upper_bound cfg < group_size then Ok True
       else result_bind (add_gas_checked (rg_gas last_group) new_receipt_gas) (\<lambda>group_gas.
         Ok (ucast (gas_upper_bound cfg) < group_gas)))"

section \<open>The queue of groups of one buffer\<close>

record ReceiptGroupsQueue =
  rgq_groups :: "ReceiptGroup TrieQueue"
  total_size :: u64
  total_gas :: u128
  total_receipts_num :: u64

definition new_groups_queue :: ReceiptGroupsQueue where
  "new_groups_queue = \<lparr> rgq_groups = empty_queue, total_size = 0, total_gas = 0, total_receipts_num = 0 \<rparr>"

definition groups_pushed ::
  "ReceiptGroupsConfig \<Rightarrow> u64 \<Rightarrow> Gas \<Rightarrow> ReceiptGroupsQueue \<Rightarrow> (ReceiptGroupsQueue, RuntimeError) result" where
  "groups_pushed cfg receipt_size receipt_gas q =
     result_bind (add_size_checked (total_size q) receipt_size) (\<lambda>tsize.
     result_bind (add_gas_checked (total_gas q) receipt_gas) (\<lambda>tgas.
     result_bind (ok_or (checked_add (total_receipts_num q) 1) (RuntimePanic ''Number of receipts'')) (\<lambda>num.
     result_bind (pop_back (rgq_groups q)) (\<lambda>(back, gq).
     result_bind
       (case back of
          Some last_group \<Rightarrow>
            result_bind (should_start_new_group cfg last_group receipt_size receipt_gas) (\<lambda>start_new.
              if start_new then
                result_bind (push_back last_group gq) (\<lambda>gq'. push_back (new_group receipt_size receipt_gas) gq')
              else
                result_bind (add_size_checked (rg_size last_group) receipt_size) (\<lambda>gs.
                result_bind (add_gas_checked (rg_gas last_group) receipt_gas) (\<lambda>gg.
                  push_back \<lparr> rg_size = gs, rg_gas = gg \<rparr> gq)))
        | None \<Rightarrow> push_back (new_group receipt_size receipt_gas) gq) (\<lambda>groups.
       Ok \<lparr> rgq_groups = groups, total_size = tsize, total_gas = tgas, total_receipts_num = num \<rparr>)))))"

definition group_without :: "u64 \<Rightarrow> Gas \<Rightarrow> ReceiptGroup \<Rightarrow> (ReceiptGroup option, RuntimeError) result" where
  "group_without receipt_size receipt_gas first_group =
     result_bind (subtract_size_checked (rg_size first_group) receipt_size) (\<lambda>gs.
     result_bind (subtract_gas_checked (rg_gas first_group) receipt_gas) (\<lambda>gg.
     result_bind (group_is_empty \<lparr> rg_size = gs, rg_gas = gg \<rparr>) (\<lambda>empty.
       Ok (if empty then None else Some \<lparr> rg_size = gs, rg_gas = gg \<rparr>))))"

definition groups_popped ::
  "u64 \<Rightarrow> Gas \<Rightarrow> ReceiptGroupsQueue \<Rightarrow> (ReceiptGroupsQueue, RuntimeError) result" where
  "groups_popped receipt_size receipt_gas q =
     result_bind (subtract_size_checked (total_size q) receipt_size) (\<lambda>tsize.
     result_bind (subtract_gas_checked (total_gas q) receipt_gas) (\<lambda>tgas.
     result_bind (ok_or (checked_sub (total_receipts_num q) 1) (RuntimePanic ''More receipts were popped than pushed'')) (\<lambda>num.
     if tq_len (rgq_groups q) = 0 then Err (RuntimePanic ''No receipt groups to pop from!'')
     else result_bind (modify_first (group_without receipt_size receipt_gas) (rgq_groups q)) (\<lambda>groups.
       Ok \<lparr> rgq_groups = groups, total_size = tsize, total_gas = tgas, total_receipts_num = num \<rparr>))))"

section \<open>All buffers\<close>

record OutgoingMetadatas =
  metadatas :: "ShardId \<rightharpoonup> ReceiptGroupsQueue"
  groups_config :: ReceiptGroupsConfig

definition metadata_pushed ::
  "ShardId \<Rightarrow> u64 \<Rightarrow> Gas \<Rightarrow> OutgoingMetadatas \<Rightarrow> (OutgoingMetadatas, RuntimeError) result" where
  "metadata_pushed shard_id receipt_size receipt_gas om =
     result_bind (groups_pushed (groups_config om) receipt_size receipt_gas
         (case metadatas om shard_id of Some q \<Rightarrow> q | None \<Rightarrow> new_groups_queue)) (\<lambda>q.
       Ok (om \<lparr> metadatas := (metadatas om)(shard_id \<mapsto> q) \<rparr>))"

definition metadata_popped ::
  "ShardId \<Rightarrow> u64 \<Rightarrow> Gas \<Rightarrow> OutgoingMetadatas \<Rightarrow> (OutgoingMetadatas, RuntimeError) result" where
  "metadata_popped shard_id receipt_size receipt_gas om =
     (case metadatas om shard_id of
        None \<Rightarrow> Err (RuntimePanic ''Metadata for this shard should have been created when a receipt was pushed.'')
      | Some q \<Rightarrow>
          result_bind (groups_popped receipt_size receipt_gas q) (\<lambda>q'.
            Ok (om \<lparr> metadatas := (metadatas om)(shard_id \<mapsto> q') \<rparr>)))"

section \<open>What the groups stand for\<close>

text \<open>A receipt counts by its size and gas. The sums are natural numbers, so they do not wrap.\<close>

type_synonym sized = "u64 \<times> Gas"

definition sizes :: "sized list \<Rightarrow> nat" where
  "sizes rs = (\<Sum>r \<leftarrow> rs. unat (fst r))"

definition gases :: "sized list \<Rightarrow> nat" where
  "gases rs = (\<Sum>r \<leftarrow> rs. unat (snd r))"

lemma sums_simps [simp]:
  "sizes [] = 0" "sizes (r # rs) = unat (fst r) + sizes rs" "sizes (rs @ ss) = sizes rs + sizes ss"
  "gases [] = 0" "gases (r # rs) = unat (snd r) + gases rs" "gases (rs @ ss) = gases rs + gases ss"
  by (simp_all add: sizes_def gases_def)

definition sums_up :: "ReceiptGroup \<Rightarrow> sized list \<Rightarrow> bool" where
  "sums_up g rs \<longleftrightarrow> unat (rg_size g) = sizes rs \<and> unat (rg_gas g) = gases rs"

text \<open>A group holds one receipt, or several that stay within the bounds.\<close>

definition bounded_group :: "ReceiptGroupsConfig \<Rightarrow> sized list \<Rightarrow> bool" where
  "bounded_group cfg rs \<longleftrightarrow> rs \<noteq> [] \<and> (length rs = 1
     \<or> sizes rs \<le> unat (size_upper_bound cfg) \<and> gases rs \<le> unat (gas_upper_bound cfg))"

definition represents :: "ReceiptGroupsConfig \<Rightarrow> sized list \<Rightarrow> ReceiptGroupsQueue \<Rightarrow> bool" where
  "represents cfg rs q \<longleftrightarrow> tq_inv (rgq_groups q)
     \<and> (\<exists>parts. concat parts = rs \<and> list_all (bounded_group cfg) parts \<and> list_all2 sums_up (tq_list (rgq_groups q)) parts)
     \<and> unat (total_size q) = sizes rs \<and> unat (total_gas q) = gases rs \<and> unat (total_receipts_num q) = length rs"

lemma gas_widens [simp]: "unat (ucast g :: u128) = unat (g :: Gas)"
  by (rule unat_ucast_up) simp

lemma checked_add_fits:
  "unat (a :: 'w::len word) + unat b < 2 ^ LENGTH('w) \<Longrightarrow> \<exists>r. checked_add a b = Some r \<and> unat r = unat a + unat b"
  by (simp add: checked_add_def unat_add_exact)

lemma checked_sub_fits:
  "unat b \<le> unat (a :: 'w::len word) \<Longrightarrow> \<exists>r. checked_sub a b = Some r \<and> unat r = unat a - unat b"
  by (simp add: checked_sub_def unat_sub_exact word_le_nat_alt)

lemma add_size_Ok: "unat t + unat d < 2 ^ 64 \<Longrightarrow> \<exists>r. add_size_checked t d = Ok r \<and> unat r = unat t + unat d"
  using checked_add_fits [of t d] by (auto simp: add_size_checked_def)

lemma add_gas_Ok: "unat t + unat d < 2 ^ 128 \<Longrightarrow> \<exists>r. add_gas_checked t d = Ok r \<and> unat r = unat t + unat d"
  using checked_add_fits [of t "ucast d"] by (auto simp: add_gas_checked_def)

lemma subtract_size_Ok: "unat d \<le> unat t \<Longrightarrow> \<exists>r. subtract_size_checked t d = Ok r \<and> unat r = unat t - unat d"
  using checked_sub_fits [of d t] by (auto simp: subtract_size_checked_def)

lemma subtract_gas_Ok: "unat d \<le> unat t \<Longrightarrow> \<exists>r. subtract_gas_checked t d = Ok r \<and> unat r = unat t - unat d"
  using checked_sub_fits [of "ucast d" t] by (auto simp: subtract_gas_checked_def)

lemma gases_bound: "gases rs \<le> length rs * (2 ^ 64 - 1)"
proof (induction rs)
  case (Cons r rs)
  have "unat (snd r) \<le> 2 ^ 64 - 1" using unat_bound [of "snd r"] by simp
  then show ?case using Cons by simp
qed simp

lemma sizes_bound: "\<forall>r \<in> set rs. 0 < fst r \<Longrightarrow> length rs \<le> sizes rs"
proof (induction rs)
  case (Cons r rs)
  then have "0 < unat (fst r)" by (simp add: word_less_nat_alt)
  then show ?case using Cons by simp
qed simp

lemma no_gas_overflow:
  assumes "\<forall>r \<in> set rs. 0 < fst r" "sizes rs < 2 ^ 64 - 1"
  shows "gases rs + unat (g :: Gas) < 2 ^ 128"
proof -
  have "length rs \<le> 2 ^ 64 - 2" using sizes_bound [OF assms(1)] assms(2) by simp
  then have "gases rs \<le> (2 ^ 64 - 2) * (2 ^ 64 - 1)"
    using gases_bound [of rs] by (meson le_trans mult_le_mono1)
  then show ?thesis using unat_bound [of g] by simp
qed

text \<open>The new receipt joins the last group or starts its own.\<close>

definition last_part :: "ReceiptGroupsConfig \<Rightarrow> sized list list \<Rightarrow> sized \<Rightarrow> sized list list" where
  "last_part cfg parts r =
     (if parts = [] \<or> unat (size_upper_bound cfg) < sizes (last parts) + unat (fst r)
         \<or> unat (gas_upper_bound cfg) < gases (last parts) + unat (snd r)
      then parts @ [[r]] else butlast parts @ [last parts @ [r]])"

lemma last_part_ok:
  assumes "list_all (bounded_group cfg) parts"
  shows "concat (last_part cfg parts r) = concat parts @ [r] \<and> list_all (bounded_group cfg) (last_part cfg parts r)"
proof (cases parts rule: rev_cases)
  case (snoc ps p)
  then show ?thesis using assms by (auto simp: last_part_def bounded_group_def)
qed (simp add: last_part_def bounded_group_def)

lemma should_start_Ok:
  assumes "sums_up g p" "sizes p + unat s < 2 ^ 64" "gases p + unat gas < 2 ^ 128"
  shows "should_start_new_group cfg g s gas = Ok (unat (size_upper_bound cfg) < sizes p + unat s
     \<or> unat (gas_upper_bound cfg) < gases p + unat gas)"
proof -
  obtain gs gg where "add_size_checked (rg_size g) s = Ok gs" "unat gs = sizes p + unat s"
    "add_gas_checked (rg_gas g) gas = Ok gg" "unat gg = gases p + unat gas"
    using add_size_Ok [of "rg_size g" s] add_gas_Ok [of "rg_gas g" gas] assms by (auto simp: sums_up_def)
  then show ?thesis by (simp add: should_start_new_group_def word_less_nat_alt)
qed

definition pushed_group_queue ::
  "ReceiptGroupsConfig \<Rightarrow> u64 \<Rightarrow> Gas \<Rightarrow> ReceiptGroup TrieQueue \<Rightarrow> (ReceiptGroup TrieQueue, RuntimeError) result" where
  "pushed_group_queue cfg s g q = result_bind (pop_back q) (\<lambda>(back, gq).
      case back of
          Some last_group \<Rightarrow>
            result_bind (should_start_new_group cfg last_group s g) (\<lambda>start_new.
              if start_new then
                result_bind (push_back last_group gq) (\<lambda>gq'. push_back (new_group s g) gq')
              else
                result_bind (add_size_checked (rg_size last_group) s) (\<lambda>gs.
                result_bind (add_gas_checked (rg_gas last_group) g) (\<lambda>gg.
                  push_back \<lparr> rg_size = gs, rg_gas = gg \<rparr> gq)))
        | None \<Rightarrow> push_back (new_group s g) gq)"

lemma pushed_groups:
  assumes inv: "tq_inv q" and parts: "list_all2 sums_up (tq_list q) parts"
    and fits: "sizes (concat parts) + unat s < 2 ^ 64" "gases (concat parts) + unat g < 2 ^ 128"
  shows "case pushed_group_queue cfg s g q of
      Ok q' \<Rightarrow> tq_inv q' \<and> list_all2 sums_up (tq_list q') (last_part cfg parts (s, g))
        \<and> unat (next_available_index q') \<le> unat (next_available_index q) + 1
    | Err _ \<Rightarrow> 2 ^ 64 \<le> unat (next_available_index q) + 1"
proof -
  have new: "sums_up (new_group s g) [(s, g)]" by (simp add: sums_up_def new_group_def)
  show ?thesis
  proof (cases parts rule: rev_cases)
    case Nil
    then have "tq_list q = []" using parts by simp
    then obtain gq where "pop_back q = Ok (None, gq)" "tq_inv gq" "tq_list gq = []"
        "unat (next_available_index gq) \<le> unat (next_available_index q)"
      using pop_back_list [OF inv] by auto
    then show ?thesis
      using push_back_cases [of gq "new_group s g"] Nil new by (auto simp: pushed_group_queue_def last_part_def split: result.splits)
  next
    case (snoc ps p)
    then obtain gs lg where gl: "tq_list q = gs @ [lg]" "list_all2 sums_up gs ps" "sums_up lg p"
      using parts by (auto simp: list_all2_append2 list_all2_Cons2)
    then obtain gq where pop: "pop_back q = Ok (Some lg, gq)" "tq_inv gq" "tq_list gq = gs"
        "unat (next_available_index gq) + 1 = unat (next_available_index q)"
      using pop_back_list [OF inv] nonempty_range(1) [of q] tq_list_Nil [of q] by auto
    have room: "unat (next_available_index gq) + 1 < 2 ^ 64" using pop(4) unat_bound [of "next_available_index q"] by simp
    have sz: "sizes p + unat s < 2 ^ 64" "gases p + unat g < 2 ^ 128" using fits snoc by auto
    note start = should_start_Ok [OF gl(3) sz, of cfg]
    show ?thesis
    proof (cases "unat (size_upper_bound cfg) < sizes p + unat s \<or> unat (gas_upper_bound cfg) < gases p + unat g")
      case True
      obtain q1 where q1: "push_back lg gq = Ok q1" "tq_inv q1" "tq_list q1 = gs @ [lg]"
          "unat (next_available_index q1) = unat (next_available_index q)"
        using push_back_list [OF pop(2) room, of lg] pop(3,4) by auto
      have "last_part cfg parts (s, g) = ps @ [p, [(s, g)]]" using True snoc by (simp add: last_part_def)
      then show ?thesis using pop(1) start True q1 push_back_cases [OF q1(2), of "new_group s g"] gl new
        by (auto simp: pushed_group_queue_def list_all2_appendI split: result.splits)
    next
      case False
      obtain gs' gg where sums: "add_size_checked (rg_size lg) s = Ok gs'" "add_gas_checked (rg_gas lg) g = Ok gg"
        "sums_up \<lparr> rg_size = gs', rg_gas = gg \<rparr> (p @ [(s, g)])"
        using add_size_Ok [of "rg_size lg" s] add_gas_Ok [of "rg_gas lg" g] sz gl(3) by (auto simp: sums_up_def)
      obtain q1 where q1: "push_back \<lparr> rg_size = gs', rg_gas = gg \<rparr> gq = Ok q1" "tq_inv q1"
          "tq_list q1 = gs @ [\<lparr> rg_size = gs', rg_gas = gg \<rparr>]" "unat (next_available_index q1) = unat (next_available_index q)"
        using push_back_list [OF pop(2) room, of "\<lparr> rg_size = gs', rg_gas = gg \<rparr>"] pop(3,4) by auto
      have "last_part cfg parts (s, g) = ps @ [p @ [(s, g)]]" using False snoc by (simp add: last_part_def)
      then show ?thesis using pop(1) start False q1 sums gl by (simp add: pushed_group_queue_def list_all2_appendI)
    qed
  qed
qed

lemma represents_pushed:
  assumes rep: "represents cfg rs q" and pos: "\<forall>r \<in> set rs. 0 < fst r" "0 < s" and fits: "sizes rs + unat s < 2 ^ 64"
  shows "case groups_pushed cfg s g q of
      Ok q' \<Rightarrow> represents cfg (rs @ [(s, g)]) q'
        \<and> unat (next_available_index (rgq_groups q')) \<le> unat (next_available_index (rgq_groups q)) + 1
    | Err _ \<Rightarrow> 2 ^ 64 \<le> unat (next_available_index (rgq_groups q)) + 1"
proof -
  obtain parts where parts: "concat parts = rs" "list_all (bounded_group cfg) parts"
    "list_all2 sums_up (tq_list (rgq_groups q)) parts"
    and inv: "tq_inv (rgq_groups q)"
    and tot: "unat (total_size q) = sizes rs" "unat (total_gas q) = gases rs" "unat (total_receipts_num q) = length rs"
    using rep by (auto simp: represents_def)
  have s1: "1 \<le> unat s" using pos(2) by (simp add: word_less_nat_alt)
  have gfits: "gases rs + unat g < 2 ^ 128" using no_gas_overflow [OF pos(1)] s1 fits by simp
  obtain ts tg num where t: "add_size_checked (total_size q) s = Ok ts" "unat ts = sizes rs + unat s"
      "add_gas_checked (total_gas q) g = Ok tg" "unat tg = gases rs + unat g"
      "checked_add (total_receipts_num q) 1 = Some num" "unat num = length rs + 1"
    using add_size_Ok [of "total_size q" s] add_gas_Ok [of "total_gas q" g] checked_add_fits [of "total_receipts_num q" 1]
      tot fits gfits sizes_bound [OF pos(1)] s1 by auto
  have push: "groups_pushed cfg s g q = result_bind (pushed_group_queue cfg s g (rgq_groups q)) (\<lambda>gq.
      Ok \<lparr> rgq_groups = gq, total_size = ts, total_gas = tg, total_receipts_num = num \<rparr>)"
    by (cases "pop_back (rgq_groups q)") (auto simp: groups_pushed_def pushed_group_queue_def t)
  have gq: "case pushed_group_queue cfg s g (rgq_groups q) of
      Ok gq \<Rightarrow> tq_inv gq \<and> list_all2 sums_up (tq_list gq) (last_part cfg parts (s, g))
        \<and> unat (next_available_index gq) \<le> unat (next_available_index (rgq_groups q)) + 1
    | Err _ \<Rightarrow> 2 ^ 64 \<le> unat (next_available_index (rgq_groups q)) + 1"
    using pushed_groups [OF inv parts(3), of s g cfg] fits gfits parts(1) by simp
  have "represents cfg (rs @ [(s, g)]) \<lparr> rgq_groups = gq, total_size = ts, total_gas = tg, total_receipts_num = num \<rparr>"
    if "pushed_group_queue cfg s g (rgq_groups q) = Ok gq" for gq
    unfolding represents_def using last_part_ok [OF parts(2), of "(s, g)"] parts(1) assms that gq t
    by (intro conjI exI [of _ "last_part cfg parts (s, g)"]) simp_all
  then show ?thesis using gq push by (cases "pushed_group_queue cfg s g (rgq_groups q)") simp_all
qed

lemma bounded_tl: "bounded_group cfg (r # p) \<Longrightarrow> p \<noteq> [] \<Longrightarrow> bounded_group cfg p"
  by (cases p) (auto simp: bounded_group_def)

lemma group_without_Ok:
  assumes "sums_up g ((s, gas) # p)" "\<forall>r \<in> set p. 0 < fst r"
  shows "\<exists>r. group_without s gas g = Ok r \<and> (case r of None \<Rightarrow> p = [] | Some g' \<Rightarrow> p \<noteq> [] \<and> sums_up g' p)"
proof -
  obtain gs gg where t: "subtract_size_checked (rg_size g) s = Ok gs" "unat gs = sizes p"
      "subtract_gas_checked (rg_gas g) gas = Ok gg" "unat gg = gases p"
    using subtract_size_Ok [of s "rg_size g"] subtract_gas_Ok [of gas "rg_gas g"] assms(1) by (auto simp: sums_up_def)
  have "p \<noteq> [] \<Longrightarrow> 0 < unat gs" using sizes_bound [OF assms(2)] t(2) by (cases p) auto
  moreover have "p = [] \<Longrightarrow> gs = 0 \<and> gg = 0" using t by (simp add: word_unat_eq_iff)
  ultimately show ?thesis
    using t by (cases "p = []") (auto simp: group_without_def group_is_empty_def sums_up_def)
qed

lemma represents_popped:
  assumes rep: "represents cfg ((s, g) # rs) q" and pos: "\<forall>r \<in> set rs. 0 < fst r"
  shows "\<exists>q'. groups_popped s g q = Ok q' \<and> represents cfg rs q'
    \<and> next_available_index (rgq_groups q') = next_available_index (rgq_groups q)"
proof -
  obtain parts where parts: "concat parts = (s, g) # rs" "list_all (bounded_group cfg) parts"
    "list_all2 sums_up (tq_list (rgq_groups q)) parts"
    and inv: "tq_inv (rgq_groups q)"
    and tot: "unat (total_size q) = unat s + sizes rs" "unat (total_gas q) = unat g + gases rs"
      "unat (total_receipts_num q) = length rs + 1"
    using rep by (auto simp: represents_def)
  obtain p ps where p: "parts = ((s, g) # p) # ps" "p @ concat ps = rs"
    using parts(1,2) by (cases parts; cases "hd parts") (auto simp: bounded_group_def)
  then obtain lg gs where gl: "tq_list (rgq_groups q) = lg # gs" "sums_up lg ((s, g) # p)" "list_all2 sums_up gs ps"
    using parts(3) by (auto simp: list_all2_Cons2)
  obtain ts tg num where t: "subtract_size_checked (total_size q) s = Ok ts" "unat ts = sizes rs"
      "subtract_gas_checked (total_gas q) g = Ok tg" "unat tg = gases rs"
      "checked_sub (total_receipts_num q) 1 = Some num" "unat num = length rs"
    using subtract_size_Ok [of s "total_size q"] subtract_gas_Ok [of g "total_gas q"]
      checked_sub_fits [of 1 "total_receipts_num q"] tot by auto
  obtain r where r: "group_without s g lg = Ok r" "case r of None \<Rightarrow> p = [] | Some g' \<Rightarrow> p \<noteq> [] \<and> sums_up g' p"
    using group_without_Ok [OF gl(2)] pos p(2) by auto
  have "tq_list (rgq_groups q) \<noteq> []" "group_without s g (hd (tq_list (rgq_groups q))) = Ok r" using gl r(1) by simp_all
  from modify_first_list [of "rgq_groups q" "group_without s g", OF inv this] obtain gq
    where gq: "modify_first (group_without s g) (rgq_groups q) = Ok gq" "tq_inv gq"
      "tq_list gq = (case r of Some x \<Rightarrow> x # gs | None \<Rightarrow> gs)"
      "next_available_index gq = next_available_index (rgq_groups q)"
    unfolding gl(1) list.sel by blast
  define q' where "q' = \<lparr> rgq_groups = gq, total_size = ts, total_gas = tg, total_receipts_num = num \<rparr>"
  have "tq_len (rgq_groups q) \<noteq> 0" using tq_len_list [OF inv] gl(1) by auto
  then have "groups_popped s g q = Ok q'" by (simp add: groups_popped_def t gq(1) q'_def)
  moreover have "represents cfg rs q'"
  proof (cases r)
    case None
    then show ?thesis unfolding represents_def using r(2) gq(2,3) gl(3) p parts(2) t
      by (intro conjI exI [of _ ps]) (simp_all add: q'_def)
  next
    case (Some x)
    have "bounded_group cfg p" using bounded_tl [of cfg "(s, g)" p] parts(2) p(1) r(2) Some by simp
    then show ?thesis unfolding represents_def using Some r(2) gq(2,3) gl(3) p parts(2) t
      by (intro conjI exI [of _ "p # ps"]) (simp_all add: q'_def)
  qed
  ultimately show ?thesis using gq(4) by (auto simp: q'_def)
qed

section \<open>Property\<close>

text \<open>The buffer of one shard as the sink drives it: receipts enter at the end and leave from the front.\<close>

datatype buffer_op = Buffered u64 Gas | Released

fun buffer_run ::
  "ReceiptGroupsConfig \<Rightarrow> buffer_op list \<Rightarrow> sized list \<Rightarrow> ReceiptGroupsQueue
     \<Rightarrow> (sized list \<times> ReceiptGroupsQueue, RuntimeError) result" where
  "buffer_run cfg [] rs q = Ok (rs, q)"
| "buffer_run cfg (Buffered s g # ops) rs q = result_bind (groups_pushed cfg s g q) (buffer_run cfg ops (rs @ [(s, g)]))"
| "buffer_run cfg (Released # ops) [] q = buffer_run cfg ops [] q"
| "buffer_run cfg (Released # ops) (r # rs) q = result_bind (groups_popped (fst r) (snd r) q) (buffer_run cfg ops rs)"

fun positive_op :: "buffer_op \<Rightarrow> bool" where
  "positive_op (Buffered s g) \<longleftrightarrow> 0 < s"
| "positive_op Released \<longleftrightarrow> True"

fun buffered_size :: "buffer_op list \<Rightarrow> nat" where
  "buffered_size [] = 0"
| "buffered_size (Buffered s g # ops) = unat s + buffered_size ops"
| "buffered_size (Released # ops) = buffered_size ops"

lemma buffer_run_represents:
  assumes "represents cfg rs q" "\<forall>r \<in> set rs. 0 < fst r" "\<forall>p \<in> set ops. positive_op p"
    and "sizes rs + buffered_size ops < 2 ^ 64" "unat (next_available_index (rgq_groups q)) + length ops < 2 ^ 64"
  shows "\<exists>rs' q'. buffer_run cfg ops rs q = Ok (rs', q') \<and> represents cfg rs' q'"
  using assms
proof (induction cfg ops rs q rule: buffer_run.induct)
  case (2 cfg s g ops rs q)
  obtain q' where q': "groups_pushed cfg s g q = Ok q'" "represents cfg (rs @ [(s, g)]) q'"
    "unat (next_available_index (rgq_groups q')) \<le> unat (next_available_index (rgq_groups q)) + 1"
    using represents_pushed [of cfg rs q s g] "2.prems" by (auto split: result.split_asm)
  then show ?case using "2.IH" [of q'] "2.prems" by auto
next
  case (3 cfg ops q)
  then show ?case by auto
next
  case (4 cfg ops r rs q)
  obtain q' where q': "groups_popped (fst r) (snd r) q = Ok q'" "represents cfg rs q'"
    "next_available_index (rgq_groups q') = next_available_index (rgq_groups q)"
    using represents_popped [of cfg "fst r" "snd r" rs q] "4.prems" by auto
  then show ?case using "4.IH" [of q'] "4.prems" by auto
qed auto

lemma represents_new: "represents cfg [] new_groups_queue"
proof -
  have "tq_inv (empty_queue :: ReceiptGroup TrieQueue)" "tq_list (empty_queue :: ReceiptGroup TrieQueue) = []"
    by (simp_all add: tq_inv_def tq_list_def empty_queue_def)
  then show ?thesis by (simp add: represents_def new_groups_queue_def)
qed

lemma represents_bounds:
  assumes "represents cfg rs q" "grp \<in> set (tq_list (rgq_groups q))"
  shows "unat (rg_size grp) \<le> unat (size_upper_bound cfg) \<or> (\<exists>r \<in> set rs. rg_size grp = fst r)"
proof -
  obtain parts where parts: "concat parts = rs" "list_all (bounded_group cfg) parts"
    "list_all2 sums_up (tq_list (rgq_groups q)) parts"
    using assms(1) by (auto simp: represents_def)
  obtain i where i: "i < length (tq_list (rgq_groups q))" "grp = tq_list (rgq_groups q) ! i"
    using assms(2) by (auto simp: in_set_conv_nth)
  obtain p where p: "p \<in> set parts" "sums_up grp p"
    using i parts(3) by (intro that [of "parts ! i"]) (simp_all add: list_all2_conv_all_nth)
  then have "bounded_group cfg p" "set p \<subseteq> set rs" using parts(1,2) by (auto simp: list_all_iff)
  then show ?thesis using p(2) by (cases p) (fastforce simp: bounded_group_def sums_up_def word_unat_eq_iff)+
qed



end
