(* ===== verification/Shard_Layout.thy ===== *)
theory Shard_Layout
  imports Outcomes Receipts BTree_Map "HOL-Library.Multiset"
begin

text \<open>
  Which shard an account lives on: \<open>ShardLayoutV2\<close> of \<open>core/primitives/src/shard_layout/v2.rs\<close>, the routing of
  receipts (\<open>Receipt::receiver_shard_id\<close>), and resharding, which splits one shard in two at a
  new boundary account. The assertions of the code are error values.
\<close>

section \<open>Layout\<close>

record ShardLayoutV2 =
  boundary_accounts :: "AccountId list"
  shard_ids :: "ShardId list"
  id_to_index_map :: "(ShardId, nat) btree"
  shards_split_map :: "(ShardId, ShardId list) btree option"
  shards_parent_map :: "(ShardId, ShardId) btree option"

fun insert_children ::
  "ShardId \<Rightarrow> ShardId list \<Rightarrow> (ShardId, ShardId) btree \<Rightarrow> ((ShardId, ShardId) btree, RuntimeError) result" where
  "insert_children parent [] m = Ok m"
| "insert_children parent (c # cs) m =
     (if bt_contains m c then Err (RuntimePanic ''no shard should appear in the map twice'')
      else insert_children parent cs (bt_insert c parent m))"

text \<open>A shard that is not split keeps its id, and the id of one that is split is no longer used.\<close>

fun derive_parents ::
  "ShardId list \<Rightarrow> (ShardId, ShardId list) btree \<Rightarrow> (ShardId, ShardId) btree
     \<Rightarrow> ((ShardId, ShardId) btree, RuntimeError) result" where
  "derive_parents ids [] m = Ok m"
| "derive_parents ids ((parent, children) # es) m =
     result_bind (insert_children parent children m) (\<lambda>m'.
       if (case children of [c] \<Rightarrow> parent = c | _ \<Rightarrow> parent \<notin> set ids) then derive_parents ids es m'
       else Err (RuntimePanic ''validate_and_derive_shard_parent_map''))"

definition validate_and_derive_shard_parent_map ::
  "ShardId list \<Rightarrow> (ShardId, ShardId list) btree \<Rightarrow> ((ShardId, ShardId) btree, RuntimeError) result" where
  "validate_and_derive_shard_parent_map ids split_map =
     result_bind (derive_parents ids split_map []) (\<lambda>m.
       if sort ids = map fst m then Ok m else Err (RuntimePanic ''validate_and_derive_shard_parent_map''))"

definition new_layout ::
  "AccountId list \<Rightarrow> ShardId list \<Rightarrow> (ShardId, ShardId list) btree option \<Rightarrow> (ShardLayoutV2, RuntimeError) result" where
  "new_layout boundaries ids split_map =
     (if length boundaries + 1 \<noteq> length ids then Err (RuntimePanic ''boundary_accounts.len'')
      else if boundaries \<noteq> sort boundaries then Err (RuntimePanic ''boundary_accounts sorted'')
      else
        (let index_map = fold (\<lambda>(i, s). bt_insert s i) (enumerate 0 ids) [];
             layout = (\<lambda>parents. \<lparr> boundary_accounts = boundaries, shard_ids = ids, id_to_index_map = index_map,
                         shards_split_map = split_map, shards_parent_map = parents \<rparr>)
         in case split_map of
              None \<Rightarrow> Ok (layout None)
            | Some m \<Rightarrow> result_bind (validate_and_derive_shard_parent_map ids m) (\<lambda>parents. Ok (layout (Some parents)))))"

definition account_id_to_shard_id :: "ShardLayoutV2 \<Rightarrow> AccountId \<Rightarrow> ShardId" where
  "account_id_to_shard_id l account_id =
     shard_ids l ! length (takeWhile (\<lambda>x. x \<le> account_id) (boundary_accounts l))"

definition get_children_shards_ids :: "ShardLayoutV2 \<Rightarrow> ShardId \<Rightarrow> ShardId list option" where
  "get_children_shards_ids l parent = Option.bind (shards_split_map l) (\<lambda>m. bt_get m parent)"

definition try_get_parent_shard_id :: "ShardLayoutV2 \<Rightarrow> ShardId \<Rightarrow> (ShardId option, RuntimeError) result" where
  "try_get_parent_shard_id l s =
     (if s \<notin> set (shard_ids l) then Err (RuntimePanic ''InvalidShardId'')
      else case shards_parent_map l of
        None \<Rightarrow> Ok None
      | Some m \<Rightarrow>
          (case bt_get m s of Some p \<Rightarrow> Ok (Some p) | None \<Rightarrow> Err (RuntimePanic ''to_parent_shard_map'')))"

definition get_shard_index :: "ShardLayoutV2 \<Rightarrow> ShardId \<Rightarrow> nat option" where
  "get_shard_index l s = bt_get (id_to_index_map l) s"

text \<open>Splitting the shard that holds the new boundary account. The two new shards take the next free ids.\<close>

definition derive_layout :: "ShardLayoutV2 \<Rightarrow> AccountId \<Rightarrow> (ShardLayoutV2, RuntimeError) result" where
  "derive_layout base new_boundary_account =
     (if new_boundary_account \<in> set (boundary_accounts base) then Err (RuntimePanic ''duplicated boundary account'')
      else
        (let ids = shard_ids base;
             boundaries = sort (boundary_accounts base @ [new_boundary_account]);
             index = length (takeWhile (\<lambda>x. x \<noteq> new_boundary_account) boundaries)
         in if ids = [] then Err (RuntimePanic ''there should always be at least one shard'')
            else
              result_bind (ok_or (checked_add (Max (set ids)) 1) (RuntimePanic ''max_shard_id'')) (\<lambda>s1.
              result_bind (ok_or (checked_add (Max (set ids)) 2) (RuntimePanic ''max_shard_id'')) (\<lambda>s2.
                if length ids \<le> index then Err (RuntimePanic ''should only splice one shard'')
                else new_layout boundaries (take index ids @ [s1, s2] @ drop (index + 1) ids)
                  (Some (bt_insert (ids ! index) [s1, s2] (fold (\<lambda>s. bt_insert s [s]) ids [])))))))"

section \<open>Routing of receipts\<close>

definition receiver_shard_id :: "ShardLayoutV2 \<Rightarrow> Receipt \<Rightarrow> (ShardId, RuntimeError) result" where
  "receiver_shard_id l receipt =
     (case r_receipt receipt of
        RGlobalContractDistribution g \<Rightarrow>
          (let target = (case g of GcdV1 v \<Rightarrow> gcd1_target_shard v | GcdV2 v \<Rightarrow> gcd2_target_shard v) in
           if target \<in> set (shard_ids l) then Ok target
           else case get_children_shards_ids l target of
             None \<Rightarrow> Err (ValidatorError ''Shard does not exist in the parent shard layout'')
           | Some [] \<Rightarrow> Err (RuntimePanic ''children_shards'')
           | Some (c # _) \<Rightarrow> Ok c)
      | _ \<Rightarrow> Ok (account_id_to_shard_id l (r_receiver_id receipt)))"

section \<open>Well-formed layouts\<close>

definition layout_ok :: "ShardLayoutV2 \<Rightarrow> bool" where
  "layout_ok l \<longleftrightarrow> length (boundary_accounts l) + 1 = length (shard_ids l)
     \<and> sorted (boundary_accounts l) \<and> distinct (shard_ids l)
     \<and> (\<forall>i < length (shard_ids l). get_shard_index l (shard_ids l ! i) = Some i)
     \<and> (case shards_parent_map l of None \<Rightarrow> True | Some m \<Rightarrow> map fst m = sort (shard_ids l))"

lemma index_map_other:
  "s \<notin> set ids \<Longrightarrow> bt_get (fold (\<lambda>(i, s). bt_insert s i) (enumerate n ids) m) s = bt_get m s"
  by (induction ids arbitrary: n m) (auto simp: bt_get_insert)

lemma index_map_nth:
  "distinct ids \<Longrightarrow> i < length ids \<Longrightarrow> bt_get (fold (\<lambda>(i, s). bt_insert s i) (enumerate n ids) m) (ids ! i) = Some (n + i)"
proof (induction ids arbitrary: n m i)
  case (Cons x ids)
  show ?case
  proof (cases i)
    case 0
    then show ?thesis using Cons.prems index_map_other [of x ids] by (simp add: bt_get_insert)
  next
    case (Suc j)
    then show ?thesis using Cons.IH [of j "Suc n"] Cons.prems by simp
  qed
qed simp

lemma insert_children_Ok:
  assumes "bt_inv m" "distinct cs" "\<forall>c \<in> set cs. bt_get m c = None"
  shows "\<exists>m'. insert_children p cs m = Ok m' \<and> bt_inv m' \<and> (\<forall>c. bt_get m' c = (if c \<in> set cs then Some p else bt_get m c))"
  using assms
proof (induction p cs m rule: insert_children.induct)
  case (2 parent c cs m)
  have "\<not> bt_contains m c" using "2.prems"(3) by (simp add: bt_contains_def)
  moreover have "\<forall>d \<in> set cs. bt_get (bt_insert c parent m) d = None" using "2.prems"(2,3) by (auto simp: bt_get_insert)
  moreover obtain m' where "insert_children parent cs (bt_insert c parent m) = Ok m'" "bt_inv m'"
      "\<forall>d. bt_get m' d = (if d \<in> set cs then Some parent else bt_get (bt_insert c parent m) d)"
    using "2.IH" "2.prems"(1,2) calculation by (auto simp: bt_inv_insert)
  ultimately show ?case by (auto simp: bt_get_insert)
qed simp

definition split_entry_ok :: "ShardId list \<Rightarrow> ShardId \<times> ShardId list \<Rightarrow> bool" where
  "split_entry_ok ids e \<longleftrightarrow> (case snd e of [c] \<Rightarrow> fst e = c | _ \<Rightarrow> fst e \<notin> set ids)"

lemma derive_parents_Ok:
  assumes "bt_inv m" "distinct (concat (map snd es))" "\<forall>e \<in> set es. split_entry_ok ids e"
    and "\<forall>c \<in> set (concat (map snd es)). bt_get m c = None"
  shows "\<exists>m'. derive_parents ids es m = Ok m' \<and> bt_inv m'
    \<and> (\<forall>p cs c. (p, cs) \<in> set es \<longrightarrow> c \<in> set cs \<longrightarrow> bt_get m' c = Some p)
    \<and> (\<forall>c. c \<notin> set (concat (map snd es)) \<longrightarrow> bt_get m' c = bt_get m c)"
  using assms
proof (induction ids es m rule: derive_parents.induct)
  case (2 ids parent children es m)
  obtain m1 where m1: "insert_children parent children m = Ok m1" "bt_inv m1"
      "\<forall>c. bt_get m1 c = (if c \<in> set children then Some parent else bt_get m c)"
    using insert_children_Ok [of m children parent] "2.prems" by auto
  have c: "case children of [c] \<Rightarrow> parent = c | _ \<Rightarrow> parent \<notin> set ids"
    using "2.prems"(3) by (simp add: split_entry_ok_def split: list.splits)
  have "\<forall>c \<in> set (concat (map snd es)). bt_get m1 c = None" using m1(3) "2.prems"(2,4) by auto
  then obtain m' where m': "derive_parents ids es m1 = Ok m'" "bt_inv m'"
      "\<forall>p cs c. (p, cs) \<in> set es \<longrightarrow> c \<in> set cs \<longrightarrow> bt_get m' c = Some p"
      "\<forall>c. c \<notin> set (concat (map snd es)) \<longrightarrow> bt_get m' c = bt_get m1 c"
    using "2.IH" [OF c m1(2)] "2.prems"(2,3) by auto
  have "bt_get m' d = Some parent" if "d \<in> set children" for d
  proof -
    have "d \<notin> set (concat (map snd es))" using that "2.prems"(2) by auto
    then show ?thesis using that m'(4) m1(3) by simp
  qed
  then show ?case using m' m1 c by (intro exI [of _ m']) auto
qed simp

text \<open>The boundaries of a sorted list around a new one.\<close>

lemma new_boundary:
  fixes bs :: "'a::linorder list"
  assumes "sorted bs" "b \<notin> set bs"
  obtains L R where "bs = L @ R" "\<forall>x \<in> set L. x < b" "\<forall>x \<in> set R. b < x"
    "sort (bs @ [b]) = L @ b # R" "length (takeWhile (\<lambda>x. x \<noteq> b) (L @ b # R)) = length L"
proof -
  define L R where "L = takeWhile (\<lambda>x. x < b) bs" and "R = dropWhile (\<lambda>x. x < b) bs"
  have bs: "bs = L @ R" by (simp add: L_def R_def)
  have L: "\<forall>x \<in> set L. x < b" by (auto simp: L_def dest: set_takeWhileD)
  have R: "\<forall>x \<in> set R. b < x"
  proof (cases R)
    case (Cons r rs)
    then have "\<not> r < b" using hd_dropWhile [of "\<lambda>x. x < b" bs] by (simp add: R_def)
    moreover have "\<forall>x \<in> set R. r \<le> x" using assms(1) bs Cons by (auto simp: sorted_append)
    ultimately show ?thesis using assms(2) bs by (metis Un_iff antisym_conv3 le_less_trans set_append less_le_not_le linear)
  qed simp
  have "sorted (L @ b # R)" using assms(1) bs L R by (fastforce simp: sorted_append)
  then have "sort (bs @ [b]) = L @ b # R" by (intro properties_for_sort) (simp_all add: bs)
  moreover have "takeWhile (\<lambda>x. x \<noteq> b) (L @ b # R) = L" using L by (subst takeWhile_append2) auto
  ultimately show ?thesis using that bs L R by simp
qed

text \<open>The split map: every shard is its own child but the split one.\<close>

lemma own_children:
  "bt_inv m \<Longrightarrow> bt_inv (fold (\<lambda>s. bt_insert s [s]) ids m)
     \<and> bt_get (fold (\<lambda>s. bt_insert s [s]) ids m) s = (if s \<in> set ids then Some [s] else bt_get m s)"
  by (induction ids arbitrary: m) (auto simp: bt_inv_insert bt_get_insert)

lemma distinct_children:
  assumes "distinct (map fst es)" "\<forall>(k, v) \<in> set es. v = [k] \<or> k = p \<and> v = [s1, s2]"
    and "s1 \<noteq> s2" "s1 \<notin> fst ` set es" "s2 \<notin> fst ` set es"
  shows "distinct (concat (map snd es)) \<and> set (concat (map snd es)) \<subseteq> fst ` set es \<union> (if p \<in> fst ` set es then {s1, s2} else {})"
  using assms
proof (induction es)
  case (Cons e es)
  obtain k v where e: "e = (k, v)" by (cases e)
  have IH: "distinct (concat (map snd es))"
      "set (concat (map snd es)) \<subseteq> fst ` set es \<union> (if p \<in> fst ` set es then {s1, s2} else {})"
    using Cons.IH Cons.prems by simp_all
  have k: "k \<notin> fst ` set es" "k \<noteq> s1" "k \<noteq> s2" "s1 \<notin> fst ` set es" "s2 \<notin> fst ` set es"
    using Cons.prems(1,4,5) e by auto
  consider "v = [k]" | "k = p" "v = [s1, s2]" using Cons.prems(2) e by auto
  then show ?case
  proof cases
    case 1
    have "k \<notin> fst ` set es \<union> (if p \<in> fst ` set es then {s1, s2} else {})" using k by simp
    then have "k \<notin> set (concat (map snd es))" using IH(2) by (rule contra_subsetD [rotated])
    moreover have "fst ` set es \<union> (if p \<in> fst ` set es then {s1, s2} else {})
        \<subseteq> fst ` set (e # es) \<union> (if p \<in> fst ` set (e # es) then {s1, s2} else {})"
      using e by (simp add: subset_iff)
    ultimately show ?thesis using 1 e IH(1) order_trans [OF IH(2)] by (simp del: set_concat)
  next
    case 2
    then have "set (concat (map snd es)) \<subseteq> fst ` set es" using IH(2) k(1) by simp
    then show ?thesis using 2 e IH(1) k Cons.prems(3) by (auto simp del: set_concat)
  qed
qed simp

lemma keys_of_get: "bt_inv m \<Longrightarrow> set (map fst m) = {k. bt_get m k \<noteq> None}"
  using bt.entries_iff [of m] by (auto simp: image_iff) force

lemma derived_parents:
  assumes ids: "distinct ids" "p \<in> set ids" and fresh: "s1 \<noteq> s2" "s1 \<notin> set ids" "s2 \<notin> set ids"
    and ids': "distinct ids'" "set ids' = set ids - {p} \<union> {s1, s2}"
  shows "\<exists>m. validate_and_derive_shard_parent_map ids' (bt_insert p [s1, s2] (fold (\<lambda>s. bt_insert s [s]) ids [])) = Ok m
    \<and> map fst m = sort ids' \<and> (\<forall>s \<in> set ids'. bt_get m s = Some (if s = s1 \<or> s = s2 then p else s))"
proof -
  define sm where "sm = bt_insert p [s1, s2] (fold (\<lambda>s. bt_insert s [s]) ids [])"
  have e: "bt_inv ([] :: (ShardId, ShardId list) btree)" by (simp add: bt_inv_def)
  have inv: "bt_inv sm" unfolding sm_def by (intro bt_inv_insert) (simp add: own_children [OF e])
  have get: "bt_get sm s = (if s = p then Some [s1, s2] else if s \<in> set ids then Some [s] else None)" for s
    by (simp add: sm_def bt_get_insert own_children [OF e])
  have ents: "(k, v) \<in> set sm \<longleftrightarrow> k \<in> set ids \<and> v = (if k = p then [s1, s2] else [k])" for k v
    using bt.entries_iff [OF inv] ids(2) by (auto simp: get)
  have keys: "fst ` set sm = set ids" using keys_of_get [OF inv] get ids(2) by (auto split: if_splits)
  have "distinct (map fst sm)" using inv by (simp add: bt_inv_def strict_sorted_iff)
  moreover have "\<forall>(k, v) \<in> set sm. v = [k] \<or> k = p \<and> v = [s1, s2]" using ents by (auto split: if_splits)
  ultimately have dist: "distinct (concat (map snd sm))"
    using distinct_children [of sm p s1 s2] fresh keys by simp
  have ok: "\<forall>e \<in> set sm. split_entry_ok ids' e" using ents ids'(2) fresh by (auto simp: split_entry_ok_def)
  obtain m where m: "derive_parents ids' sm [] = Ok m" "bt_inv m" "\<forall>p cs c. (p, cs) \<in> set sm \<longrightarrow> c \<in> set cs \<longrightarrow> bt_get m c = Some p"
      "\<forall>c. c \<notin> set (concat (map snd sm)) \<longrightarrow> bt_get m c = None"
    using derive_parents_Ok [OF _ dist ok, of "[]"] by (auto simp: bt_inv_def)
  have children: "set (concat (map snd sm)) = set ids'"
  proof -
    have "set sm = (\<lambda>k. (k, if k = p then [s1, s2] else [k])) ` set ids" using ents by auto
    then have "set (concat (map snd sm)) = (\<Union>k \<in> set ids. set (if k = p then [s1, s2] else [k]))" by simp
    then show ?thesis using ids(2) ids'(2) by (auto split: if_splits)
  qed
  have parent: "bt_get m s = Some (if s = s1 \<or> s = s2 then p else s)" if "s \<in> set ids'" for s
  proof (cases "s = s1 \<or> s = s2")
    case True
    have "(p, [s1, s2]) \<in> set sm" using ents ids(2) by simp
    then show ?thesis using m(3) [rule_format, of p "[s1, s2]" s] True by simp
  next
    case False
    then have "(s, [s]) \<in> set sm" using ents that ids'(2) by auto
    then show ?thesis using m(3) [rule_format, of s "[s]" s] False by simp
  qed
  have "set (map fst m) = set ids'" using keys_of_get [OF m(2)] parent m(4) children by (auto split: if_splits)
  then have "map fst m = sort ids'"
    using m(2) ids'(1) by (intro sorted_distinct_set_unique) (auto simp: bt_inv_def strict_sorted_iff)
  then show ?thesis
    unfolding sm_def [symmetric] using m(1) parent by (simp add: validate_and_derive_shard_parent_map_def)
qed

text \<open>Where an account lives before and after the split.\<close>

lemma routing_split:
  fixes a b :: "'a::linorder"
  assumes "\<forall>x \<in> set L. x < b" "\<forall>x \<in> set R. b < x" "length I = length L" "length J = length R"
  shows "(I @ [s1, s2] @ J) ! length (takeWhile (\<lambda>x. x \<le> a) (L @ b # R))
    = (let i = length (takeWhile (\<lambda>x. x \<le> a) (L @ R)) in
       if i = length L then (if a < b then s1 else s2) else (I @ p # J) ! i)"
proof (cases "a < b")
  case True
  have "takeWhile (\<lambda>x. x \<le> a) R = []" using True assms(2) by (cases R) auto
  moreover have "takeWhile (\<lambda>x. x \<le> a) (b # R) = []" using True by simp
  ultimately have i: "takeWhile (\<lambda>x. x \<le> a) (L @ b # R) = takeWhile (\<lambda>x. x \<le> a) L"
      "takeWhile (\<lambda>x. x \<le> a) (L @ R) = takeWhile (\<lambda>x. x \<le> a) L"
    unfolding takeWhile_append by (simp_all add: takeWhile_eq_all_conv [THEN iffD2])
  have "length (takeWhile (\<lambda>x. x \<le> a) L) \<le> length L" by (rule length_takeWhile_le)
  then show ?thesis unfolding i Let_def using True assms(3) by (auto simp: nth_append)
next
  case False
  have "takeWhile (\<lambda>x. x \<le> a) (L @ b # R) = L @ b # takeWhile (\<lambda>x. x \<le> a) R"
      "takeWhile (\<lambda>x. x \<le> a) (L @ R) = L @ takeWhile (\<lambda>x. x \<le> a) R"
    using False assms(1) by (auto simp: takeWhile_append)
  moreover have "length (takeWhile (\<lambda>x. x \<le> a) R) \<le> length R" by (rule length_takeWhile_le)
  ultimately show ?thesis using False assms(3,4)
    by (cases "takeWhile (\<lambda>x. x \<le> a) R") (simp_all add: nth_append)
qed

lemma account_shard_in:
  assumes "layout_ok l"
  shows "account_id_to_shard_id l a \<in> set (shard_ids l)"
proof -
  have "length (takeWhile (\<lambda>x. x \<le> a) (boundary_accounts l)) < length (shard_ids l)"
    using assms length_takeWhile_le [of "\<lambda>x. x \<le> a" "boundary_accounts l"] by (simp add: layout_ok_def)
  then show ?thesis by (simp add: account_id_to_shard_id_def)
qed

lemma fresh_shards:
  assumes "unat (Max (set ids)) + 2 < 2 ^ 64"
  obtains s1 s2 where "checked_add (Max (set ids)) 1 = Some s1" "checked_add (Max (set ids)) 2 = Some s2"
    "s1 = Max (set ids) + 1" "s2 = Max (set ids) + 2" "s1 \<noteq> s2" "s1 \<notin> set ids" "s2 \<notin> set (ids :: ShardId list)"
proof -
  obtain s1 s2 where s: "checked_add (Max (set ids)) 1 = Some s1" "checked_add (Max (set ids)) 2 = Some s2"
      "s1 = Max (set ids) + 1" "s2 = Max (set ids) + 2"
    using assms by (simp add: checked_add_def)
  have u: "unat s1 = unat (Max (set ids)) + 1" "unat s2 = unat (Max (set ids)) + 2"
    using s(1,2) by (simp_all add: checked_add_Some)
  have "unat x \<le> unat (Max (set ids))" if "x \<in> set ids" for x using that by (simp add: word_le_nat_alt [symmetric])
  then have "s1 \<notin> set ids" "s2 \<notin> set ids" using u by fastforce+
  moreover have "s1 \<noteq> s2" using u by auto
  ultimately show ?thesis using that s by blast
qed

text \<open>The derived layout, with the old one cut at the new boundary.\<close>

definition split_layout ::
  "AccountId list \<Rightarrow> AccountId \<Rightarrow> AccountId list \<Rightarrow> ShardId list \<Rightarrow> ShardId \<Rightarrow> ShardId list \<Rightarrow> ShardId \<Rightarrow> ShardId
     \<Rightarrow> (ShardId, ShardId) btree \<Rightarrow> ShardLayoutV2" where
  "split_layout L b R I p J s1 s2 m = \<lparr> boundary_accounts = L @ b # R, shard_ids = I @ [s1, s2] @ J,
     id_to_index_map = fold (\<lambda>(i, s). bt_insert s i) (enumerate 0 (I @ [s1, s2] @ J)) [],
     shards_split_map = Some (bt_insert p [s1, s2] (fold (\<lambda>s. bt_insert s [s]) (I @ p # J) [])), shards_parent_map = Some m \<rparr>"

lemma derive_layout_parts:
  assumes ok: "layout_ok l" and b: "b \<notin> set (boundary_accounts l)" and room: "unat (Max (set (shard_ids l))) + 2 < 2 ^ 64"
  obtains L R I p J m s1 s2 where "s1 = Max (set (shard_ids l)) + 1" "s2 = Max (set (shard_ids l)) + 2"
    "s1 \<notin> set (shard_ids l)" "s2 \<notin> set (shard_ids l)" "boundary_accounts l = L @ R" "shard_ids l = I @ p # J"
    "length I = length L" "length J = length R" "\<forall>x \<in> set L. x < b" "\<forall>x \<in> set R. b < x"
    "derive_layout l b = Ok (split_layout L b R I p J s1 s2 m)" "layout_ok (split_layout L b R I p J s1 s2 m)"
    "\<forall>s \<in> set (I @ [s1, s2] @ J). bt_get m s = Some (if s = s1 \<or> s = s2 then p else s)"
proof -
  let ?ids = "shard_ids l"
  have l: "length (boundary_accounts l) + 1 = length ?ids" "sorted (boundary_accounts l)" "distinct ?ids"
    using ok by (simp_all add: layout_ok_def)
  obtain L R where bs: "boundary_accounts l = L @ R" "\<forall>x \<in> set L. x < b" "\<forall>x \<in> set R. b < x"
      "sort (boundary_accounts l @ [b]) = L @ b # R" "length (takeWhile (\<lambda>x. x \<noteq> b) (L @ b # R)) = length L"
    using new_boundary [OF l(2) b] by blast
  define I p J where "I = take (length L) ?ids" and "p = ?ids ! length L" and "J = drop (length L + 1) ?ids"
  have len: "length L < length ?ids" using l(1) bs(1) by simp
  then have ids: "?ids = I @ p # J" "length I = length L" "length J = length R"
    using l(1) bs(1) by (simp_all add: I_def p_def J_def id_take_nth_drop)
  obtain s1 s2 where s: "checked_add (Max (set ?ids)) 1 = Some s1" "checked_add (Max (set ?ids)) 2 = Some s2"
      "s1 = Max (set ?ids) + 1" "s2 = Max (set ?ids) + 2" and fresh: "s1 \<noteq> s2" "s1 \<notin> set ?ids" "s2 \<notin> set ?ids"
    using fresh_shards [OF room] by blast
  have ids': "distinct (I @ [s1, s2] @ J)" "set (I @ [s1, s2] @ J) = set ?ids - {p} \<union> {s1, s2}" "p \<in> set ?ids"
    using l(3) fresh unfolding ids(1) by auto
  obtain m where m: "validate_and_derive_shard_parent_map (I @ [s1, s2] @ J)
        (bt_insert p [s1, s2] (fold (\<lambda>s. bt_insert s [s]) ?ids [])) = Ok m" "map fst m = sort (I @ [s1, s2] @ J)"
      "\<forall>s \<in> set (I @ [s1, s2] @ J). bt_get m s = Some (if s = s1 \<or> s = s2 then p else s)"
    using derived_parents [OF l(3) ids'(3) fresh ids'(1,2)] by blast
  have srt: "sort (L @ b # R) = L @ b # R" unfolding bs(4) [symmetric] by (rule sorted_sort_id [OF sorted_sort])
  have derive: "derive_layout l b = Ok (split_layout L b R I p J s1 s2 m)"
    using b bs(4,5) s(1,2) len srt ids m(1)
    by (simp add: derive_layout_def new_layout_def Let_def split_layout_def nth_append flip: I_def p_def J_def)
  have wf: "layout_ok (split_layout L b R I p J s1 s2 m)"
    using srt ids(2,3) ids'(1) m(2) sorted_sort [of "L @ b # R"]
    by (simp add: layout_ok_def split_layout_def get_shard_index_def index_map_nth del: append.simps append_assoc)
  show ?thesis by (rule that [OF s(3,4) fresh(2,3) bs(1) ids bs(2,3) derive wf m(3)])
qed

section \<open>Property\<close>

text \<open>C13: Resharding splits exactly one shard. From a well-formed layout and a new boundary account, if two ids
  above the largest are free, the derived layout exists (no assertion of the code fails) and is well-formed
  again. Every account of the split shard, the one that holds the new boundary, moves to the first
  new shard if it is below the boundary and to the second otherwise; every other account stays
  where it was. The maps of the new layout agree: the parent of an account's new shard is its old
  shard, and the new shard is among the children of the old one.\<close>

theorem split_moves_one_shard:
  assumes ok: "layout_ok l" and b: "b \<notin> set (boundary_accounts l)" and room: "unat (Max (set (shard_ids l))) + 2 < 2 ^ 64"
  shows "\<exists>l'. derive_layout l b = Ok l' \<and> layout_ok l'
    \<and> (\<forall>a. account_id_to_shard_id l' a
            = (if account_id_to_shard_id l a = account_id_to_shard_id l b
               then Max (set (shard_ids l)) + (if a < b then 1 else 2) else account_id_to_shard_id l a)
         \<and> try_get_parent_shard_id l' (account_id_to_shard_id l' a) = Ok (Some (account_id_to_shard_id l a))
         \<and> (\<exists>cs. get_children_shards_ids l' (account_id_to_shard_id l a) = Some cs \<and> account_id_to_shard_id l' a \<in> set cs))"
proof -
  obtain L R I p J m s1 s2 where s: "s1 = Max (set (shard_ids l)) + 1" "s2 = Max (set (shard_ids l)) + 2"
      "s1 \<notin> set (shard_ids l)" "s2 \<notin> set (shard_ids l)"
    and ids: "boundary_accounts l = L @ R" "shard_ids l = I @ p # J" "length I = length L" "length J = length R"
    and LR: "\<forall>x \<in> set L. x < b" "\<forall>x \<in> set R. b < x"
    and derive: "derive_layout l b = Ok (split_layout L b R I p J s1 s2 m)" "layout_ok (split_layout L b R I p J s1 s2 m)"
    and m: "\<forall>s \<in> set (I @ [s1, s2] @ J). bt_get m s = Some (if s = s1 \<or> s = s2 then p else s)"
    by (rule derive_layout_parts [OF ok b room], rule that)
  define l' where "l' = split_layout L b R I p J s1 s2 m"
  have old: "account_id_to_shard_id l a = (I @ p # J) ! length (takeWhile (\<lambda>x. x \<le> a) (L @ R))" for a
    by (simp add: account_id_to_shard_id_def ids)
  have "takeWhile (\<lambda>x. x \<le> b) (L @ R) = L" using LR by (cases R) (auto simp: takeWhile_append)
  then have pb: "account_id_to_shard_id l b = p" using old [of b] ids(3) by (simp add: nth_append)
  have same: "account_id_to_shard_id l a = p \<longleftrightarrow> length (takeWhile (\<lambda>x. x \<le> a) (L @ R)) = length L" for a
  proof -
    have "length (takeWhile (\<lambda>x. x \<le> a) (L @ R)) < length (I @ p # J)"
      using length_takeWhile_le [of "\<lambda>x. x \<le> a" "L @ R"] ids(3,4) by simp
    then show ?thesis
      using nth_eq_iff_index_eq [of "I @ p # J" _ "length L"] ok ids(2,3) old [of a] by (simp add: nth_append layout_ok_def)
  qed
  have new: "account_id_to_shard_id l' a = (if account_id_to_shard_id l a = p then if a < b then s1 else s2 else account_id_to_shard_id l a)" for a
    using routing_split [OF LR ids(3,4), of s1 s2 a p] same [of a] old [of a]
    by (simp add: account_id_to_shard_id_def l'_def split_layout_def Let_def)
  have "try_get_parent_shard_id l' (account_id_to_shard_id l' a) = Ok (Some (account_id_to_shard_id l a))
      \<and> (\<exists>cs. get_children_shards_ids l' (account_id_to_shard_id l a) = Some cs \<and> account_id_to_shard_id l' a \<in> set cs)" for a
  proof -
    have i: "account_id_to_shard_id l a \<in> set (I @ p # J)" using account_shard_in [OF ok] ids(2) by simp
    have i': "account_id_to_shard_id l' a \<in> set (I @ [s1, s2] @ J)"
      using account_shard_in [OF derive(2)] by (simp add: l'_def split_layout_def)
    have "bt_get m (account_id_to_shard_id l' a) = Some (account_id_to_shard_id l a)"
      using m [rule_format, OF i'] new [of a] i s(3,4) ids(2) by (auto split: if_splits)
    moreover have "shard_ids l' = I @ [s1, s2] @ J" "shards_parent_map l' = Some m" by (simp_all add: l'_def split_layout_def)
    ultimately have "try_get_parent_shard_id l' (account_id_to_shard_id l' a) = Ok (Some (account_id_to_shard_id l a))"
      using i' by (simp add: try_get_parent_shard_id_def)
    moreover have "get_children_shards_ids l' c = (if c = p then Some [s1, s2] else if c \<in> set (I @ p # J) then Some [c] else None)" for c
      using own_children [of "[]" "I @ p # J" c]
      by (simp add: get_children_shards_ids_def l'_def split_layout_def bt_get_insert bt_inv_def del: fold_append fold.simps)
    ultimately show ?thesis using i new [of a] by auto
  qed
  then show ?thesis using derive new s(1,2) pb by (auto simp: l'_def)
qed

definition e_layout :: ShardLayoutV2 where
  "e_layout = \<lparr> boundary_accounts = [''h'', ''p''], shard_ids = [4, 0, 2],
     id_to_index_map = fold (\<lambda>(i, s). bt_insert s i) (enumerate 0 [4, 0, 2]) [], shards_split_map = None, shards_parent_map = None \<rparr>"

theorem split_moves_one_shard_witness:
  "\<exists>l'. derive_layout e_layout ''k'' = Ok l' \<and> layout_ok l' \<and> account_id_to_shard_id l' ''alice'' = 4
     \<and> account_id_to_shard_id l' ''john'' = 5 \<and> account_id_to_shard_id l' ''mary'' = 6 \<and> account_id_to_shard_id l' ''zoe'' = 2
     \<and> try_get_parent_shard_id l' 6 = Ok (Some 0)"
proof -
  have ok: "layout_ok e_layout"
    by (simp add: layout_ok_def e_layout_def get_shard_index_def less_Suc_eq)
  have b: "''k'' \<notin> set (boundary_accounts e_layout)" by (simp add: e_layout_def)
  have ids: "set (shard_ids e_layout) = {4, 0, 2}" by (simp add: e_layout_def)
  have mx: "Max {4, 0, 2 :: ShardId} = 4" by simp
  have old: "account_id_to_shard_id e_layout ''alice'' = 4" "account_id_to_shard_id e_layout ''john'' = 0"
    "account_id_to_shard_id e_layout ''mary'' = 0" "account_id_to_shard_id e_layout ''zoe'' = 2"
    "account_id_to_shard_id e_layout ''k'' = 0"
    by (simp_all add: account_id_to_shard_id_def e_layout_def less_eq_char_def)
  obtain l' where "derive_layout e_layout ''k'' = Ok l'" "layout_ok l'"
    "\<forall>a. account_id_to_shard_id l' a
            = (if account_id_to_shard_id e_layout a = account_id_to_shard_id e_layout ''k''
               then 4 + (if a < ''k'' then 1 else 2) else account_id_to_shard_id e_layout a)
         \<and> try_get_parent_shard_id l' (account_id_to_shard_id l' a) = Ok (Some (account_id_to_shard_id e_layout a))"
    using split_moves_one_shard [OF ok b] unfolding ids mx by auto
  moreover from this(3) have mary: "account_id_to_shard_id l' ''mary'' = 6" by (simp add: old less_char_def)
  moreover have "try_get_parent_shard_id l' 6 = Ok (Some 0)"
    using calculation(3) mary old(3) by metis
  ultimately show ?thesis by (intro exI [of _ l']) (simp add: old less_char_def)
qed

end
