(* ===== verification/Congestion.thy ===== *)
theory Congestion
  imports Outgoing_Metadata Shard_Layout Apply_Receipt
begin

text \<open>
  Congestion control: \<open>runtime/runtime/src/congestion_control.rs\<close> with the counters of
  \<open>core/primitives/src/congestion_info.rs\<close>. Every receipt a shard produces goes through the receipt sink, which
  forwards it while the limit of the receiving shard allows and buffers it in the state
  otherwise. Delayed receipts wait in a queue of their own. The counters are kept up to date on the way; the property
  compares them with \<open>bootstrap_congestion_info\<close>, which counts everything anew. The limits for the chunk are given: they
  come from floating-point congestion levels and the bandwidth scheduler.
\<close>

section \<open>Counters\<close>

record CongestionInfo =
  delayed_receipts_gas :: u128
  buffered_receipts_gas :: u128
  receipt_bytes :: u64
  allowed_shard :: u16

definition add_receipt_bytes :: "u64 \<Rightarrow> CongestionInfo \<Rightarrow> (CongestionInfo, RuntimeError) result" where
  "add_receipt_bytes n info =
     result_bind (ok_or (checked_add (receipt_bytes info) n) (UnexpectedIntegerOverflow ''add_receipt_bytes''))
       (\<lambda>b. Ok (info \<lparr> receipt_bytes := b \<rparr>))"

definition remove_receipt_bytes :: "u64 \<Rightarrow> CongestionInfo \<Rightarrow> (CongestionInfo, RuntimeError) result" where
  "remove_receipt_bytes n info =
     result_bind (ok_or (checked_sub (receipt_bytes info) n) (UnexpectedIntegerOverflow ''remove_receipt_bytes''))
       (\<lambda>b. Ok (info \<lparr> receipt_bytes := b \<rparr>))"

definition add_delayed_receipt_gas :: "Gas \<Rightarrow> CongestionInfo \<Rightarrow> (CongestionInfo, RuntimeError) result" where
  "add_delayed_receipt_gas gas info =
     result_bind (ok_or (checked_add (delayed_receipts_gas info) (ucast gas)) (UnexpectedIntegerOverflow ''add_delayed_receipt_gas''))
       (\<lambda>g. Ok (info \<lparr> delayed_receipts_gas := g \<rparr>))"

definition remove_delayed_receipt_gas :: "Gas \<Rightarrow> CongestionInfo \<Rightarrow> (CongestionInfo, RuntimeError) result" where
  "remove_delayed_receipt_gas gas info =
     result_bind (ok_or (checked_sub (delayed_receipts_gas info) (ucast gas)) (UnexpectedIntegerOverflow ''remove_delayed_receipt_gas''))
       (\<lambda>g. Ok (info \<lparr> delayed_receipts_gas := g \<rparr>))"

definition add_buffered_receipt_gas :: "Gas \<Rightarrow> CongestionInfo \<Rightarrow> (CongestionInfo, RuntimeError) result" where
  "add_buffered_receipt_gas gas info =
     result_bind (ok_or (checked_add (buffered_receipts_gas info) (ucast gas)) (UnexpectedIntegerOverflow ''add_buffered_receipt_gas''))
       (\<lambda>g. Ok (info \<lparr> buffered_receipts_gas := g \<rparr>))"

definition remove_buffered_receipt_gas :: "u128 \<Rightarrow> CongestionInfo \<Rightarrow> (CongestionInfo, RuntimeError) result" where
  "remove_buffered_receipt_gas gas info =
     result_bind (ok_or (checked_sub (buffered_receipts_gas info) gas) (UnexpectedIntegerOverflow ''remove_buffered_receipt_gas''))
       (\<lambda>g. Ok (info \<lparr> buffered_receipts_gas := g \<rparr>))"

section \<open>Gas and size of a receipt\<close>

definition action_receipt_congestion_gas ::
  "'e crypto_scheme \<Rightarrow> RuntimeConfig \<Rightarrow> Receipt \<Rightarrow> VersionedActionReceipt \<Rightarrow> (Gas, FeeError) result" where
  "action_receipt_congestion_gas C config receipt ar =
     result_bind (total_prepaid_exec_fees C config (r_receiver_id receipt) (va_actions ar) 0) (\<lambda>exec.
     result_bind (checked_add_result exec (execution (action_fees (fees config) cost_new_action_receipt))) (\<lambda>prepaid_exec_gas.
     result_bind (total_prepaid_send_fees C config (va_actions ar) 0) (\<lambda>prepaid_send_gas.
     result_bind (checked_add_result prepaid_exec_gas prepaid_send_gas) (\<lambda>prepaid_gas.
     result_bind (total_prepaid_gas (va_actions ar) 0) (\<lambda>gas_attached_to_fns.
       checked_add_result gas_attached_to_fns prepaid_gas)))))"

definition compute_receipt_congestion_gas ::
  "'e crypto_scheme \<Rightarrow> RuntimeConfig \<Rightarrow> Receipt \<Rightarrow> (Gas, RuntimeError) result" where
  "compute_receipt_congestion_gas C config receipt =
     (case versioned (r_receipt receipt) of
        VAction ar \<Rightarrow> map_err fee_error (action_receipt_congestion_gas C config receipt ar)
      | _ \<Rightarrow> Ok 0)"

definition compute_receipt_size :: "Receipt \<Rightarrow> (u64, RuntimeError) result" where
  "compute_receipt_size receipt =
     (let size = length (borsh_receipt receipt) in
      if size < 2 ^ 64 then Ok (word_of_nat size) else Err overflow_error)"

fun ssr_metadata :: "StateStoredReceipt \<Rightarrow> StateStoredReceiptMetadata" where
  "ssr_metadata (SsrV0 _ m) = m"
| "ssr_metadata (SsrV1 _ m) = m"

fun receipt_congestion_gas ::
  "'e crypto_scheme \<Rightarrow> RuntimeConfig \<Rightarrow> ReceiptOrStateStoredReceipt \<Rightarrow> (Gas, RuntimeError) result" where
  "receipt_congestion_gas C config (PlainReceipt r) = compute_receipt_congestion_gas C config r"
| "receipt_congestion_gas C config (StoredReceipt s) = Ok (congestion_gas (ssr_metadata s))"

fun receipt_size :: "ReceiptOrStateStoredReceipt \<Rightarrow> (u64, RuntimeError) result" where
  "receipt_size (PlainReceipt r) = compute_receipt_size r"
| "receipt_size (StoredReceipt s) = Ok (congestion_size (ssr_metadata s))"

section \<open>The receipt sink\<close>

record OutgoingLimit =
  lim_gas :: Gas
  lim_size :: u64

type_synonym receipt_queue = "ReceiptOrStateStoredReceipt TrieQueue"

record ReceiptSink =
  own_congestion_info :: CongestionInfo
  outgoing_receipts :: "Receipt list"
  outgoing_limit :: "ShardId \<rightharpoonup> OutgoingLimit"
  outgoing_buffers :: "(ShardId, receipt_queue) btree"
  outgoing_metadatas :: OutgoingMetadatas

definition to_shard :: "ShardId \<Rightarrow> (ShardId, receipt_queue) btree \<Rightarrow> receipt_queue" where
  "to_shard shard buffers = (case bt_get buffers shard of Some q \<Rightarrow> q | None \<Rightarrow> empty_queue)"

text \<open>Whether the receipt was forwarded. A receipt above the size limit counts as one at the limit.\<close>

definition try_forward ::
  "RuntimeConfig \<Rightarrow> Receipt \<Rightarrow> Gas \<Rightarrow> u64 \<Rightarrow> ShardId \<Rightarrow> ReceiptSink \<Rightarrow> bool \<times> ReceiptSink" where
  "try_forward config receipt gas size0 shard sink =
     (let size = min size0 (max_receipt_size (limit_config config));
          limit = (case outgoing_limit sink shard of Some l \<Rightarrow> l | None \<Rightarrow> \<lparr> lim_gas = - 1, lim_size = 0 \<rparr>)
      in if gas \<le> lim_gas limit \<and> size \<le> lim_size limit
         then (True, sink \<lparr> outgoing_receipts := outgoing_receipts sink @ [receipt],
                 outgoing_limit := (outgoing_limit sink)(shard \<mapsto>
                   \<lparr> lim_gas = lim_gas limit - gas, lim_size = lim_size limit - size \<rparr>) \<rparr>)
         else (False, sink \<lparr> outgoing_limit := (outgoing_limit sink)(shard \<mapsto> limit) \<rparr>))"

definition buffer_receipt ::
  "RuntimeConfig \<Rightarrow> Receipt \<Rightarrow> u64 \<Rightarrow> Gas \<Rightarrow> ShardId \<Rightarrow> ReceiptSink \<Rightarrow> (ReceiptSink, RuntimeError) result" where
  "buffer_receipt config receipt sz gas shard sink =
     (let item = (if use_state_stored_receipt config
          then StoredReceipt (SsrV1 receipt \<lparr> congestion_gas = gas, congestion_size = sz \<rparr>) else PlainReceipt receipt) in
      result_bind (add_receipt_bytes sz (own_congestion_info sink)) (\<lambda>info1.
      result_bind (add_buffered_receipt_gas gas info1) (\<lambda>info2.
      result_bind (if should_update_outgoing_metadatas item
          then metadata_pushed shard sz gas (outgoing_metadatas sink) else Ok (outgoing_metadatas sink)) (\<lambda>om.
      result_bind (push_back item (to_shard shard (outgoing_buffers sink))) (\<lambda>q.
        Ok (sink \<lparr> own_congestion_info := info2, outgoing_metadatas := om,
              outgoing_buffers := bt_insert shard q (outgoing_buffers sink) \<rparr>))))))"

definition forward_or_buffer_receipt ::
  "'e crypto_scheme \<Rightarrow> RuntimeConfig \<Rightarrow> ShardLayoutV2 \<Rightarrow> Receipt \<Rightarrow> ReceiptSink \<Rightarrow> (ReceiptSink, RuntimeError) result" where
  "forward_or_buffer_receipt C config layout receipt sink =
     result_bind (receiver_shard_id layout receipt) (\<lambda>shard.
     result_bind (compute_receipt_size receipt) (\<lambda>size.
     result_bind (compute_receipt_congestion_gas C config receipt) (\<lambda>gas.
       case try_forward config receipt gas size shard sink of
         (True, sink') \<Rightarrow> Ok sink'
       | (False, sink') \<Rightarrow> buffer_receipt config receipt size gas shard sink')))"

text \<open>
  The loop over what the iterator of a buffer yields: the sink with what was forwarded, how many that
  were, and the metadata updates to do once the buffer is no longer iterated.
\<close>

fun forward_items ::
  "'e crypto_scheme \<Rightarrow> RuntimeConfig \<Rightarrow> ShardLayoutV2 \<Rightarrow> (ReceiptOrStateStoredReceipt, RuntimeError) result list
     \<Rightarrow> ReceiptSink \<Rightarrow> u64 \<Rightarrow> (u64 \<times> Gas) list
     \<Rightarrow> (ReceiptSink \<times> u64 \<times> (u64 \<times> Gas) list, RuntimeError) result" where
  "forward_items C config layout [] sink num_forwarded updates = Ok (sink, num_forwarded, updates)"
| "forward_items C config layout (receipt_result # rs) sink num_forwarded updates =
     result_bind receipt_result (\<lambda>item.
     result_bind (receipt_congestion_gas C config item) (\<lambda>gas.
     result_bind (receipt_size item) (\<lambda>size.
     result_bind (receiver_shard_id layout (into_receipt item)) (\<lambda>target.
       case try_forward config (into_receipt item) gas size target sink of
         (True, sink') \<Rightarrow>
           result_bind (remove_receipt_bytes size (own_congestion_info sink')) (\<lambda>info1.
           result_bind (remove_buffered_receipt_gas (ucast gas) info1) (\<lambda>info2.
             forward_items C config layout rs (sink' \<lparr> own_congestion_info := info2 \<rparr>) (num_forwarded + 1)
               (updates @ (if should_update_outgoing_metadatas item then [(size, gas)] else []))))
       | (False, sink') \<Rightarrow> Ok (sink', num_forwarded, updates)))))"

fun pop_metadata :: "ShardId \<Rightarrow> (u64 \<times> Gas) list \<Rightarrow> OutgoingMetadatas \<Rightarrow> (OutgoingMetadatas, RuntimeError) result" where
  "pop_metadata shard [] om = Ok om"
| "pop_metadata shard ((sz, gas) # us) om = result_bind (metadata_popped shard sz gas om) (pop_metadata shard us)"

definition forward_from_buffer_to_shard ::
  "'e crypto_scheme \<Rightarrow> RuntimeConfig \<Rightarrow> ShardLayoutV2 \<Rightarrow> ShardId \<Rightarrow> ReceiptSink \<Rightarrow> (ReceiptSink, RuntimeError) result" where
  "forward_from_buffer_to_shard C config layout shard sink =
     (let q = to_shard shard (outgoing_buffers sink) in
      result_bind (forward_items C config layout (tq_iter q) sink 0 [])
        (\<lambda>(sink1, num_forwarded, updates).
        case pop_n num_forwarded q of
          (removed, q') \<Rightarrow>
            result_bind (pop_metadata shard updates (outgoing_metadatas sink1)) (\<lambda>om.
              Ok (sink1 \<lparr> outgoing_metadatas := om,
                    outgoing_buffers := (if 0 < removed then bt_insert shard q' (outgoing_buffers sink1)
                      else outgoing_buffers sink1) \<rparr>))))"

text \<open>The parents of split shards, in order, and then the shards of the layout.\<close>

definition get_split_parent_shard_ids :: "ShardLayoutV2 \<Rightarrow> (ShardId list, RuntimeError) result" where
  "get_split_parent_shard_ids layout =
     fold (\<lambda>s acc. result_bind acc (\<lambda>ps. result_bind (try_get_parent_shard_id layout s) (\<lambda>p.
       case p of None \<Rightarrow> Ok ps | Some parent \<Rightarrow> Ok (if parent = s \<or> parent \<in> set ps then ps else insort parent ps))))
       (shard_ids layout) (Ok [])"

fun forward_buffers ::
  "'e crypto_scheme \<Rightarrow> RuntimeConfig \<Rightarrow> ShardLayoutV2 \<Rightarrow> ShardId list \<Rightarrow> ReceiptSink \<Rightarrow> bool
     \<Rightarrow> (ReceiptSink \<times> bool, RuntimeError) result" where
  "forward_buffers C config layout [] sink all_empty = Ok (sink, all_empty)"
| "forward_buffers C config layout (shard # shards) sink all_empty =
     result_bind (forward_from_buffer_to_shard C config layout shard sink) (\<lambda>sink'.
       forward_buffers C config layout shards sink'
         (all_empty \<and> tq_len (to_shard shard (outgoing_buffers sink')) = 0))"

definition forward_from_buffer ::
  "'e crypto_scheme \<Rightarrow> RuntimeConfig \<Rightarrow> ShardLayoutV2 \<Rightarrow> ReceiptSink \<Rightarrow> (ReceiptSink, RuntimeError) result" where
  "forward_from_buffer C config layout sink =
     result_bind (get_split_parent_shard_ids layout) (\<lambda>parents.
     result_bind (forward_buffers C config layout (parents @ shard_ids layout) sink True) (\<lambda>(sink', all_empty).
       if all_empty \<and> buffered_receipts_gas (own_congestion_info sink') \<noteq> 0
       then Err (RuntimePanic ''buffered_receipts_gas'') else Ok sink'))"

section \<open>Delayed receipts\<close>

record DelayedReceiptQueueWrapper =
  dq_queue :: receipt_queue
  new_delayed_gas :: Gas
  new_delayed_bytes :: u64
  removed_delayed_gas :: Gas
  removed_delayed_bytes :: u64

definition delayed_push ::
  "'e crypto_scheme \<Rightarrow> RuntimeConfig \<Rightarrow> Receipt \<Rightarrow> DelayedReceiptQueueWrapper \<Rightarrow> (DelayedReceiptQueueWrapper, RuntimeError) result" where
  "delayed_push C config receipt dq =
     result_bind (compute_receipt_congestion_gas C config receipt) (\<lambda>gas.
     result_bind (compute_receipt_size receipt) (\<lambda>size.
     let item = (if use_state_stored_receipt config
          then StoredReceipt (SsrV1 receipt \<lparr> congestion_gas = gas, congestion_size = size \<rparr>) else PlainReceipt receipt) in
     result_bind (ok_or (checked_add (new_delayed_gas dq) gas) overflow_error) (\<lambda>g.
     result_bind (ok_or (checked_add (new_delayed_bytes dq) size) overflow_error) (\<lambda>b.
     result_bind (push_back item (dq_queue dq)) (\<lambda>q.
       Ok (dq \<lparr> dq_queue := q, new_delayed_gas := g, new_delayed_bytes := b \<rparr>))))))"

lemma pop_front_shrinks:
  assumes "pop_front q = Ok (Some item, q')"
  shows "unat (next_available_index q') - unat (first_index q') < unat (next_available_index q) - unat (first_index q)"
proof -
  have ne: "\<not> next_available_index q \<le> first_index q" using assms by (auto simp: pop_front_def)
  then have "next_available_index q' = next_available_index q" "first_index q' = first_index q + 1"
    using assms by (auto simp: pop_front_def result_bind_Ok)
  then show ?thesis using nonempty_range [OF ne] by simp
qed

text \<open>
  The next delayed receipt of this shard; those of the sibling shard, left over from a split, are
  dropped on the way but counted. The loop stops early when the recorded proof of the chunk is too large.
\<close>

function delayed_pop ::
  "'e crypto_scheme \<Rightarrow> RuntimeConfig \<Rightarrow> ShardLayoutV2 \<Rightarrow> ShardId \<Rightarrow> (receipt_queue \<Rightarrow> bool) \<Rightarrow> DelayedReceiptQueueWrapper
     \<Rightarrow> (Receipt option \<times> DelayedReceiptQueueWrapper, RuntimeError) result" where
  "delayed_pop C config layout shard exceeded dq =
     (if exceeded (dq_queue dq) then Ok (None, dq)
      else case pop_front (dq_queue dq) of
        Err e \<Rightarrow> Err e
      | Ok (None, q) \<Rightarrow> Ok (None, dq \<lparr> dq_queue := q \<rparr>)
      | Ok (Some item, q) \<Rightarrow>
          result_bind (receipt_congestion_gas C config item) (\<lambda>gas.
          result_bind (receipt_size item) (\<lambda>size.
          result_bind (ok_or (checked_add (removed_delayed_gas dq) gas) overflow_error) (\<lambda>g.
          result_bind (ok_or (checked_add (removed_delayed_bytes dq) size) overflow_error) (\<lambda>b.
            let dq' = dq \<lparr> dq_queue := q, removed_delayed_gas := g, removed_delayed_bytes := b \<rparr> in
            case receiver_shard_id layout (into_receipt item) of
              Err e \<Rightarrow> Err (RuntimePanic ''receipt_filter_fn'')
            | Ok sh \<Rightarrow> if sh = shard then Ok (Some (into_receipt item), dq') else delayed_pop C config layout shard exceeded dq')))))"
  by pat_completeness auto
termination
  by (relation "measure (\<lambda>(C, config, layout, shard, exceeded, dq).
      unat (next_available_index (dq_queue dq)) - unat (first_index (dq_queue dq)))")
    (auto dest: pop_front_shrinks)

declare delayed_pop.simps [simp del]

definition apply_congestion_changes ::
  "DelayedReceiptQueueWrapper \<Rightarrow> CongestionInfo \<Rightarrow> (CongestionInfo, RuntimeError) result" where
  "apply_congestion_changes dq congestion =
     result_bind (add_delayed_receipt_gas (new_delayed_gas dq) congestion) (\<lambda>c1.
     result_bind (remove_delayed_receipt_gas (removed_delayed_gas dq) c1) (\<lambda>c2.
     result_bind (add_receipt_bytes (new_delayed_bytes dq) c2) (\<lambda>c3.
       remove_receipt_bytes (removed_delayed_bytes dq) c3)))"

section \<open>Counting anew\<close>

definition overflow_storage_err :: RuntimeError where
  "overflow_storage_err = RStorageError (StorageInconsistentState ''Calculations on stored receipt overflows calculations'')"

fun count_items ::
  "'e crypto_scheme \<Rightarrow> RuntimeConfig \<Rightarrow> (ReceiptOrStateStoredReceipt, RuntimeError) result list \<Rightarrow> u128 \<Rightarrow> u64
     \<Rightarrow> (u128 \<times> u64, RuntimeError) result" where
  "count_items C config [] gas_sum byte_sum = Ok (gas_sum, byte_sum)"
| "count_items C config (receipt_result # rs) gas_sum byte_sum =
     result_bind receipt_result (\<lambda>receipt.
     result_bind (map_err (\<lambda>_. overflow_storage_err) (receipt_congestion_gas C config receipt)) (\<lambda>gas.
     result_bind (ok_or (checked_add gas_sum (ucast gas)) overflow_storage_err) (\<lambda>g.
     result_bind (map_err (\<lambda>_. overflow_storage_err) (receipt_size receipt)) (\<lambda>memory.
     result_bind (ok_or (checked_add byte_sum memory) overflow_storage_err) (\<lambda>b.
       count_items C config rs g b)))))"

fun count_buffers ::
  "'e crypto_scheme \<Rightarrow> RuntimeConfig \<Rightarrow> (ShardId, receipt_queue) btree \<Rightarrow> u128 \<Rightarrow> u64 \<Rightarrow> (u128 \<times> u64, RuntimeError) result" where
  "count_buffers C config [] g b = Ok (g, b)"
| "count_buffers C config ((_, q) # bs) g b =
     result_bind (count_items C config (tq_iter q) g b) (\<lambda>(g', b'). count_buffers C config bs g' b')"

definition bootstrap_congestion_info ::
  "'e crypto_scheme \<Rightarrow> RuntimeConfig \<Rightarrow> ShardId \<Rightarrow> receipt_queue \<Rightarrow> (ShardId, receipt_queue) btree
     \<Rightarrow> (CongestionInfo, RuntimeError) result" where
  "bootstrap_congestion_info C config shard_id delayed buffers =
     result_bind (count_items C config (tq_iter delayed) 0 0) (\<lambda>(dg, b).
     result_bind (count_buffers C config buffers 0 b) (\<lambda>(bg, b').
       Ok \<lparr> delayed_receipts_gas = dg, buffered_receipts_gas = bg, receipt_bytes = b', allowed_shard = ucast shard_id \<rparr>))"

end
