(* ===== verification/Congestion_Exact.thy ===== *)
theory Congestion_Exact
  imports Congestion
begin

text \<open>
  The counters of congestion control are exact. The invariant of a receipt sink says that its counters are the sums over
  the delayed and buffered receipts and that the metadata of every buffer describes it. Forwarding
  from the buffers and sinking new receipts keep it, lose no receipt and duplicate none.
\<close>

section \<open>Sums over queues\<close>

definition weight :: "('a \<Rightarrow> nat) \<Rightarrow> 'a list \<Rightarrow> nat" where
  "weight w xs = (\<Sum>x \<leftarrow> xs. w x)"

lemma weight_simps [simp]:
  "weight w [] = 0" "weight w (x # xs) = w x + weight w xs" "weight w (xs @ ys) = weight w xs + weight w ys"
  by (simp_all add: weight_def)

definition total_of :: "('a \<Rightarrow> nat) \<Rightarrow> ('k, 'a TrieQueue) btree \<Rightarrow> nat" where
  "total_of w m = bt_sum (\<lambda>q. weight w (tq_list q)) m"

lemma empty_queue_list [simp]: "tq_list empty_queue = []" "tq_inv empty_queue"
  by (simp_all add: tq_list_def tq_inv_def empty_queue_def)

text \<open>Replacing the queue of one shard changes a total by the difference.\<close>

lemma total_insert:
  assumes "bt_inv m"
  shows "total_of w (bt_insert shard q m) + weight w (tq_list (to_shard shard m)) = total_of w m + weight w (tq_list q)"
proof (cases "bt_get m shard")
  case None
  then show ?thesis using btv.tot_new [of m shard] by (simp add: total_of_def to_shard_def)
next
  case (Some q0)
  then show ?thesis using btv.tot_upd [OF Some assms] by (simp add: total_of_def to_shard_def)
qed

lemma total_part:
  assumes "bt_inv m"
  shows "weight w (tq_list (to_shard shard m)) \<le> total_of w m"
  using total_insert [OF assms, of w shard empty_queue] by simp

lemma to_shard_insert [simp]: "to_shard s (bt_insert s' q m) = (if s = s' then q else to_shard s m)"
  by (simp add: to_shard_def bt_get_insert)

section \<open>The invariant\<close>

definition item_gas :: "'e crypto_scheme \<Rightarrow> RuntimeConfig \<Rightarrow> ReceiptOrStateStoredReceipt \<Rightarrow> Gas" where
  "item_gas C config x = (case receipt_congestion_gas C config x of Ok g \<Rightarrow> g | Err _ \<Rightarrow> 0)"

definition item_size :: "ReceiptOrStateStoredReceipt \<Rightarrow> u64" where
  "item_size x = (case receipt_size x of Ok n \<Rightarrow> n | Err _ \<Rightarrow> 0)"

definition item_ok :: "'e crypto_scheme \<Rightarrow> RuntimeConfig \<Rightarrow> ShardLayoutV2 \<Rightarrow> ReceiptOrStateStoredReceipt \<Rightarrow> bool" where
  "item_ok C config layout x \<longleftrightarrow> is_ok (receipt_congestion_gas C config x) \<and> is_ok (receipt_size x) \<and> 0 < item_size x
     \<and> is_ok (receiver_shard_id layout (into_receipt x))"

lemma item_okD:
  assumes "item_ok C config layout x"
  shows "receipt_congestion_gas C config x = Ok (item_gas C config x)" "receipt_size x = Ok (item_size x)" "0 < item_size x"
    "\<exists>sh. receiver_shard_id layout (into_receipt x) = Ok sh"
  using assms by (auto simp: item_ok_def item_gas_def item_size_def is_ok_iff)

abbreviation gas_in :: "'e crypto_scheme \<Rightarrow> RuntimeConfig \<Rightarrow> ReceiptOrStateStoredReceipt \<Rightarrow> nat" where
  "gas_in C config \<equiv> \<lambda>x. unat (item_gas C config x)"

abbreviation size_in :: "ReceiptOrStateStoredReceipt \<Rightarrow> nat" where
  "size_in \<equiv> \<lambda>x. unat (item_size x)"

text \<open>What the metadata of a buffer describes: the receipts stored with their congestion data.\<close>

definition tracked :: "'e crypto_scheme \<Rightarrow> RuntimeConfig \<Rightarrow> ReceiptOrStateStoredReceipt list \<Rightarrow> sized list" where
  "tracked C config xs = map (\<lambda>x. (item_size x, item_gas C config x)) (filter should_update_outgoing_metadatas xs)"

lemma tracked_simps [simp]:
  "tracked C config [] = []" "tracked C config (xs @ ys) = tracked C config xs @ tracked C config ys"
  "tracked C config (x # xs) = (if should_update_outgoing_metadatas x then [(item_size x, item_gas C config x)] else []) @ tracked C config xs"
  by (simp_all add: tracked_def)

definition meta_ok :: "'e crypto_scheme \<Rightarrow> RuntimeConfig \<Rightarrow> OutgoingMetadatas \<Rightarrow> (ShardId, receipt_queue) btree \<Rightarrow> bool" where
  "meta_ok C config om buffers \<longleftrightarrow> (\<forall>sh. case metadatas om sh of
       None \<Rightarrow> tracked C config (tq_list (to_shard sh buffers)) = []
     | Some mq \<Rightarrow> represents (groups_config om) (tracked C config (tq_list (to_shard sh buffers))) mq)"

definition queue_ok :: "'e crypto_scheme \<Rightarrow> RuntimeConfig \<Rightarrow> ShardLayoutV2 \<Rightarrow> receipt_queue \<Rightarrow> bool" where
  "queue_ok C config layout q \<longleftrightarrow> tq_inv q \<and> (\<forall>x \<in> set (tq_list q). item_ok C config layout x)"

definition sink_ok :: "'e crypto_scheme \<Rightarrow> RuntimeConfig \<Rightarrow> ShardLayoutV2 \<Rightarrow> receipt_queue \<Rightarrow> ReceiptSink \<Rightarrow> bool" where
  "sink_ok C config layout delayed sink \<longleftrightarrow> bt_inv (outgoing_buffers sink) \<and> queue_ok C config layout delayed
     \<and> (\<forall>(sh, q) \<in> set (outgoing_buffers sink). queue_ok C config layout q)
     \<and> unat (delayed_receipts_gas (own_congestion_info sink)) = weight (gas_in C config) (tq_list delayed)
     \<and> unat (buffered_receipts_gas (own_congestion_info sink)) = total_of (gas_in C config) (outgoing_buffers sink)
     \<and> unat (receipt_bytes (own_congestion_info sink)) = weight size_in (tq_list delayed) + total_of size_in (outgoing_buffers sink)
     \<and> meta_ok C config (outgoing_metadatas sink) (outgoing_buffers sink)"

text \<open>How often a receipt is in the sink, forwarded or buffered.\<close>

definition copies :: "Receipt \<Rightarrow> ReceiptSink \<Rightarrow> nat" where
  "copies r sink = count_list (outgoing_receipts sink) r
     + total_of (\<lambda>x. if into_receipt x = r then 1 else 0) (outgoing_buffers sink)"

lemma to_shard_ok:
  assumes "sink_ok C config layout delayed sink"
  shows "queue_ok C config layout (to_shard shard (outgoing_buffers sink))"
proof (cases "bt_get (outgoing_buffers sink) shard")
  case (Some q)
  then have "(shard, q) \<in> set (outgoing_buffers sink)"
    using assms bt.entries_iff [of "outgoing_buffers sink"] by (simp add: sink_ok_def)
  then show ?thesis using assms Some by (auto simp: sink_ok_def to_shard_def)
qed (simp add: to_shard_def queue_ok_def)

section \<open>Counting anew gives the counters\<close>

lemma count_items_exact:
  assumes "\<forall>x \<in> set xs. item_ok C config layout x"
    and "unat g + weight (gas_in C config) xs < 2 ^ 128" "unat b + weight size_in xs < 2 ^ 64"
  shows "\<exists>g' b'. count_items C config (map Ok xs) g b = Ok (g', b')
    \<and> unat g' = unat g + weight (gas_in C config) xs \<and> unat b' = unat b + weight size_in xs"
  using assms
proof (induction xs arbitrary: g b)
  case (Cons x xs)
  note ok = item_okD [of C config layout x]
  obtain g1 b1 where 1: "checked_add g (ucast (item_gas C config x)) = Some g1" "unat g1 = unat g + gas_in C config x"
      "checked_add b (item_size x) = Some b1" "unat b1 = unat b + size_in x"
    using checked_add_fits [of g "ucast (item_gas C config x)"] checked_add_fits [of b "item_size x"] Cons.prems by auto
  then obtain g' b' where "count_items C config (map Ok xs) g1 b1 = Ok (g', b')"
      "unat g' = unat g1 + weight (gas_in C config) xs" "unat b' = unat b1 + weight size_in xs"
    using Cons.IH [of g1 b1] Cons.prems by auto
  then show ?case using 1 ok Cons.prems(1) by simp
qed simp

lemma count_buffers_exact:
  assumes "\<forall>(sh, q) \<in> set m. queue_ok C config layout q"
    and "unat g + total_of (gas_in C config) m < 2 ^ 128" "unat b + total_of size_in m < 2 ^ 64"
  shows "\<exists>g' b'. count_buffers C config m g b = Ok (g', b')
    \<and> unat g' = unat g + total_of (gas_in C config) m \<and> unat b' = unat b + total_of size_in m"
  using assms
proof (induction m arbitrary: g b)
  case (Cons e m)
  obtain sh q where e: "e = (sh, q)" by (cases e)
  have q: "tq_inv q" "\<forall>x \<in> set (tq_list q). item_ok C config layout x" using Cons.prems(1) e by (auto simp: queue_ok_def)
  obtain g1 b1 where 1: "count_items C config (tq_iter q) g b = Ok (g1, b1)"
      "unat g1 = unat g + weight (gas_in C config) (tq_list q)" "unat b1 = unat b + weight size_in (tq_list q)"
    using count_items_exact [OF q(2), of g b] Cons.prems(2,3) e tq_iter_list [OF q(1)] by (auto simp: total_of_def)
  then obtain g' b' where "count_buffers C config m g1 b1 = Ok (g', b')"
      "unat g' = unat g1 + total_of (gas_in C config) m" "unat b' = unat b1 + total_of size_in m"
    using Cons.IH [of g1 b1] Cons.prems e by (auto simp: total_of_def)
  then show ?case using 1 e by (simp add: total_of_def)
qed (simp add: total_of_def)

lemma bootstrap_exact:
  assumes ok: "sink_ok C config layout delayed sink"
  shows "bootstrap_congestion_info C config shard delayed (outgoing_buffers sink)
    = Ok ((own_congestion_info sink) \<lparr> allowed_shard := ucast shard \<rparr>)"
proof -
  let ?info = "own_congestion_info sink"
  have sums: "unat (delayed_receipts_gas ?info) = weight (gas_in C config) (tq_list delayed)"
      "unat (buffered_receipts_gas ?info) = total_of (gas_in C config) (outgoing_buffers sink)"
      "unat (receipt_bytes ?info) = weight size_in (tq_list delayed) + total_of size_in (outgoing_buffers sink)"
    and q: "tq_inv delayed" "\<forall>x \<in> set (tq_list delayed). item_ok C config layout x"
      "\<forall>(sh, q) \<in> set (outgoing_buffers sink). queue_ok C config layout q"
    using ok by (auto simp: sink_ok_def queue_ok_def)
  have bnd: "unat (delayed_receipts_gas ?info) < 2 ^ 128" "unat (buffered_receipts_gas ?info) < 2 ^ 128" "unat (receipt_bytes ?info) < 2 ^ 64"
    using unat_bound [of "delayed_receipts_gas ?info"] unat_bound [of "buffered_receipts_gas ?info"] unat_bound [of "receipt_bytes ?info"] by simp_all
  obtain g1 b1 where 1: "count_items C config (tq_iter delayed) 0 0 = Ok (g1, b1)"
      "unat g1 = weight (gas_in C config) (tq_list delayed)" "unat b1 = weight size_in (tq_list delayed)"
    using count_items_exact [OF q(2), of 0 0] sums bnd tq_iter_list [OF q(1)] by auto
  obtain g2 b2 where 2: "count_buffers C config (outgoing_buffers sink) 0 b1 = Ok (g2, b2)"
      "unat g2 = total_of (gas_in C config) (outgoing_buffers sink)" "unat b2 = unat b1 + total_of size_in (outgoing_buffers sink)"
    using count_buffers_exact [OF q(3), of 0 b1] 1(3) sums bnd by auto
  have "g1 = delayed_receipts_gas ?info" "g2 = buffered_receipts_gas ?info" "b2 = receipt_bytes ?info"
    using 1 2 sums by (simp_all add: word_unat_eq_iff)
  then show ?thesis using 1(1) 2(1) by (simp add: bootstrap_congestion_info_def)
qed

section \<open>Forwarding from the buffers\<close>

lemma try_forward_frame:
  assumes "try_forward config receipt gas n shard sink = (fwd, sink')"
  shows "own_congestion_info sink' = own_congestion_info sink" "outgoing_buffers sink' = outgoing_buffers sink"
    "outgoing_metadatas sink' = outgoing_metadatas sink"
    "outgoing_receipts sink' = outgoing_receipts sink @ (if fwd then [receipt] else [])"
  using assms by (auto simp: try_forward_def Let_def split: if_splits)

text \<open>The loop forwards the first receipts of the buffer and takes them off the counters.\<close>

definition forwarded_state :: "'e crypto_scheme \<Rightarrow> RuntimeConfig \<Rightarrow> ReceiptOrStateStoredReceipt list \<Rightarrow> ReceiptSink \<Rightarrow> ReceiptSink \<Rightarrow> bool" where
  "forwarded_state C config ys sink sink' \<longleftrightarrow> outgoing_buffers sink' = outgoing_buffers sink
     \<and> outgoing_metadatas sink' = outgoing_metadatas sink
     \<and> outgoing_receipts sink' = outgoing_receipts sink @ map into_receipt ys
     \<and> delayed_receipts_gas (own_congestion_info sink') = delayed_receipts_gas (own_congestion_info sink)
     \<and> unat (buffered_receipts_gas (own_congestion_info sink')) + weight (gas_in C config) ys = unat (buffered_receipts_gas (own_congestion_info sink))
     \<and> unat (receipt_bytes (own_congestion_info sink')) + weight size_in ys = unat (receipt_bytes (own_congestion_info sink))"

lemma forward_items_run:
  assumes "\<forall>x \<in> set xs. item_ok C config layout x"
    and "weight (gas_in C config) xs \<le> unat (buffered_receipts_gas (own_congestion_info sink))"
    and "weight size_in xs \<le> unat (receipt_bytes (own_congestion_info sink))"
  shows "\<exists>sink' ys zs. xs = ys @ zs \<and> forwarded_state C config ys sink sink'
    \<and> forward_items C config layout (map Ok xs) sink n ups = Ok (sink', n + word_of_nat (length ys), ups @ tracked C config ys)"
  using assms
proof (induction xs arbitrary: sink n ups)
  case Nil
  then show ?case by (simp add: forwarded_state_def)
next
  case (Cons x xs)
  note ok = item_okD [of C config layout x]
  obtain sh where sh: "receiver_shard_id layout (into_receipt x) = Ok sh" using ok(4) Cons.prems(1) by auto
  obtain fwd sink1 where tf: "try_forward config (into_receipt x) (item_gas C config x) (item_size x) sh sink = (fwd, sink1)"
    by fastforce
  note fr = try_forward_frame [OF tf]
  show ?case
  proof (cases fwd)
    case False
    then show ?thesis using tf fr ok sh Cons.prems(1)
      by (intro exI [of _ sink1] exI [of _ "[]"] exI [of _ "x # xs"]) (simp add: forwarded_state_def)
  next
    case True
    let ?info = "own_congestion_info sink"
    obtain b g where bg: "checked_sub (receipt_bytes ?info) (item_size x) = Some b" "unat b = unat (receipt_bytes ?info) - size_in x"
        "checked_sub (buffered_receipts_gas ?info) (ucast (item_gas C config x)) = Some g"
        "unat g = unat (buffered_receipts_gas ?info) - gas_in C config x"
      using checked_sub_fits [of "item_size x" "receipt_bytes ?info"]
        checked_sub_fits [of "ucast (item_gas C config x)" "buffered_receipts_gas ?info"] Cons.prems(2,3) by auto
    define sink2 where "sink2 = sink1 \<lparr> own_congestion_info := ?info \<lparr> receipt_bytes := b, buffered_receipts_gas := g \<rparr> \<rparr>"
    let ?up = "if should_update_outgoing_metadatas x then [(item_size x, item_gas C config x)] else []"
    have pr: "\<forall>x \<in> set xs. item_ok C config layout x"
        "weight (gas_in C config) xs \<le> unat (buffered_receipts_gas (own_congestion_info sink2))"
        "weight size_in xs \<le> unat (receipt_bytes (own_congestion_info sink2))"
      using Cons.prems bg by (auto simp: sink2_def)
    obtain sink' ys zs where IH: "xs = ys @ zs" "forwarded_state C config ys sink2 sink'"
        "forward_items C config layout (map Ok xs) sink2 (n + 1) (ups @ ?up)
          = Ok (sink', n + 1 + word_of_nat (length ys), (ups @ ?up) @ tracked C config ys)"
      using Cons.IH [OF pr, of "n + 1" "ups @ ?up"] by blast
    have "forward_items C config layout (map Ok (x # xs)) sink n ups = forward_items C config layout (map Ok xs) sink2 (n + 1) (ups @ ?up)"
      using tf True fr(1) ok sh Cons.prems(1) bg by (simp add: sink2_def remove_receipt_bytes_def remove_buffered_receipt_gas_def)
    moreover have "forwarded_state C config (x # ys) sink sink'"
      using IH(2) fr True bg(2,4) Cons.prems(2,3) by (auto simp: forwarded_state_def sink2_def)
    ultimately show ?thesis using IH(1,3)
      by (intro exI [of _ sink'] exI [of _ "x # ys"] exI [of _ zs]) (simp add: add.assoc)
  qed
qed

lemma pop_metadata_run:
  assumes "case metadatas om shard of None \<Rightarrow> us @ rest = [] | Some mq \<Rightarrow> represents (groups_config om) (us @ rest) mq"
    and "\<forall>r \<in> set (us @ rest). 0 < fst r"
  shows "\<exists>om'. pop_metadata shard us om = Ok om' \<and> groups_config om' = groups_config om
    \<and> (\<forall>s. s \<noteq> shard \<longrightarrow> metadatas om' s = metadatas om s)
    \<and> (case metadatas om' shard of None \<Rightarrow> rest = [] | Some mq \<Rightarrow> represents (groups_config om') rest mq)"
  using assms
proof (induction us arbitrary: om)
  case Nil
  then show ?case by (auto split: option.splits)
next
  case (Cons u us)
  obtain s g where u: "u = (s, g)" by (cases u)
  obtain mq where mq: "metadatas om shard = Some mq" "represents (groups_config om) ((s, g) # us @ rest) mq"
    using Cons.prems(1) u by (auto split: option.splits)
  obtain mq' where mq': "groups_popped s g mq = Ok mq'" "represents (groups_config om) (us @ rest) mq'"
    using represents_popped [OF mq(2)] Cons.prems(2) by auto
  define om1 where "om1 = om \<lparr> metadatas := (metadatas om)(shard \<mapsto> mq') \<rparr>"
  have "metadata_popped shard s g om = Ok om1" using mq(1) mq'(1) by (simp add: metadata_popped_def om1_def)
  moreover obtain om' where "pop_metadata shard us om1 = Ok om'" "groups_config om' = groups_config om1"
      "\<forall>s. s \<noteq> shard \<longrightarrow> metadatas om' s = metadatas om1 s"
      "case metadatas om' shard of None \<Rightarrow> rest = [] | Some mq \<Rightarrow> represents (groups_config om') rest mq"
    using Cons.IH [of om1] mq'(2) Cons.prems(2) by (auto simp: om1_def)
  ultimately show ?case using u mq by (auto simp: om1_def split: option.splits)
qed

text \<open>One buffer.\<close>

lemma buffers_insert_ok:
  assumes "bt_inv m" "\<forall>(sh, q) \<in> set m. queue_ok C config layout q" "queue_ok C config layout q"
  shows "\<forall>(sh, q) \<in> set (bt_insert shard q m). queue_ok C config layout q"
proof -
  have "queue_ok C config layout q'" if "(sh, q') \<in> set (bt_insert shard q m)" for sh q'
  proof -
    have "bt_get (bt_insert shard q m) sh = Some q'" using that bt.entries_iff [OF bt_inv_insert [OF assms(1)]] by simp
    then show ?thesis
      using assms bt.entries_iff [OF assms(1)] by (auto simp: bt_get_insert split: if_splits)
  qed
  then show ?thesis by auto
qed

lemma tracked_positive:
  assumes "queue_ok C config layout q"
  shows "\<forall>r \<in> set (tracked C config (tq_list q)). 0 < fst r"
  using assms by (auto simp: tracked_def queue_ok_def item_ok_def)

lemma copies_map: "count_list (map into_receipt xs) r = weight (\<lambda>x. if into_receipt x = r then 1 else 0) xs"
  by (induction xs) simp_all

lemma popped_buffer:
  assumes ok: "sink_ok C config layout delayed sink" and parts: "tq_list (to_shard shard (outgoing_buffers sink)) = ys @ zs"
    and pop: "pop_n (word_of_nat (length ys)) (to_shard shard (outgoing_buffers sink)) = (k, q')"
  defines "m \<equiv> if 0 < k then bt_insert shard q' (outgoing_buffers sink) else outgoing_buffers sink"
  shows "bt_inv m" "\<forall>(sh, q) \<in> set m. queue_ok C config layout q" "tq_list (to_shard shard m) = zs"
    "\<And>sh. sh \<noteq> shard \<Longrightarrow> to_shard sh m = to_shard sh (outgoing_buffers sink)"
    "\<And>w. total_of w m + weight w ys = total_of w (outgoing_buffers sink)"
proof -
  let ?m = "outgoing_buffers sink" and ?q = "to_shard shard (outgoing_buffers sink)"
  have inv: "bt_inv ?m" and old: "\<forall>(sh, q) \<in> set ?m. queue_ok C config layout q"
    and q: "tq_inv ?q" "\<forall>x \<in> set (tq_list ?q). item_ok C config layout x"
    using ok to_shard_ok [OF ok, of shard] by (auto simp: sink_ok_def queue_ok_def)
  have "length ys < 2 ^ 64" using tq_len_list [OF q(1)] unat_bound [of "tq_len ?q"] parts by simp
  then have "unat (word_of_nat (length ys) :: u64) = length ys" by (simp add: unat_word_of_nat)
  then have k: "unat k = length ys" "tq_inv q'" "tq_list q' = zs" using pop_n_list [OF q(1) pop] parts by auto
  have nil: "ys = [] \<and> tq_list ?q = zs" if "\<not> 0 < k" using that k(1) parts by (simp add: word_less_nat_alt)
  have "queue_ok C config layout q'" using k(2,3) q(2) parts by (simp add: queue_ok_def)
  then show "\<forall>(sh, q) \<in> set m. queue_ok C config layout q"
    using buffers_insert_ok [OF inv old, of q' shard] old by (simp add: m_def)
  show "tq_list (to_shard shard m) = zs" using k(3) nil by (simp add: m_def)
  show "total_of w m + weight w ys = total_of w ?m" for w
    using total_insert [OF inv, of w shard q'] k(3) parts nil by (simp add: m_def)
  show "bt_inv m" using inv by (simp add: m_def bt_inv_insert)
  show "to_shard sh m = to_shard sh ?m" if "sh \<noteq> shard" for sh using that by (simp add: m_def)
qed

lemma forward_to_shard_ok:
  assumes ok: "sink_ok C config layout delayed sink"
  shows "\<exists>sink'. forward_from_buffer_to_shard C config layout shard sink = Ok sink' \<and> sink_ok C config layout delayed sink'
    \<and> (\<forall>r. copies r sink' = copies r sink)
    \<and> (\<forall>sh. tq_list (to_shard sh (outgoing_buffers sink)) = [] \<longrightarrow> tq_list (to_shard sh (outgoing_buffers sink')) = [])"
proof -
  let ?m = "outgoing_buffers sink" and ?om = "outgoing_metadatas sink"
  define q where "q = to_shard shard ?m"
  have inv: "bt_inv ?m" and q: "tq_inv q" "\<forall>x \<in> set (tq_list q). item_ok C config layout x"
    using ok to_shard_ok [OF ok, of shard] by (auto simp: sink_ok_def queue_ok_def q_def)
  obtain sink1 ys zs where run: "tq_list q = ys @ zs" "forwarded_state C config ys sink sink1"
      "forward_items C config layout (tq_iter q) sink 0 [] = Ok (sink1, word_of_nat (length ys), tracked C config ys)"
    using forward_items_run [OF q(2), of sink 0 "[]"] tq_iter_list [OF q(1)] ok total_part [OF inv, of _ shard]
    by (auto simp: sink_ok_def q_def trans_le_add2)
  obtain k q' where pop: "pop_n (word_of_nat (length ys)) q = (k, q')" by fastforce
  define m' where "m' = (if 0 < k then bt_insert shard q' ?m else ?m)"
  note pb = popped_buffer [OF ok run(1) [unfolded q_def] pop [unfolded q_def], folded m'_def]
  have mok: "case metadatas ?om shard of None \<Rightarrow> tracked C config ys @ tracked C config zs = []
      | Some mq \<Rightarrow> represents (groups_config ?om) (tracked C config ys @ tracked C config zs) mq"
    using ok run(1) by (simp add: sink_ok_def meta_ok_def q_def) (metis tracked_simps(2))
  obtain om where om: "pop_metadata shard (tracked C config ys) ?om = Ok om" "groups_config om = groups_config ?om"
      "\<forall>s. s \<noteq> shard \<longrightarrow> metadatas om s = metadatas ?om s"
      "case metadatas om shard of None \<Rightarrow> tracked C config zs = [] | Some mq \<Rightarrow> represents (groups_config om) (tracked C config zs) mq"
    using pop_metadata_run [OF mok] tracked_positive [of C config layout q] q run(1) by (auto simp: queue_ok_def)
  define sink' where "sink' = sink1 \<lparr> outgoing_metadatas := om, outgoing_buffers := m' \<rparr>"
  note fs = run(2) [unfolded forwarded_state_def]
  have res: "forward_from_buffer_to_shard C config layout shard sink = Ok sink'"
    using run(3) pop om(1) fs by (simp add: forward_from_buffer_to_shard_def sink'_def m'_def flip: q_def)
  have "meta_ok C config om m'"
    unfolding meta_ok_def
  proof
    fix sh
    have "case metadatas ?om sh of None \<Rightarrow> tracked C config (tq_list (to_shard sh ?m)) = []
      | Some mq \<Rightarrow> represents (groups_config ?om) (tracked C config (tq_list (to_shard sh ?m))) mq"
      using ok unfolding sink_ok_def meta_ok_def by (elim conjE) (erule spec)
    then show "case metadatas om sh of None \<Rightarrow> tracked C config (tq_list (to_shard sh m')) = []
      | Some mq \<Rightarrow> represents (groups_config om) (tracked C config (tq_list (to_shard sh m'))) mq"
      using om(2-4) pb(3,4) by (cases "sh = shard") (simp_all split: option.splits)
  qed
  then have "sink_ok C config layout delayed sink'"
    unfolding sink_ok_def
    using ok fs pb(1,2) pb(5) [of "gas_in C config"] pb(5) [of size_in] by (simp add: sink_ok_def sink'_def)
  moreover have "copies r sink' = copies r sink" for r
    using fs pb(5) [of "\<lambda>x. if into_receipt x = r then 1 else 0"] copies_map [of ys r] by (simp add: copies_def sink'_def)
  moreover have "tq_list (to_shard sh m') = []" if "tq_list (to_shard sh ?m) = []" for sh
    using that pb(3,4) run(1) by (cases "sh = shard") (simp_all add: q_def)
  ultimately show ?thesis using res by (intro exI [of _ sink']) (simp add: sink'_def)
qed

lemma tq_len_zero: "tq_inv q \<Longrightarrow> tq_len q = 0 \<longleftrightarrow> tq_list q = []"
  using tq_len_list [of q] by (metis length_0_conv unat_eq_zero)

text \<open>All buffers, in the order of the shards. The flag says that every one is empty at the end.\<close>

lemma forward_buffers_ok:
  assumes "sink_ok C config layout delayed sink"
  shows "\<exists>sink' b. forward_buffers C config layout shards sink e = Ok (sink', b) \<and> sink_ok C config layout delayed sink'
    \<and> (\<forall>r. copies r sink' = copies r sink)
    \<and> (\<forall>sh. tq_list (to_shard sh (outgoing_buffers sink)) = [] \<longrightarrow> tq_list (to_shard sh (outgoing_buffers sink')) = [])
    \<and> (b \<longrightarrow> e \<and> (\<forall>sh \<in> set shards. tq_list (to_shard sh (outgoing_buffers sink')) = []))"
  using assms
proof (induction shards arbitrary: sink e)
  case (Cons shard shards)
  obtain sink1 where 1: "forward_from_buffer_to_shard C config layout shard sink = Ok sink1" "sink_ok C config layout delayed sink1"
      "\<forall>r. copies r sink1 = copies r sink"
      "\<forall>sh. tq_list (to_shard sh (outgoing_buffers sink)) = [] \<longrightarrow> tq_list (to_shard sh (outgoing_buffers sink1)) = []"
    using forward_to_shard_ok [OF Cons.prems] by blast
  define e1 where "e1 \<longleftrightarrow> e \<and> tq_len (to_shard shard (outgoing_buffers sink1)) = 0"
  have e1: "e1 \<longleftrightarrow> e \<and> tq_list (to_shard shard (outgoing_buffers sink1)) = []"
    using to_shard_ok [OF 1(2), of shard] by (simp add: e1_def queue_ok_def tq_len_zero)
  obtain sink2 b where 2: "forward_buffers C config layout shards sink1 e1 = Ok (sink2, b)" "sink_ok C config layout delayed sink2"
      "\<forall>r. copies r sink2 = copies r sink1"
      "\<forall>sh. tq_list (to_shard sh (outgoing_buffers sink1)) = [] \<longrightarrow> tq_list (to_shard sh (outgoing_buffers sink2)) = []"
      "b \<longrightarrow> e1 \<and> (\<forall>sh \<in> set shards. tq_list (to_shard sh (outgoing_buffers sink2)) = [])"
    using Cons.IH [OF 1(2), of e1] by blast
  have "forward_buffers C config layout (shard # shards) sink e = Ok (sink2, b)" using 1(1) 2(1) by (simp add: e1_def)
  then show ?case using 1(3,4) 2(2-5) e1 by (intro exI [of _ sink2] exI [of _ b]) simp
qed simp

lemma total_empty:
  assumes "bt_inv m" "\<And>sh. tq_list (to_shard sh m) = []"
  shows "total_of w m = 0"
proof -
  have "tq_list q = []" if "(sh, q) \<in> set m" for sh q
    using that assms(2) [of sh] bt.entries_iff [OF assms(1), of sh q] by (simp add: to_shard_def)
  then have "\<forall>e \<in> set m. weight w (tq_list (snd e)) = 0" by force
  then show ?thesis by (induction m) (auto simp: total_of_def)
qed

text \<open>
  Forwarding never fails: the check at its end, that no gas is counted once all buffers are empty, holds when every
  non-empty buffer is one of those that are looked at.
\<close>

lemma forward_from_buffer_ok:
  assumes ok: "sink_ok C config layout delayed sink" and parents: "get_split_parent_shard_ids layout = Ok parents"
    and known: "\<And>sh. tq_list (to_shard sh (outgoing_buffers sink)) \<noteq> [] \<Longrightarrow> sh \<in> set parents \<union> set (shard_ids layout)"
  shows "\<exists>sink'. forward_from_buffer C config layout sink = Ok sink' \<and> sink_ok C config layout delayed sink'
    \<and> (\<forall>r. copies r sink' = copies r sink)"
proof -
  obtain sink' b where f: "forward_buffers C config layout (parents @ shard_ids layout) sink True = Ok (sink', b)"
      "sink_ok C config layout delayed sink'" "\<forall>r. copies r sink' = copies r sink"
      "\<forall>sh. tq_list (to_shard sh (outgoing_buffers sink)) = [] \<longrightarrow> tq_list (to_shard sh (outgoing_buffers sink')) = []"
      "b \<longrightarrow> (\<forall>sh \<in> set (parents @ shard_ids layout). tq_list (to_shard sh (outgoing_buffers sink')) = [])"
    using forward_buffers_ok [OF ok] by blast
  have "buffered_receipts_gas (own_congestion_info sink') = 0" if b
  proof -
    have "tq_list (to_shard sh (outgoing_buffers sink')) = []" for sh
      using known [of sh] f(4,5) that by (cases "tq_list (to_shard sh (outgoing_buffers sink)) = []") auto
    then have "total_of (gas_in C config) (outgoing_buffers sink') = 0" using total_empty f(2) by (simp add: sink_ok_def)
    then show ?thesis using f(2) by (simp add: sink_ok_def unat_eq_0)
  qed
  then show ?thesis using f(1-3) parents by (simp add: forward_from_buffer_def)
qed

section \<open>Sinking a receipt\<close>

text \<open>The item that stands for a receipt in a buffer counts with the gas and the size computed for the receipt.\<close>

lemma new_item:
  assumes "receiver_shard_id layout receipt = Ok shard" "compute_receipt_size receipt = Ok n"
    "compute_receipt_congestion_gas C config receipt = Ok g"
  defines "item \<equiv> if use_state_stored_receipt config
    then StoredReceipt (SsrV1 receipt \<lparr> congestion_gas = g, congestion_size = n \<rparr>) else PlainReceipt receipt"
  shows "item_ok C config layout item" "item_gas C config item = g" "item_size item = n" "into_receipt item = receipt"
proof -
  show i: "item_gas C config item = g" "item_size item = n" "into_receipt item = receipt"
    using assms by (simp_all add: item_gas_def item_size_def)
  have "0 < length (borsh_receipt receipt)" by (simp add: borsh_receipt_def borsh_string_def borsh_len_def)
  then have "0 < n" using assms(2)
    by (auto simp: compute_receipt_size_def Let_def word_less_nat_alt unat_word_of_nat split: if_splits)
  then show "item_ok C config layout item" using i assms by (simp add: item_ok_def is_ok_iff)
qed

lemma sizes_tracked: "sizes (tracked C config xs) \<le> weight size_in xs"
  by (induction xs) auto

lemma metadata_push_ok:
  assumes meta: "case metadatas om shard of None \<Rightarrow> rs = [] | Some mq \<Rightarrow> represents (groups_config om) rs mq"
    and pos: "\<forall>r \<in> set rs. 0 < fst r" "0 < s" and fits: "sizes rs + unat s < 2 ^ 64"
    and push: "metadata_pushed shard s g om = Ok om'"
  shows "groups_config om' = groups_config om" "\<forall>sh. sh \<noteq> shard \<longrightarrow> metadatas om' sh = metadatas om sh"
    "\<exists>mq. metadatas om' shard = Some mq \<and> represents (groups_config om) (rs @ [(s, g)]) mq"
proof -
  define q where "q = (case metadatas om shard of Some q \<Rightarrow> q | None \<Rightarrow> new_groups_queue)"
  have "represents (groups_config om) rs q"
    using meta represents_new by (auto simp: q_def split: option.splits)
  moreover obtain q' where q': "groups_pushed (groups_config om) s g q = Ok q'" "om' = om \<lparr> metadatas := (metadatas om)(shard \<mapsto> q') \<rparr>"
    using push by (auto simp: metadata_pushed_def result_simps simp flip: q_def)
  ultimately have "represents (groups_config om) (rs @ [(s, g)]) q'"
    using represents_pushed [OF _ pos fits, of "groups_config om" q g] by simp
  then show "groups_config om' = groups_config om" "\<forall>sh. sh \<noteq> shard \<longrightarrow> metadatas om' sh = metadatas om sh"
      "\<exists>mq. metadatas om' shard = Some mq \<and> represents (groups_config om) (rs @ [(s, g)]) mq"
    using q'(2) by simp_all
qed

lemma buffer_receipt_ok:
  assumes ok: "sink_ok C config layout delayed sink" and r: "receiver_shard_id layout receipt = Ok shard"
      "compute_receipt_size receipt = Ok n" "compute_receipt_congestion_gas C config receipt = Ok g"
    and res: "buffer_receipt config receipt n g shard sink = Ok sink'"
  shows "sink_ok C config layout delayed sink'" "copies x sink' = copies x sink + (if x = receipt then 1 else 0)"
proof -
  let ?m = "outgoing_buffers sink" and ?om = "outgoing_metadatas sink" and ?info = "own_congestion_info sink"
  define item where "item = (if use_state_stored_receipt config
    then StoredReceipt (SsrV1 receipt \<lparr> congestion_gas = g, congestion_size = n \<rparr>) else PlainReceipt receipt)"
  note new = new_item [OF r, folded item_def]
  obtain b g' om q' where st: "checked_add (receipt_bytes ?info) n = Some b" "checked_add (buffered_receipts_gas ?info) (ucast g) = Some g'"
      "(if should_update_outgoing_metadatas item then metadata_pushed shard n g ?om else Ok ?om) = Ok om"
      "push_back item (to_shard shard ?m) = Ok q'"
    and sink': "sink' = sink \<lparr> own_congestion_info := ?info \<lparr> receipt_bytes := b, buffered_receipts_gas := g' \<rparr>,
      outgoing_metadatas := om, outgoing_buffers := bt_insert shard q' ?m \<rparr>"
    using res by (auto simp: buffer_receipt_def add_receipt_bytes_def add_buffered_receipt_gas_def result_simps simp flip: item_def)
  note nums = st(1,2) [unfolded checked_add_Some]
  have inv: "bt_inv ?m" and old: "\<forall>(sh, q) \<in> set ?m. queue_ok C config layout q"
    and tq: "queue_ok C config layout (to_shard shard ?m)"
    using ok to_shard_ok [OF ok, of shard] by (auto simp: sink_ok_def)
  have q': "tq_inv q'" "tq_list q' = tq_list (to_shard shard ?m) @ [item]"
    using push_back_Ok [OF _ st(4)] tq by (auto simp: queue_ok_def)
  then have q'ok: "queue_ok C config layout q'" using tq new(1) by (auto simp: queue_ok_def)
  have tot: "total_of w (bt_insert shard q' ?m) = total_of w ?m + w item" for w
    using total_insert [OF inv, of w shard q'] q'(2) by simp
  show "copies x sink' = copies x sink + (if x = receipt then 1 else 0)" using new(4) by (simp add: sink' copies_def tot)
  have mok: "case metadatas ?om s of None \<Rightarrow> tracked C config (tq_list (to_shard s ?m)) = []
      | Some mq \<Rightarrow> represents (groups_config ?om) (tracked C config (tq_list (to_shard s ?m))) mq" for s
    using ok unfolding sink_ok_def meta_ok_def by (elim conjE) (erule spec)
  have "sizes (tracked C config (tq_list (to_shard shard ?m))) \<le> unat (receipt_bytes ?info)"
    using sizes_tracked [of C config "tq_list (to_shard shard ?m)"] total_part [OF inv, of size_in shard] ok
    by (simp add: sink_ok_def)
  then have fits: "sizes (tracked C config (tq_list (to_shard shard ?m))) + unat n < 2 ^ 64"
    using nums(1) unat_bound [of b] by simp
  note mp = metadata_push_ok [OF mok tracked_positive [OF tq] _ fits]
  have "0 < n" using item_okD(3) [OF new(1)] new(3) by simp
  have "case metadatas om s of None \<Rightarrow> tracked C config (tq_list (to_shard s (bt_insert shard q' ?m))) = []
      | Some mq \<Rightarrow> represents (groups_config om) (tracked C config (tq_list (to_shard s (bt_insert shard q' ?m)))) mq" for s
    using st(3) mp(1-3) [OF \<open>0 < n\<close>, of g om] mok [of s] q'(2) new(2,3)
    by (cases "s = shard") (auto split: if_splits option.splits)
  then have "meta_ok C config om (bt_insert shard q' ?m)" by (simp add: meta_ok_def)
  then show "sink_ok C config layout delayed sink'"
    using ok buffers_insert_ok [OF inv old q'ok, of shard] inv nums new(2,3)
    by (simp add: sink_ok_def sink' tot bt_inv_insert)
qed

lemma forward_or_buffer_ok:
  assumes ok: "sink_ok C config layout delayed sink"
    and res: "forward_or_buffer_receipt C config layout receipt sink = Ok sink'"
  shows "sink_ok C config layout delayed sink'" "copies x sink' = copies x sink + (if x = receipt then 1 else 0)"
proof -
  obtain shard n g where r: "receiver_shard_id layout receipt = Ok shard" "compute_receipt_size receipt = Ok n"
      "compute_receipt_congestion_gas C config receipt = Ok g"
    using res by (auto simp: forward_or_buffer_receipt_def result_simps)
  obtain fwd sink1 where f: "try_forward config receipt g n shard sink = (fwd, sink1)" by fastforce
  note fr = try_forward_frame [OF f]
  have ok1: "sink_ok C config layout delayed sink1" using ok fr by (simp add: sink_ok_def)
  have c1: "copies x sink1 = copies x sink + (if fwd \<and> x = receipt then 1 else 0)"
    using fr by (auto simp: copies_def)
  have res1: "(if fwd then Ok sink1 else buffer_receipt config receipt n g shard sink1) = Ok sink'"
    using res r f by (simp add: forward_or_buffer_receipt_def split: bool.splits)
  note b = buffer_receipt_ok [OF ok1 r, of sink']
  show "sink_ok C config layout delayed sink'" using res1 ok1 b(1) by (cases fwd) auto
  show "copies x sink' = copies x sink + (if x = receipt then 1 else 0)"
    using res1 c1 b(2) [of x] by (cases fwd) auto
qed

section \<open>Delayed receipts\<close>

text \<open>What the wrapper has noted is the difference between its queue and the queue at the start of the chunk.\<close>

definition delayed_ok :: "'e crypto_scheme \<Rightarrow> RuntimeConfig \<Rightarrow> ShardLayoutV2 \<Rightarrow> receipt_queue \<Rightarrow> DelayedReceiptQueueWrapper \<Rightarrow> bool" where
  "delayed_ok C config layout q0 dq \<longleftrightarrow> queue_ok C config layout (dq_queue dq)
     \<and> weight (gas_in C config) (tq_list (dq_queue dq)) + unat (removed_delayed_gas dq)
         = weight (gas_in C config) (tq_list q0) + unat (new_delayed_gas dq)
     \<and> weight size_in (tq_list (dq_queue dq)) + unat (removed_delayed_bytes dq)
         = weight size_in (tq_list q0) + unat (new_delayed_bytes dq)"

lemma delayed_push_ok:
  assumes ok: "delayed_ok C config layout q0 dq" and r: "receiver_shard_id layout receipt = Ok shard"
    and res: "delayed_push C config receipt dq = Ok dq'"
  shows "delayed_ok C config layout q0 dq'"
proof -
  obtain gas n g b q where st: "compute_receipt_congestion_gas C config receipt = Ok gas" "compute_receipt_size receipt = Ok n"
      "checked_add (new_delayed_gas dq) gas = Some g" "checked_add (new_delayed_bytes dq) n = Some b"
      "push_back (if use_state_stored_receipt config
          then StoredReceipt (SsrV1 receipt \<lparr> congestion_gas = gas, congestion_size = n \<rparr>) else PlainReceipt receipt) (dq_queue dq) = Ok q"
      "dq' = dq \<lparr> dq_queue := q, new_delayed_gas := g, new_delayed_bytes := b \<rparr>"
    using res by (auto simp: delayed_push_def Let_def result_simps)
  note new = new_item [OF r st(2,1)]
  have "tq_inv (dq_queue dq)" using ok by (simp add: delayed_ok_def queue_ok_def)
  note q = push_back_Ok [OF this st(5)]
  show ?thesis using ok q new(1-3) st(3,4) by (auto simp: delayed_ok_def queue_ok_def st(6) checked_add_Some)
qed

lemma delayed_push_list:
  assumes "tq_inv (dq_queue dq)" "delayed_push C config receipt dq = Ok dq'"
  shows "tq_inv (dq_queue dq')" "map into_receipt (tq_list (dq_queue dq')) = map into_receipt (tq_list (dq_queue dq)) @ [receipt]"
  using assms push_back_Ok [OF assms(1)] by (auto simp: delayed_push_def Let_def result_simps split: if_splits)

text \<open>
  What a successful call takes off the queue: nothing, the first receipt, or the first receipt for a sibling shard and then more.
\<close>

inductive pops ::
  "'e crypto_scheme \<Rightarrow> RuntimeConfig \<Rightarrow> ShardLayoutV2 \<Rightarrow> ShardId \<Rightarrow> DelayedReceiptQueueWrapper \<Rightarrow> Receipt option
     \<Rightarrow> DelayedReceiptQueueWrapper \<Rightarrow> bool"
  for C config layout shard where
  pops_none: "tq_inv q \<Longrightarrow> tq_list q = tq_list (dq_queue dq) \<Longrightarrow> pops C config layout shard dq None (dq \<lparr> dq_queue := q \<rparr>)"
| pops_item: "tq_inv q \<Longrightarrow> tq_list (dq_queue dq) = item # tq_list q
    \<Longrightarrow> receipt_congestion_gas C config item = Ok gas \<Longrightarrow> receipt_size item = Ok sz
    \<Longrightarrow> checked_add (removed_delayed_gas dq) gas = Some g \<Longrightarrow> checked_add (removed_delayed_bytes dq) sz = Some b
    \<Longrightarrow> dq1 = dq \<lparr> dq_queue := q, removed_delayed_gas := g, removed_delayed_bytes := b \<rparr>
    \<Longrightarrow> receiver_shard_id layout (into_receipt item) = Ok sh
    \<Longrightarrow> (if sh = shard then x = Some (into_receipt item) \<and> dq' = dq1 else pops C config layout shard dq1 x dq')
    \<Longrightarrow> pops C config layout shard dq x dq'"

lemma delayed_pop_pops:
  assumes "tq_inv (dq_queue dq)" "delayed_pop C config layout shard exceeded dq = Ok (x, dq')"
  shows "pops C config layout shard dq x dq'"
  using assms
proof (induction C config layout shard exceeded dq rule: delayed_pop.induct)
  case (1 C config layout shard exceeded dq)
  obtain q where q: "pop_front (dq_queue dq) = Ok (if tq_list (dq_queue dq) = [] then None else Some (hd (tq_list (dq_queue dq))), q)"
      "tq_inv q" "tq_list q = tl (tq_list (dq_queue dq))"
    using pop_front_list [OF "1.prems"(1)] by blast
  note pop = "1.prems"(2) [unfolded delayed_pop.simps [of C config layout shard exceeded dq] q(1)]
  consider "exceeded (dq_queue dq)" | "\<not> exceeded (dq_queue dq)" "tq_list (dq_queue dq) = []"
    | item items where "\<not> exceeded (dq_queue dq)" "tq_list (dq_queue dq) = item # items"
    by (cases "tq_list (dq_queue dq)") auto
  then show ?case
  proof cases
    case 1
    then show ?thesis using pop pops_none [OF "1.prems"(1), of dq] by simp
  next
    case 2
    then show ?thesis using pop pops_none [OF q(2), of dq] q(3) by auto
  next
    case (3 item items)
    obtain gas sz g b sh where st: "receipt_congestion_gas C config item = Ok gas" "receipt_size item = Ok sz"
        "checked_add (removed_delayed_gas dq) gas = Some g" "checked_add (removed_delayed_bytes dq) sz = Some b"
        "receiver_shard_id layout (into_receipt item) = Ok sh"
      using pop 3 by (cases "receiver_shard_id layout (into_receipt item)") (auto simp: result_simps Let_def)
    define dq1 where "dq1 = dq \<lparr> dq_queue := q, removed_delayed_gas := g, removed_delayed_bytes := b \<rparr>"
    have "(if sh = shard then Ok (Some (into_receipt item), dq1) else delayed_pop C config layout shard exceeded dq1) = Ok (x, dq')"
      using pop 3 st by (simp add: dq1_def Let_def split: if_splits)
    moreover have "tq_inv (dq_queue dq1)" using q(2) by (simp add: dq1_def)
    ultimately have "if sh = shard then x = Some (into_receipt item) \<and> dq' = dq1 else pops C config layout shard dq1 x dq'"
      using "1.IH" [OF 3(1) q(1) refl _ dq1_def st(5)] 3(2) by (auto split: if_splits)
    then show ?thesis using pops_item [OF q(2) _ st(1-4) dq1_def st(5)] q(3) 3(2) by simp
  qed
qed

lemma delayed_pop_ok:
  assumes "delayed_ok C config layout q0 dq" "delayed_pop C config layout shard exceeded dq = Ok (x, dq')"
  shows "delayed_ok C config layout q0 dq'"
proof -
  have "pops C config layout shard dq x dq'" using assms by (intro delayed_pop_pops) (simp_all add: delayed_ok_def queue_ok_def)
  then show ?thesis using assms(1)
  proof (induction rule: pops.induct)
    case (pops_none q dq)
    then show ?case by (simp add: delayed_ok_def queue_ok_def)
  next
    case (pops_item q dq item gas sz g b dq1 sh x dq')
    have "item_gas C config item = gas" "item_size item = sz" using pops_item(3,4) by (simp_all add: item_gas_def item_size_def)
    then have "delayed_ok C config layout q0 dq1"
      using pops_item(1,2,5-7) pops_item.prems by (auto simp: delayed_ok_def queue_ok_def checked_add_Some)
    then show ?case using pops_item(9) by (auto split: if_splits)
  qed
qed

lemma delayed_pop_list:
  fixes layout shard
  defines "mine \<equiv> \<lambda>r. receiver_shard_id layout r = Ok shard"
  assumes "tq_inv (dq_queue dq)" "delayed_pop C config layout shard exceeded dq = Ok (x, dq')"
  shows "tq_inv (dq_queue dq') \<and> (\<exists>j. tq_list (dq_queue dq') = drop j (tq_list (dq_queue dq)) \<and> j \<le> length (tq_list (dq_queue dq))
    \<and> filter mine (map into_receipt (take j (tq_list (dq_queue dq)))) = (case x of Some r \<Rightarrow> [r] | None \<Rightarrow> []))"
  using delayed_pop_pops [OF assms(2,3)]
proof (induction rule: pops.induct)
  case (pops_none q dq)
  then show ?case by (auto intro!: exI [of _ 0])
next
  case (pops_item q dq item gas sz g b dq1 sh x dq')
  show ?case
  proof (cases "sh = shard")
    case True
    then show ?thesis using pops_item(1,2,7-9) by (auto simp: mine_def intro!: exI [of _ 1])
  next
    case False
    then obtain j where "tq_inv (dq_queue dq')" "tq_list (dq_queue dq') = drop j (tq_list q)" "j \<le> length (tq_list q)"
        "filter mine (map into_receipt (take j (tq_list q))) = (case x of Some r \<Rightarrow> [r] | None \<Rightarrow> [])"
      using pops_item(7,9) by auto
    then show ?thesis using pops_item(2,8) False by (auto simp: mine_def intro!: exI [of _ "Suc j"])
  qed
qed

lemma changes_exact:
  assumes ok: "sink_ok C config layout q0 sink" and dq: "delayed_ok C config layout q0 dq"
    and res: "apply_congestion_changes dq (own_congestion_info sink) = Ok info"
  shows "bootstrap_congestion_info C config shard (dq_queue dq) (outgoing_buffers sink) = Ok (info \<lparr> allowed_shard := ucast shard \<rparr>)"
proof -
  have "sink_ok C config layout (dq_queue dq) (sink \<lparr> own_congestion_info := info \<rparr>)"
    using ok dq res
    by (auto simp: sink_ok_def delayed_ok_def apply_congestion_changes_def add_delayed_receipt_gas_def remove_delayed_receipt_gas_def
        add_receipt_bytes_def remove_receipt_bytes_def result_simps checked_add_Some checked_sub_Some)
  then show ?thesis using bootstrap_exact [of C config layout "dq_queue dq" "sink \<lparr> own_congestion_info := info \<rparr>" shard] by simp
qed

end
