(* ===== verification/Chunk_Receipts.thy ===== *)
theory Chunk_Receipts
  imports Congestion_Exact Receipt_Waiting
begin

text \<open>
  The receipts of a chunk, \<open>Runtime::process_receipts\<close> of \<open>runtime/runtime/src/lib.rs\<close>: local receipts,
  then the backlog of delayed ones, then the incoming ones, and the timeouts of promise yields. When the compute
  or the proof size of the chunk is used up, local and incoming receipts are delayed. A receipt may make
  instant receipts, which are processed right after it. The receipts that are sent go to the receipt sink; the list of them
  in the processing state is kept whole. Whether the recorded proof is too large is a parameter.
  A loop that might not end gives \<open>None\<close>; preparation of contracts, prefetching, metrics and tracing are left out.
\<close>

section \<open>State\<close>

datatype ReceiptSource = LocalSource | DelayedSource | InstantSource

record ApplyProcessingReceiptState =
  pr_state :: ReceiptProcState
  pr_sink :: ReceiptSink
  pr_gas :: u64
  pr_compute :: u64
  pr_outcomes :: "ExecutionOutcomeWithId list"
  pr_processed :: "(Receipt \<times> ReceiptSource) list"

type_synonym 'a run = "('a, RuntimeError) result option"

text \<open>The next step of a computation that returned without error.\<close>

definition and_then :: "'a run \<Rightarrow> ('a \<Rightarrow> 'b run) \<Rightarrow> 'b run" where
  "and_then m f = Option.bind m (\<lambda>r. case r of Ok x \<Rightarrow> f x | Err e \<Rightarrow> Some (Err e))"

lemma and_then_simps [simp]: "and_then (Some (Ok x)) f = f x" "and_then (Some (Err e)) f = Some (Err e)" "and_then None f = None"
  by (simp_all add: and_then_def)

lemma and_then_mono [partial_function_mono]:
  assumes "mono_option A" "\<And>y. mono_option (\<lambda>f. B y f)"
  shows "mono_option (\<lambda>f. and_then (A f) (\<lambda>y. B y f))"
  unfolding and_then_def
proof (rule bind_mono [OF assms(1)])
  show "mono_option (\<lambda>f. case r of Ok x \<Rightarrow> B x f | Err e \<Rightarrow> Some (Err e))" for r
    using assms(2) by (cases r) (simp_all add: option.const_mono)
qed

definition total_add :: "u64 \<Rightarrow> u64 \<Rightarrow> ApplyProcessingReceiptState \<Rightarrow> (ApplyProcessingReceiptState, RuntimeError) result" where
  "total_add gas compute p =
     result_bind (ok_or (checked_add (pr_gas p) gas) overflow_error) (\<lambda>g.
     result_bind (ok_or (checked_add (pr_compute p) compute) overflow_error) (\<lambda>c.
       Ok (p \<lparr> pr_gas := g, pr_compute := c \<rparr>)))"

definition push_processed :: "Receipt \<Rightarrow> ReceiptSource \<Rightarrow> ApplyProcessingReceiptState \<Rightarrow> ApplyProcessingReceiptState" where
  "push_processed receipt source p = p \<lparr> pr_processed := pr_processed p @ [(receipt, source)] \<rparr>"

section \<open>One receipt\<close>

fun sink_receipts ::
  "'e crypto_scheme \<Rightarrow> RuntimeConfig \<Rightarrow> ShardLayoutV2 \<Rightarrow> Receipt list \<Rightarrow> ReceiptSink \<Rightarrow> (ReceiptSink, RuntimeError) result" where
  "sink_receipts C config layout [] sink = Ok sink"
| "sink_receipts C config layout (r # rs) sink =
     result_bind (forward_or_buffer_receipt C config layout r sink) (sink_receipts C config layout rs)"

definition process_receipt_with_metrics ::
  "'e crypto_scheme \<Rightarrow> RuntimeEnv \<Rightarrow> ApplyState \<Rightarrow> ShardLayoutV2 \<Rightarrow> Receipt \<Rightarrow> ApplyProcessingReceiptState
     \<Rightarrow> (ApplyProcessingReceiptState, RuntimeError) result" where
  "process_receipt_with_metrics C env st layout receipt p =
     result_bind (process_receipt C env st receipt (pr_state p)) (\<lambda>(ps, outcome).
     result_bind (sink_receipts C (as_config st) layout
         (drop (length (rp_outgoing (pr_state p))) (rp_outgoing ps)) (pr_sink p)) (\<lambda>sink.
     let p1 = p \<lparr> pr_state := ps, pr_sink := sink \<rparr> in
     case outcome of
       None \<Rightarrow> Ok p1
     | Some outcome_with_id \<Rightarrow>
         (case eo_compute_usage outcome_with_id of
            None \<Rightarrow> Err (RuntimePanic ''`process_receipt` must populate compute usage'')
          | Some compute_usage \<Rightarrow>
              result_bind (total_add (eo_gas_burnt outcome_with_id) compute_usage p1) (\<lambda>p2.
                Ok (p2 \<lparr> pr_outcomes := pr_outcomes p2 @ [outcome_with_id] \<rparr>)))))"

partial_function (option) process_instant_receipts ::
  "'e crypto_scheme \<Rightarrow> RuntimeEnv \<Rightarrow> ApplyState \<Rightarrow> ShardLayoutV2 \<Rightarrow> ApplyProcessingReceiptState \<Rightarrow> ApplyProcessingReceiptState run" where
  "process_instant_receipts C env st layout p =
     (case rp_instant (pr_state p) of
        [] \<Rightarrow> Some (Ok p)
      | instant_receipt # rest \<Rightarrow>
          and_then (Some (process_receipt_with_metrics C env st layout instant_receipt
              (p \<lparr> pr_state := (pr_state p) \<lparr> rp_instant := rest \<rparr> \<rparr>)))
            (\<lambda>p'. process_instant_receipts C env st layout (push_processed instant_receipt InstantSource p')))"

definition process_receipt_and_instant_receipts ::
  "'e crypto_scheme \<Rightarrow> RuntimeEnv \<Rightarrow> ApplyState \<Rightarrow> ShardLayoutV2 \<Rightarrow> Receipt \<Rightarrow> ApplyProcessingReceiptState
     \<Rightarrow> ApplyProcessingReceiptState run" where
  "process_receipt_and_instant_receipts C env st layout receipt p =
     and_then (Some (process_receipt_with_metrics C env st layout receipt p)) (process_instant_receipts C env st layout)"

section \<open>The phases\<close>

type_synonym chunk_state = "ApplyProcessingReceiptState \<times> DelayedReceiptQueueWrapper"

definition limit_reached :: "(chunk_state \<Rightarrow> bool) \<Rightarrow> u64 \<Rightarrow> chunk_state \<Rightarrow> bool" where
  "limit_reached exceeded compute_limit s \<longleftrightarrow> pr_compute (fst s) \<ge> compute_limit \<or> exceeded s"

fun process_local_receipts ::
  "'e crypto_scheme \<Rightarrow> RuntimeEnv \<Rightarrow> ApplyState \<Rightarrow> ShardLayoutV2 \<Rightarrow> (chunk_state \<Rightarrow> bool) \<Rightarrow> u64 \<Rightarrow> Receipt list \<Rightarrow> chunk_state
     \<Rightarrow> chunk_state run" where
  "process_local_receipts C env st layout exceeded compute_limit [] s = Some (Ok s)"
| "process_local_receipts C env st layout exceeded compute_limit (receipt # receipts) (p, dq) =
     (if limit_reached exceeded compute_limit (p, dq) then
        and_then (Some (delayed_push C (as_config st) receipt dq)) (\<lambda>dq'.
          process_local_receipts C env st layout exceeded compute_limit receipts (p, dq'))
      else
        and_then (process_receipt_and_instant_receipts C env st layout receipt p) (\<lambda>p'.
          process_local_receipts C env st layout exceeded compute_limit receipts (push_processed receipt LocalSource p', dq)))"

partial_function (option) process_delayed_receipts ::
  "'e crypto_scheme \<Rightarrow> RuntimeEnv \<Rightarrow> ApplyState \<Rightarrow> ShardLayoutV2 \<Rightarrow> (chunk_state \<Rightarrow> bool) \<Rightarrow> u64 \<Rightarrow> chunk_state
     \<Rightarrow> chunk_state run" where
  "process_delayed_receipts C env st layout exceeded compute_limit s =
     (if limit_reached exceeded compute_limit s then Some (Ok s)
      else
        and_then (Some (delayed_pop C (as_config st) layout (as_shard_id st)
            (\<lambda>q. exceeded (fst s, snd s \<lparr> dq_queue := q \<rparr>)) (snd s))) (\<lambda>(popped, dq).
        case popped of
          None \<Rightarrow> Some (Ok (fst s, dq))
        | Some receipt \<Rightarrow>
            and_then (Some (map_err (\<lambda>_. RStorageError (StorageInconsistentState ''Delayed receipt in the state is invalid''))
                (validate_receipt C (limit_config (as_config st)) receipt (as_protocol_version st) ExistingReceipt))) (\<lambda>_.
            and_then (process_receipt_and_instant_receipts C env st layout receipt (fst s)) (\<lambda>p'.
              process_delayed_receipts C env st layout exceeded compute_limit (push_processed receipt DelayedSource p', dq)))))"

fun process_incoming_receipts ::
  "'e crypto_scheme \<Rightarrow> RuntimeEnv \<Rightarrow> ApplyState \<Rightarrow> ShardLayoutV2 \<Rightarrow> (chunk_state \<Rightarrow> bool) \<Rightarrow> u64 \<Rightarrow> Receipt list \<Rightarrow> chunk_state
     \<Rightarrow> chunk_state run" where
  "process_incoming_receipts C env st layout exceeded compute_limit [] s = Some (Ok s)"
| "process_incoming_receipts C env st layout exceeded compute_limit (receipt # receipts) (p, dq) =
     and_then (Some (map_err RReceiptValidationError
         (validate_receipt C (limit_config (as_config st)) receipt (as_protocol_version st) ExistingReceipt))) (\<lambda>_.
       if limit_reached exceeded compute_limit (p, dq) then
         and_then (Some (delayed_push C (as_config st) receipt dq)) (\<lambda>dq'.
           process_incoming_receipts C env st layout exceeded compute_limit receipts (p, dq'))
       else
         and_then (process_receipt_and_instant_receipts C env st layout receipt p) (\<lambda>p'.
           process_incoming_receipts C env st layout exceeded compute_limit receipts (p', dq)))"

section \<open>Timeouts of promise yields\<close>

record PromiseYieldTimeout =
  yt_account_id :: AccountId
  yt_data_id :: CryptoHash
  yt_expires_at :: BlockHeight

text \<open>The receipt that resolves a yield whose time is up.\<close>

definition resume_receipt :: "'e crypto_scheme \<Rightarrow> ApplyState \<Rightarrow> PromiseYieldTimeout \<Rightarrow> nat \<Rightarrow> Receipt" where
  "resume_receipt C st queue_entry new_receipt_index =
     \<lparr> r_predecessor_id = yt_account_id queue_entry, r_receiver_id = yt_account_id queue_entry,
       r_receipt_id = create_receipt_id C st (yt_data_id queue_entry) new_receipt_index,
       r_receipt = RPromiseResume \<lparr> dr_data_id = yt_data_id queue_entry, dr_data = None \<rparr> \<rparr>"

definition timeout_entry :: "PromiseYieldTimeout TrieQueue \<Rightarrow> (PromiseYieldTimeout, RuntimeError) result" where
  "timeout_entry tq =
     (case tq_fault tq (first_index tq) of
        Some e \<Rightarrow> Err (RStorageError e)
      | None \<Rightarrow> ok_or (tq_items tq (first_index tq))
          (RStorageError (StorageInconsistentState ''PromiseYield timeout queue entry should be in the state'')))"

lemma advance_shrinks:
  "first_index q < next_available_index q
    \<Longrightarrow> unat (next_available_index q) - unat (first_index q + 1) < unat (next_available_index q) - unat (first_index q)"
  using nonempty_range [of q] by (simp add: not_le)

function resolve_promise_yield_timeouts ::
  "'e crypto_scheme \<Rightarrow> ApplyState \<Rightarrow> ShardLayoutV2 \<Rightarrow> (chunk_state \<Rightarrow> bool) \<Rightarrow> u64 \<Rightarrow> nat \<Rightarrow> DelayedReceiptQueueWrapper
     \<Rightarrow> PromiseYieldTimeout TrieQueue \<Rightarrow> ApplyProcessingReceiptState
     \<Rightarrow> (ApplyProcessingReceiptState \<times> PromiseYieldTimeout TrieQueue, RuntimeError) result" where
  "resolve_promise_yield_timeouts C st layout exceeded compute_limit new_receipt_index dq tq p =
     (if \<not> first_index tq < next_available_index tq then Ok (p, tq)
      else if limit_reached exceeded compute_limit (p, dq) then Ok (p, tq)
      else
        result_bind (timeout_entry tq) (\<lambda>queue_entry.
        if yt_expires_at queue_entry > as_block_height st then Ok (p, tq)
        else
          result_bind (map_err RStorageError (let s = rp_trie (pr_state p); a = yt_account_id queue_entry; d = yt_data_id queue_entry in
              trie_read s (KPromiseYieldReceipt a d) (t_yields s (a, d)))) (\<lambda>yielded.
          let tq' = tq \<lparr> tq_items := (tq_items tq)(first_index tq := None), first_index := first_index tq + 1 \<rparr> in
          if yielded = None
          then resolve_promise_yield_timeouts C st layout exceeded compute_limit new_receipt_index dq tq' p
          else
            let r = resume_receipt C st queue_entry new_receipt_index in
            result_bind (forward_or_buffer_receipt C (as_config st) layout r (pr_sink p)) (\<lambda>sink.
              resolve_promise_yield_timeouts C st layout exceeded compute_limit (new_receipt_index + 1) dq tq'
                (p \<lparr> pr_sink := sink, pr_state := (pr_state p) \<lparr> rp_outgoing := rp_outgoing (pr_state p) @ [r] \<rparr> \<rparr>)))))"
  by pat_completeness auto
termination
  by (relation "measure (\<lambda>(C, st, layout, exceeded, compute_limit, i, dq, tq, p).
      unat (next_available_index tq) - unat (first_index tq))") (auto simp: advance_shrinks)

declare resolve_promise_yield_timeouts.simps [simp del]

section \<open>All receipts of a chunk\<close>

definition process_receipts ::
  "'e crypto_scheme \<Rightarrow> RuntimeEnv \<Rightarrow> ApplyState \<Rightarrow> ShardLayoutV2 \<Rightarrow> (chunk_state \<Rightarrow> bool) \<Rightarrow> u64 option \<Rightarrow> Receipt list \<Rightarrow> Receipt list
     \<Rightarrow> PromiseYieldTimeout TrieQueue \<Rightarrow> chunk_state \<Rightarrow> (chunk_state \<times> PromiseYieldTimeout TrieQueue) run" where
  "process_receipts C env st layout exceeded gas_limit local_receipts incoming_receipts tq s =
     (let compute_limit = (case gas_limit of Some g \<Rightarrow> g | None \<Rightarrow> - 1) in
      and_then (process_local_receipts C env st layout exceeded compute_limit local_receipts s) (\<lambda>s1.
      and_then (process_delayed_receipts C env st layout exceeded compute_limit s1) (\<lambda>s2.
      and_then (process_incoming_receipts C env st layout exceeded compute_limit incoming_receipts s2) (\<lambda>s3.
      and_then (Some (resolve_promise_yield_timeouts C st layout exceeded compute_limit 0 (snd s3) tq (fst s3))) (\<lambda>(p, tq').
        Some (Ok ((p, snd s3), tq')))))))"

section \<open>What one receipt does\<close>

text \<open>A successful computation is taken apart one step at a time.\<close>

lemma bind_OkE:
  assumes "result_bind m f = Ok y"
  obtains x where "m = Ok x" "f x = Ok y"
  using assms by (auto simp: result_bind_Ok)

abbreviation is_yield :: "Receipt \<Rightarrow> bool" where
  "is_yield r \<equiv> \<exists>ar. versioned (r_receipt r) = VPromiseYield ar"

text \<open>
  Processing a receipt only adds to the receipts that are sent and to the instant ones, and
  these are promise yields; a promise yield itself adds none.
\<close>

definition extends :: "ReceiptProcState \<Rightarrow> ReceiptProcState \<Rightarrow> bool" where
  "extends ps ps' \<longleftrightarrow> (\<exists>xs. rp_instant ps' = rp_instant ps @ xs \<and> (\<forall>r \<in> set xs. is_yield r)) \<and> (\<exists>out. rp_outgoing ps' = rp_outgoing ps @ out)"

lemma send_extends: "extends ps (send_receipts pv rs (ps \<lparr> rp_trie := s, rp_stats := b, rp_proposals := v \<rparr>))"
  by (auto simp: extends_def send_receipts_def is_instant_receipt_def split: VersionedReceiptEnum.splits)

lemma settle_extends:
  assumes "settle_receipt C st receipt ar committed s res ps = Ok (ps', outcome)"
  shows "extends ps ps'"
  using assms by (auto simp: settle_receipt_def Let_def result_simps send_extends split: prod.splits)

lemma apply_action_extends:
  assumes "apply_action_receipt C env st receipt ps = Ok (ps', outcome)"
  shows "extends ps ps'"
  using assms settle_extends
  by (auto simp: apply_action_receipt_def Let_def result_simps split: option.splits prod.splits)

lemma extends_trie [simp]: "extends ps (ps \<lparr> rp_trie := s \<rparr>)"
  by (simp add: extends_def)

lemma execute_extends:
  assumes "execute C env st receipt (ps \<lparr> rp_trie := s \<rparr>) = Ok (ps', outcome)"
  shows "extends ps ps'"
proof -
  have "extends (ps \<lparr> rp_trie := s \<rparr>) ps'" using assms apply_action_extends by (auto simp: execute_def result_simps)
  then show ?thesis by (simp add: extends_def)
qed

lemma process_receipt_extends:
  assumes "process_receipt C env st receipt ps = Ok (ps', outcome)"
  shows "extends ps ps'"
proof (cases "versioned (r_receipt receipt)")
  case (VAction ar)
  then show ?thesis using assms execute_extends
    by (auto simp: process_receipt_def process_action_receipt_def Let_def result_simps split: if_splits)
next
  case (VData d)
  then show ?thesis using assms execute_extends
    by (auto simp: process_receipt_def process_data_receipt_def Let_def elim!: bind_OkE split: if_split_asm option.split_asm)
next
  case (VPromiseResume d)
  then show ?thesis using assms execute_extends extends_trie [of ps "rp_trie ps"]
    by (auto simp: process_receipt_def process_promise_resume_def Let_def elim!: bind_OkE split: if_split_asm option.split_asm)
next
  case (VGlobalContractDistribution g)
  then show ?thesis using assms
    by (auto simp: process_receipt_def apply_global_contract_distribution_receipt_def forward_distribution_next_shard_def
        extends_def Let_def result_simps split: option.splits)
qed (use assms in \<open>auto simp: process_receipt_def result_simps\<close>)

lemma process_yield:
  assumes "is_yield receipt" "process_receipt C env st receipt ps = Ok (ps', outcome)"
  shows "\<exists>s. ps' = ps \<lparr> rp_trie := s \<rparr> \<and> outcome = None"
  using assms by (auto simp: process_receipt_def result_simps)

text \<open>The receipts that are sent have gone to the sink.\<close>

definition sunk ::
  "'e crypto_scheme \<Rightarrow> RuntimeConfig \<Rightarrow> ShardLayoutV2 \<Rightarrow> ApplyProcessingReceiptState \<Rightarrow> ApplyProcessingReceiptState \<Rightarrow> bool" where
  "sunk C config layout p p' \<longleftrightarrow> (\<exists>out. rp_outgoing (pr_state p') = rp_outgoing (pr_state p) @ out
     \<and> sink_receipts C config layout out (pr_sink p) = Ok (pr_sink p'))"

lemma sink_receipts_append:
  "sink_receipts C config layout (xs @ ys) sink = result_bind (sink_receipts C config layout xs sink) (sink_receipts C config layout ys)"
proof (induction xs arbitrary: sink)
  case (Cons x xs)
  then show ?case by (cases "forward_or_buffer_receipt C config layout x sink") simp_all
qed simp

lemma sunk_refl: "rp_outgoing (pr_state p') = rp_outgoing (pr_state p) \<Longrightarrow> pr_sink p' = pr_sink p \<Longrightarrow> sunk C config layout p p'"
  by (auto simp: sunk_def intro: exI [of _ "[]"])

lemma sunk_trans: "sunk C config layout p p' \<Longrightarrow> sunk C config layout p' p'' \<Longrightarrow> sunk C config layout p p''"
  by (force simp: sunk_def sink_receipts_append)

lemma sink_receipts_ok:
  assumes "sink_ok C config layout q0 sink" "sink_receipts C config layout out sink = Ok sink'"
  shows "sink_ok C config layout q0 sink' \<and> (\<forall>r. copies r sink' = copies r sink + count_list out r)"
  using assms
proof (induction out arbitrary: sink)
  case (Cons x out)
  then obtain sink1 where "forward_or_buffer_receipt C config layout x sink = Ok sink1" "sink_receipts C config layout out sink1 = Ok sink'"
    by (auto simp: result_simps)
  then show ?case using Cons.IH [of sink1] forward_or_buffer_ok [OF Cons.prems(1)] by auto
qed simp

lemma sunk_ok:
  assumes "sink_ok C config layout q0 (pr_sink p)" "sunk C config layout p p'"
  shows "sink_ok C config layout q0 (pr_sink p')"
    "copies r (pr_sink p') + count_list (rp_outgoing (pr_state p)) r = copies r (pr_sink p) + count_list (rp_outgoing (pr_state p')) r"
  using assms sink_receipts_ok [OF assms(1)] by (auto simp: sunk_def)

lemma with_metrics_step:
  assumes "process_receipt_with_metrics C env st layout receipt p = Ok p'"
  shows "extends (pr_state p) (pr_state p')" "sunk C (as_config st) layout p p'"
    "is_yield receipt \<Longrightarrow> rp_instant (pr_state p') = rp_instant (pr_state p)"
proof -
  obtain ps outcome sink where st: "process_receipt C env st receipt (pr_state p) = Ok (ps, outcome)"
      "sink_receipts C (as_config st) layout (drop (length (rp_outgoing (pr_state p))) (rp_outgoing ps)) (pr_sink p) = Ok sink"
      "pr_state p' = ps" "pr_sink p' = sink"
    using assms by (auto simp: process_receipt_with_metrics_def total_add_def Let_def elim!: bind_OkE split: option.split_asm)
  note e = process_receipt_extends [OF st(1)]
  then show "extends (pr_state p) (pr_state p')" using st(3) by simp
  show "sunk C (as_config st) layout p p'" using e st(2-4) by (auto simp: extends_def sunk_def)
  show "is_yield receipt \<Longrightarrow> rp_instant (pr_state p') = rp_instant (pr_state p)" using process_yield [OF _ st(1)] st(3) by auto
qed

section \<open>The loops end\<close>

abbreviation quiet :: "ApplyProcessingReceiptState \<Rightarrow> bool" where
  "quiet p \<equiv> rp_instant (pr_state p) = []"

lemma push_processed_simps [simp]:
  "pr_state (push_processed r src p) = pr_state p" "pr_sink (push_processed r src p) = pr_sink p"
  "pr_outcomes (push_processed r src p) = pr_outcomes p"
  by (simp_all add: push_processed_def)

lemma sunk_push [simp]: "sunk C config layout p (push_processed r src p') = sunk C config layout p p'"
  "sunk C config layout (push_processed r src p) p' = sunk C config layout p p'"
  by (simp_all add: sunk_def)

text \<open>The instant receipts are promise yields, so processing them adds no further ones.\<close>

lemma instant_receipts_end:
  assumes "\<forall>r \<in> set (rp_instant (pr_state p)). is_yield r"
  shows "\<exists>res. process_instant_receipts C env st layout p = Some res
    \<and> (\<forall>p'. res = Ok p' \<longrightarrow> quiet p' \<and> sunk C (as_config st) layout p p')"
  using assms
proof (induction "rp_instant (pr_state p)" arbitrary: p)
  case Nil
  then show ?case by (subst process_instant_receipts.simps) (simp add: sunk_refl flip: Nil)
next
  case (Cons r rs)
  let ?p = "p \<lparr> pr_state := (pr_state p) \<lparr> rp_instant := rs \<rparr> \<rparr>"
  note step = process_instant_receipts.simps [of C env st layout p, folded Cons.hyps(2)]
  show ?case
  proof (cases "process_receipt_with_metrics C env st layout r ?p")
    case (Ok p1)
    note w = with_metrics_step [OF Ok]
    have "is_yield r" "\<forall>r \<in> set rs. is_yield r" using Cons.prems Cons.hyps(2) by (metis list.set_intros)+
    then have "rs = rp_instant (pr_state (push_processed r InstantSource p1))" using w(3) by simp
    moreover have "sunk C (as_config st) layout p p1" using w(2) by (simp add: sunk_def)
    ultimately show ?thesis
      using Cons.hyps(1) [of "push_processed r InstantSource p1"] \<open>\<forall>r \<in> set rs. is_yield r\<close> step Ok sunk_trans
      by (fastforce simp: step)
  qed (simp add: step)
qed

lemma receipt_and_instants:
  assumes "quiet p"
  shows "\<exists>res. process_receipt_and_instant_receipts C env st layout r p = Some res
    \<and> (\<forall>p'. res = Ok p' \<longrightarrow> quiet p' \<and> sunk C (as_config st) layout p p')"
proof (cases "process_receipt_with_metrics C env st layout r p")
  case (Ok p1)
  note w = with_metrics_step [OF Ok]
  have "\<forall>r \<in> set (rp_instant (pr_state p1)). is_yield r" using w(1) assms by (auto simp: extends_def)
  then show ?thesis
    using instant_receipts_end [of p1 C env st layout] w(2) Ok sunk_trans
    by (fastforce simp: process_receipt_and_instant_receipts_def)
qed (simp add: process_receipt_and_instant_receipts_def)

text \<open>Processing a list of receipts in order, each recorded with its source if it has one.\<close>

definition record_as :: "Receipt \<Rightarrow> ReceiptSource option \<Rightarrow> ApplyProcessingReceiptState \<Rightarrow> ApplyProcessingReceiptState" where
  "record_as r src p = (case src of None \<Rightarrow> p | Some x \<Rightarrow> push_processed r x p)"

fun run_receipts ::
  "'e crypto_scheme \<Rightarrow> RuntimeEnv \<Rightarrow> ApplyState \<Rightarrow> ShardLayoutV2 \<Rightarrow> (Receipt \<times> ReceiptSource option) list
     \<Rightarrow> ApplyProcessingReceiptState \<Rightarrow> ApplyProcessingReceiptState run" where
  "run_receipts C env st layout [] p = Some (Ok p)"
| "run_receipts C env st layout ((r, src) # rs) p =
     and_then (process_receipt_and_instant_receipts C env st layout r p) (\<lambda>p'. run_receipts C env st layout rs (record_as r src p'))"

lemma run_receipts_append:
  "run_receipts C env st layout (xs @ ys) p = and_then (run_receipts C env st layout xs p) (run_receipts C env st layout ys)"
proof (induction xs arbitrary: p)
  case (Cons x xs)
  obtain r src where "x = (r, src)" by (cases x)
  then show ?case
    using Cons by (cases "process_receipt_and_instant_receipts C env st layout r p"; cases "the (process_receipt_and_instant_receipts C env st layout r p)") auto
qed simp

lemma record_as_simps [simp]:
  "pr_state (record_as r src p) = pr_state p" "sunk C config layout p0 (record_as r src p) = sunk C config layout p0 p"
  "sunk C config layout (record_as r src p) p0 = sunk C config layout p p0"
  by (simp_all add: record_as_def split: option.split)

lemma run_receipts_sunk:
  assumes "quiet p" "run_receipts C env st layout rs p = Some (Ok p')"
  shows "quiet p' \<and> sunk C (as_config st) layout p p'"
  using assms
proof (induction rs arbitrary: p)
  case Nil
  then show ?case by (simp add: sunk_refl)
next
  case (Cons x rs)
  obtain r src where x: "x = (r, src)" by (cases x)
  obtain res where res: "process_receipt_and_instant_receipts C env st layout r p = Some res"
      "\<forall>p1. res = Ok p1 \<longrightarrow> quiet p1 \<and> sunk C (as_config st) layout p p1"
    using receipt_and_instants [OF Cons.prems(1)] by blast
  then obtain p1 where "res = Ok p1" "run_receipts C env st layout rs (record_as r src p1) = Some (Ok p')"
    using Cons.prems(2) x by (cases res) auto
  then show ?case using Cons.IH [of "record_as r src p1"] res(2) sunk_trans by auto
qed

section \<open>What the phases do\<close>

abbreviation queued :: "DelayedReceiptQueueWrapper \<Rightarrow> Receipt list" where
  "queued dq \<equiv> map into_receipt (tq_list (dq_queue dq))"

text \<open>Some of the receipts are processed in order, the rest is delayed in order.\<close>

definition splits ::
  "'e crypto_scheme \<Rightarrow> RuntimeEnv \<Rightarrow> ApplyState \<Rightarrow> ShardLayoutV2 \<Rightarrow> ReceiptSource option \<Rightarrow> Receipt list \<Rightarrow> chunk_state \<Rightarrow> chunk_state \<Rightarrow> bool" where
  "splits C env st layout src rs s s' \<longleftrightarrow> quiet (fst s') \<and> tq_inv (dq_queue (snd s'))
     \<and> (\<exists>now later. rs \<in> shuffles now later \<and> run_receipts C env st layout (map (\<lambda>r. (r, src)) now) (fst s) = Some (Ok (fst s'))
         \<and> queued (snd s') = queued (snd s) @ later)
     \<and> (\<forall>q0. delayed_ok C (as_config st) layout q0 (snd s) \<and> (\<forall>r \<in> set rs. is_ok (receiver_shard_id layout r))
         \<longrightarrow> delayed_ok C (as_config st) layout q0 (snd s'))"

lemma splits_delayed:
  assumes "tq_inv (dq_queue dq)" "delayed_push C (as_config st) r dq = Ok dq1" "splits C env st layout src rs (p, dq1) s'"
  shows "splits C env st layout src (r # rs) (p, dq) s'"
proof -
  note l = delayed_push_list [OF assms(1,2)]
  have kept: "delayed_ok C (as_config st) layout q0 dq1" if "delayed_ok C (as_config st) layout q0 dq" "is_ok (receiver_shard_id layout r)" for q0
    using delayed_push_ok [OF that(1) _ assms(2)] that(2) by (auto simp: is_ok_iff)
  obtain now later where "rs \<in> shuffles now later" "run_receipts C env st layout (map (\<lambda>r. (r, src)) now) p = Some (Ok (fst s'))"
      "queued (snd s') = queued dq1 @ later"
    using assms(3) by (auto simp: splits_def)
  moreover from this(1) have "r # rs \<in> shuffles now (r # later)" by (rule Cons_in_shuffles_rightI)
  ultimately have "\<exists>now later. r # rs \<in> shuffles now later \<and> run_receipts C env st layout (map (\<lambda>r. (r, src)) now) p = Some (Ok (fst s'))
      \<and> queued (snd s') = queued dq @ later"
    using l(2) by (intro exI [of _ now] exI [of _ "r # later"]) simp
  then show ?thesis
    using assms(3) kept by (simp add: splits_def)
qed

lemma splits_processed:
  assumes "process_receipt_and_instant_receipts C env st layout r p = Some (Ok p1)"
    and "splits C env st layout src rs (record_as r src p1, dq) s'"
  shows "splits C env st layout src (r # rs) (p, dq) s'"
proof -
  obtain now later where "rs \<in> shuffles now later" "queued (snd s') = queued dq @ later"
      "run_receipts C env st layout (map (\<lambda>r. (r, src)) now) (record_as r src p1) = Some (Ok (fst s'))"
    using assms(2) by (auto simp: splits_def)
  moreover from this(1) have "r # rs \<in> shuffles (r # now) later" by (rule Cons_in_shuffles_leftI)
  ultimately have "\<exists>now later. r # rs \<in> shuffles now later \<and> run_receipts C env st layout (map (\<lambda>r. (r, src)) now) p = Some (Ok (fst s'))
      \<and> queued (snd s') = queued dq @ later"
    using assms(1) by (intro exI [of _ "r # now"] exI [of _ later]) simp
  then show ?thesis
    using assms(2) by (simp add: splits_def)
qed

lemma splits_none: "quiet p \<Longrightarrow> tq_inv (dq_queue dq) \<Longrightarrow> splits C env st layout src [] (p, dq) (p, dq)"
  by (simp add: splits_def)

lemma local_phase:
  assumes "quiet p" "tq_inv (dq_queue dq)"
  shows "\<exists>res. process_local_receipts C env st layout exceeded compute_limit rs (p, dq) = Some res
    \<and> (\<forall>s'. res = Ok s' \<longrightarrow> splits C env st layout (Some LocalSource) rs (p, dq) s')"
  using assms
proof (induction rs arbitrary: p dq)
  case (Cons r rs)
  show ?case
  proof (cases "limit_reached exceeded compute_limit (p, dq)")
    case True
    show ?thesis
    proof (cases "delayed_push C (as_config st) r dq")
      case (Ok dq1)
      then show ?thesis
        using True Cons.IH [OF Cons.prems(1) delayed_push_list(1) [OF Cons.prems(2) Ok]] splits_delayed [OF Cons.prems(2) Ok] by fastforce
    qed (simp add: True)
  next
    case False
    obtain res where res: "process_receipt_and_instant_receipts C env st layout r p = Some res" "\<forall>p1. res = Ok p1 \<longrightarrow> quiet p1"
      using receipt_and_instants [OF Cons.prems(1)] by blast
    show ?thesis
    proof (cases res)
      case (Ok p1)
      let ?p = "push_processed r LocalSource p1"
      have "quiet ?p" using res(2) Ok by simp
      moreover have "record_as r (Some LocalSource) p1 = ?p" by (simp add: record_as_def)
      ultimately show ?thesis
        using False res(1) Ok Cons.IH [of ?p dq] Cons.prems(2) splits_processed [of C env st layout r p p1 "Some LocalSource" rs dq] by auto
    qed (simp add: False res(1))
  qed
qed (simp add: splits_none)

lemma incoming_phase:
  assumes "quiet p" "tq_inv (dq_queue dq)"
  shows "\<exists>res. process_incoming_receipts C env st layout exceeded compute_limit rs (p, dq) = Some res
    \<and> (\<forall>s'. res = Ok s' \<longrightarrow> splits C env st layout None rs (p, dq) s')"
  using assms
proof (induction rs arbitrary: p dq)
  case (Cons r rs)
  let ?valid = "map_err RReceiptValidationError (validate_receipt C (limit_config (as_config st)) r (as_protocol_version st) ExistingReceipt)"
  consider e where "?valid = Err e" | "?valid = Ok ()" "limit_reached exceeded compute_limit (p, dq)"
    | "?valid = Ok ()" "\<not> limit_reached exceeded compute_limit (p, dq)" by (cases ?valid) auto
  then show ?case
  proof cases
    case 2
    show ?thesis
    proof (cases "delayed_push C (as_config st) r dq")
      case (Ok dq1)
      then show ?thesis
        using 2 Cons.IH [OF Cons.prems(1) delayed_push_list(1) [OF Cons.prems(2) Ok]] splits_delayed [OF Cons.prems(2) Ok] by fastforce
    qed (simp add: 2)
  next
    case 3
    obtain res where res: "process_receipt_and_instant_receipts C env st layout r p = Some res" "\<forall>p1. res = Ok p1 \<longrightarrow> quiet p1"
      using receipt_and_instants [OF Cons.prems(1)] by blast
    show ?thesis
    proof (cases res)
      case (Ok p1)
      then show ?thesis
        using 3 res Cons.IH [of p1 dq] Cons.prems(2) splits_processed [of C env st layout r p p1 None rs dq]
        by (auto simp: record_as_def)
    qed (simp add: 3 res(1))
  qed simp
qed (simp add: splits_none)

text \<open>The front of the delayed queue is taken off, and what belongs to the shard is processed in order.\<close>

definition drains ::
  "'e crypto_scheme \<Rightarrow> RuntimeEnv \<Rightarrow> ApplyState \<Rightarrow> ShardLayoutV2 \<Rightarrow> chunk_state \<Rightarrow> chunk_state \<Rightarrow> bool" where
  "drains C env st layout s s' \<longleftrightarrow> quiet (fst s') \<and> tq_inv (dq_queue (snd s'))
     \<and> (\<exists>k. queued (snd s') = drop k (queued (snd s))
         \<and> run_receipts C env st layout (map (\<lambda>r. (r, Some DelayedSource))
             (filter (\<lambda>r. receiver_shard_id layout r = Ok (as_shard_id st)) (take k (queued (snd s))))) (fst s) = Some (Ok (fst s')))
     \<and> (\<forall>q0. delayed_ok C (as_config st) layout q0 (snd s) \<longrightarrow> delayed_ok C (as_config st) layout q0 (snd s'))"

lemma drains_none:
  assumes "quiet p" "tq_inv (dq_queue dq)" shows "drains C env st layout (p, dq) (p, dq)"
  unfolding drains_def using assms by (auto intro!: exI [of _ 0])

lemma drains_last:
  assumes "quiet p" "tq_inv (dq_queue dq)" "delayed_pop C (as_config st) layout (as_shard_id st) exceeded dq = Ok (None, dq1)"
  shows "drains C env st layout (p, dq) (p, dq1)"
proof -
  obtain j where "tq_list (dq_queue dq1) = drop j (tq_list (dq_queue dq))"
      "filter (\<lambda>r. receiver_shard_id layout r = Ok (as_shard_id st)) (map into_receipt (take j (tq_list (dq_queue dq)))) = []" "tq_inv (dq_queue dq1)"
    using delayed_pop_list [OF assms(2,3)] by auto
  then show ?thesis
    unfolding drains_def using assms(1) delayed_pop_ok [OF _ assms(3)]
    by (auto intro!: exI [of _ j] simp: drop_map take_map)
qed

lemma drains_step:
  assumes "tq_inv (dq_queue dq)" "delayed_pop C (as_config st) layout (as_shard_id st) exceeded dq = Ok (Some r, dq1)"
    and "process_receipt_and_instant_receipts C env st layout r p = Some (Ok p1)"
    and "drains C env st layout (push_processed r DelayedSource p1, dq1) s'"
  shows "drains C env st layout (p, dq) s'"
proof -
  let ?mine = "filter (\<lambda>r. receiver_shard_id layout r = Ok (as_shard_id st))"
  obtain j where j: "queued dq1 = drop j (queued dq)" "?mine (take j (queued dq)) = [r]"
    using delayed_pop_list [OF assms(1,2)] by (auto simp: drop_map take_map)
  obtain k where k: "queued (snd s') = drop k (queued dq1)"
      "run_receipts C env st layout (map (\<lambda>r. (r, Some DelayedSource)) (?mine (take k (queued dq1)))) (push_processed r DelayedSource p1)
        = Some (Ok (fst s'))"
    using assms(4) by (auto simp: drains_def)
  have "queued (snd s') = drop (j + k) (queued dq)" using k(1) j(1) by (simp add: add.commute)
  moreover have "?mine (take (j + k) (queued dq)) = r # ?mine (take k (queued dq1))" using j by (simp add: take_add)
  ultimately have "\<exists>k. queued (snd s') = drop k (queued dq)
      \<and> run_receipts C env st layout (map (\<lambda>r. (r, Some DelayedSource)) (?mine (take k (queued dq)))) p = Some (Ok (fst s'))"
    using k(2) assms(3) by (intro exI [of _ "j + k"]) (simp add: record_as_def)
  then show ?thesis using assms(4) delayed_pop_ok [OF _ assms(2)] by (simp add: drains_def)
qed

lemma delayed_pop_shorter:
  assumes "tq_inv (dq_queue dq)" "delayed_pop C config layout shard exceeded dq = Ok (Some r, dq1)"
  shows "length (queued dq1) < length (queued dq)" "tq_inv (dq_queue dq1)"
proof -
  obtain j where j: "tq_list (dq_queue dq1) = drop j (tq_list (dq_queue dq))" "j \<le> length (tq_list (dq_queue dq))"
      "filter (\<lambda>r. receiver_shard_id layout r = Ok shard) (map into_receipt (take j (tq_list (dq_queue dq)))) = [r]" "tq_inv (dq_queue dq1)"
    using delayed_pop_list [OF assms] by auto
  have "j \<noteq> 0" using j(3) by (cases j) simp_all
  then show "length (queued dq1) < length (queued dq)" "tq_inv (dq_queue dq1)" using j by auto
qed

lemma delayed_phase:
  assumes "quiet p" "tq_inv (dq_queue dq)"
  shows "\<exists>res. process_delayed_receipts C env st layout exceeded compute_limit (p, dq) = Some res
    \<and> (\<forall>s'. res = Ok s' \<longrightarrow> drains C env st layout (p, dq) s')"
  using assms
proof (induction "length (queued dq)" arbitrary: p dq rule: less_induct)
  case less
  let ?pop = "delayed_pop C (as_config st) layout (as_shard_id st) (\<lambda>q. exceeded (p, dq \<lparr> dq_queue := q \<rparr>)) dq"
  note step = process_delayed_receipts.simps [of C env st layout exceeded compute_limit "(p, dq)", simplified]
  consider "limit_reached exceeded compute_limit (p, dq)" | e where "\<not> limit_reached exceeded compute_limit (p, dq)" "?pop = Err e"
    | dq1 where "\<not> limit_reached exceeded compute_limit (p, dq)" "?pop = Ok (None, dq1)"
    | r dq1 where "\<not> limit_reached exceeded compute_limit (p, dq)" "?pop = Ok (Some r, dq1)"
    by (cases ?pop) (auto, metis option.exhaust)
  then show ?case
  proof cases
    case 4
    note shorter = delayed_pop_shorter [OF less.prems(2) 4(2)]
    obtain res where res: "process_receipt_and_instant_receipts C env st layout r p = Some res" "\<forall>p1. res = Ok p1 \<longrightarrow> quiet p1"
      using receipt_and_instants [OF less.prems(1)] by blast
    show ?thesis
    proof (cases res)
      case (Ok p1)
      have "quiet (push_processed r DelayedSource p1)" using res(2) Ok by simp
      from less.hyps [OF shorter(1) this shorter(2)] show ?thesis
        using drains_step [OF less.prems(2) 4(2), of env p p1] res(1) Ok
        by (cases "validate_receipt C (limit_config (as_config st)) r (as_protocol_version st) ExistingReceipt") (auto simp: step 4)
    qed (cases "validate_receipt C (limit_config (as_config st)) r (as_protocol_version st) ExistingReceipt"; simp add: step 4 res(1))
  qed (auto simp: step drains_none [OF less.prems] drains_last [OF less.prems])
qed

text \<open>The timeouts only send receipts.\<close>

lemma timeouts_sunk:
  assumes "resolve_promise_yield_timeouts C st layout exceeded compute_limit i dq tq p = Ok (p', tq')"
  shows "sunk C (as_config st) layout p p' \<and> pr_outcomes p' = pr_outcomes p \<and> pr_processed p' = pr_processed p
    \<and> rp_trie (pr_state p') = rp_trie (pr_state p)"
  using assms
proof (induction C st layout exceeded compute_limit i dq tq p rule: resolve_promise_yield_timeouts.induct)
  case (1 C st layout exceeded compute_limit i dq tq p)
  note res = "1.prems" [unfolded resolve_promise_yield_timeouts.simps [of C st layout exceeded compute_limit i dq tq p]]
  let ?s = "rp_trie (pr_state p)"
  show ?case
  proof (cases "first_index tq < next_available_index tq \<and> \<not> limit_reached exceeded compute_limit (p, dq)")
    case True
    with res obtain e where e: "timeout_entry tq = Ok e" by (cases "timeout_entry tq") simp_all
    show ?thesis
    proof (cases "yt_expires_at e > as_block_height st")
      case False
      with res True e obtain yielded where y:
          "map_err RStorageError (trie_read ?s (KPromiseYieldReceipt (yt_account_id e) (yt_data_id e)) (t_yields ?s (yt_account_id e, yt_data_id e))) = Ok yielded"
        by (auto simp: Let_def elim!: bind_OkE)
      show ?thesis
      proof (cases "yielded = None")
        case True': True
        show ?thesis
          using "1.IH"(1) [OF _ _ False refl True'] True True' False y res e by (simp add: Let_def)
      next
        case some: False
        let ?r = "resume_receipt C st e i"
        obtain sink where f: "forward_or_buffer_receipt C (as_config st) layout ?r (pr_sink p) = Ok sink"
          using res True False e y some by (auto simp: Let_def elim!: bind_OkE)
        let ?p = "p \<lparr> pr_sink := sink, pr_state := (pr_state p) \<lparr> rp_outgoing := rp_outgoing (pr_state p) @ [?r] \<rparr> \<rparr>"
        have "sunk C (as_config st) layout p ?p" using f by (simp add: sunk_def)
        moreover have "sunk C (as_config st) layout ?p p' \<and> pr_outcomes p' = pr_outcomes ?p \<and> pr_processed p' = pr_processed ?p
            \<and> rp_trie (pr_state p') = rp_trie (pr_state ?p)"
          using "1.IH"(2) [OF _ _ False refl some refl] True False y res e some f by (simp add: Let_def)
        ultimately show ?thesis using sunk_trans by auto
      qed
    qed (use res True e in \<open>simp add: sunk_refl\<close>)
  qed (use res in \<open>auto simp: sunk_refl split: if_split_asm\<close>)
qed

section \<open>A chunk\<close>

definition new_wrapper :: "receipt_queue \<Rightarrow> DelayedReceiptQueueWrapper" where
  "new_wrapper q = \<lparr> dq_queue = q, new_delayed_gas = 0, new_delayed_bytes = 0, removed_delayed_gas = 0, removed_delayed_bytes = 0 \<rparr>"

text \<open>
  The order a chunk keeps: local receipts, then the front of the delayed queue, then incoming
  ones, and what is not reached waits at the end of the queue.
\<close>

definition scheduled ::
  "(Receipt \<Rightarrow> bool) \<Rightarrow> Receipt list \<Rightarrow> Receipt list \<Rightarrow> Receipt list \<Rightarrow> (Receipt \<times> ReceiptSource option) list \<Rightarrow> Receipt list \<Rightarrow> bool" where
  "scheduled mine waiting local_receipts incoming_receipts handled left \<longleftrightarrow> (\<exists>now later inow ilater k.
     local_receipts \<in> shuffles now later \<and> incoming_receipts \<in> shuffles inow ilater
     \<and> handled = map (\<lambda>r. (r, Some LocalSource)) now @ map (\<lambda>r. (r, Some DelayedSource)) (filter mine (take k (waiting @ later)))
         @ map (\<lambda>r. (r, None)) inow
     \<and> left = drop k (waiting @ later) @ ilater)"

lemma phases_scheduled:
  assumes "splits C env st layout (Some LocalSource) local_receipts (p, dq) s1" "drains C env st layout s1 s2"
    and "splits C env st layout None incoming_receipts s2 s3"
  shows "\<exists>handled. scheduled (\<lambda>r. receiver_shard_id layout r = Ok (as_shard_id st)) (queued dq) local_receipts incoming_receipts handled (queued (snd s3))
    \<and> run_receipts C env st layout handled p = Some (Ok (fst s3))"
proof -
  let ?mine = "filter (\<lambda>r. receiver_shard_id layout r = Ok (as_shard_id st))"
  obtain now later where l: "local_receipts \<in> shuffles now later" "queued (snd s1) = queued dq @ later"
      "run_receipts C env st layout (map (\<lambda>r. (r, Some LocalSource)) now) p = Some (Ok (fst s1))"
    using assms(1) by (auto simp: splits_def)
  obtain k where d: "queued (snd s2) = drop k (queued dq @ later)"
      "run_receipts C env st layout (map (\<lambda>r. (r, Some DelayedSource)) (?mine (take k (queued dq @ later)))) (fst s1) = Some (Ok (fst s2))"
    using assms(2) unfolding drains_def l(2) by blast
  obtain inow ilater where i: "incoming_receipts \<in> shuffles inow ilater" "queued (snd s3) = queued (snd s2) @ ilater"
      "run_receipts C env st layout (map (\<lambda>r. (r, None)) inow) (fst s2) = Some (Ok (fst s3))"
    using assms(3) by (auto simp: splits_def)
  let ?handled = "map (\<lambda>r. (r, Some LocalSource)) now @ map (\<lambda>r. (r, Some DelayedSource)) (?mine (take k (queued dq @ later)))
    @ map (\<lambda>r. (r, None)) inow"
  have "run_receipts C env st layout ?handled p = Some (Ok (fst s3))"
    using l(3) d(2) i(3) by (simp only: run_receipts_append and_then_simps)
  moreover have "scheduled (\<lambda>r. receiver_shard_id layout r = Ok (as_shard_id st)) (queued dq) local_receipts incoming_receipts ?handled (queued (snd s3))"
    unfolding scheduled_def i(2) d(1) using l(1) i(1) by blast
  ultimately show ?thesis by blast
qed

lemma process_receipts_phases:
  assumes "quiet p" "tq_inv (dq_queue dq)"
  shows "\<exists>res. process_receipts C env st layout exceeded gas_limit local_receipts incoming_receipts tq (p, dq) = Some res
    \<and> (\<forall>p' dq' tq'. res = Ok ((p', dq'), tq') \<longrightarrow> (\<exists>s1 s2 p3.
        splits C env st layout (Some LocalSource) local_receipts (p, dq) s1 \<and> drains C env st layout s1 s2
        \<and> splits C env st layout None incoming_receipts s2 (p3, dq') \<and> sunk C (as_config st) layout p3 p'
        \<and> pr_outcomes p' = pr_outcomes p3 \<and> pr_processed p' = pr_processed p3 \<and> rp_trie (pr_state p') = rp_trie (pr_state p3)))"
proof -
  define limit where "limit = (case gas_limit of Some g \<Rightarrow> g | None \<Rightarrow> - 1)"
  note step = process_receipts_def Let_def limit_def [symmetric]
  obtain r1 where r1: "process_local_receipts C env st layout exceeded limit local_receipts (p, dq) = Some r1"
      "\<forall>s'. r1 = Ok s' \<longrightarrow> splits C env st layout (Some LocalSource) local_receipts (p, dq) s'"
    using local_phase [OF assms] by blast
  show ?thesis
  proof (cases r1)
    case s1: (Ok s1)
    then have q1: "quiet (fst s1)" "tq_inv (dq_queue (snd s1))" using r1(2) by (auto simp: splits_def)
    obtain r2 where r2: "process_delayed_receipts C env st layout exceeded limit s1 = Some r2" "\<forall>s'. r2 = Ok s' \<longrightarrow> drains C env st layout s1 s'"
      using delayed_phase [OF q1, of C env st layout exceeded limit] by auto
    show ?thesis
    proof (cases r2)
      case s2: (Ok s2)
      then have q2: "quiet (fst s2)" "tq_inv (dq_queue (snd s2))" using r2(2) by (auto simp: drains_def)
      obtain r3 where r3: "process_incoming_receipts C env st layout exceeded limit incoming_receipts s2 = Some r3"
          "\<forall>s'. r3 = Ok s' \<longrightarrow> splits C env st layout None incoming_receipts s2 s'"
        using incoming_phase [OF q2, of C env st layout exceeded limit incoming_receipts] by auto
      show ?thesis
      proof (cases r3)
        case s3: (Ok s3)
        show ?thesis
        proof (cases "resolve_promise_yield_timeouts C st layout exceeded limit 0 (snd s3) tq (fst s3)")
          case (Ok x)
          obtain p' tq' where x: "x = (p', tq')" by (cases x)
          have "process_receipts C env st layout exceeded gas_limit local_receipts incoming_receipts tq (p, dq) = Some (Ok ((p', snd s3), tq'))"
            using r1(1) r2(1) r3(1) s1 s2 s3 Ok x by (simp add: step)
          moreover note timeouts_sunk [OF Ok [unfolded x]]
          moreover have "splits C env st layout None incoming_receipts s2 (fst s3, snd s3)" using r3(2) s3 by simp
          ultimately show ?thesis using r1(2) r2(2) s1 s2 by fastforce
        qed (simp add: step r1(1) r2(1) r3(1) s1 s2 s3)
      qed (simp add: step r1(1) r2(1) r3(1) s1 s2)
    qed (simp add: step r1(1) r2(1) s1)
  qed (simp add: step r1(1))
qed

lemma process_receipts_exact:
  assumes ok: "sink_ok C (as_config st) layout q0 (pr_sink p)" and quiet: "quiet p"
    and routed: "\<forall>r \<in> set (local_receipts @ incoming_receipts). is_ok (receiver_shard_id layout r)"
    and res: "process_receipts C env st layout exceeded gas_limit local_receipts incoming_receipts tq (p, new_wrapper q0) = Some (Ok ((p', dq), tq'))"
    and info: "apply_congestion_changes dq (own_congestion_info (pr_sink p')) = Ok info"
  shows "bootstrap_congestion_info C (as_config st) shard (dq_queue dq) (outgoing_buffers (pr_sink p')) = Ok (info \<lparr> allowed_shard := ucast shard \<rparr>)"
    and "copies r (pr_sink p') + count_list (rp_outgoing (pr_state p)) r = copies r (pr_sink p) + count_list (rp_outgoing (pr_state p')) r"
    and "\<exists>handled p3. scheduled (\<lambda>r. receiver_shard_id layout r = Ok (as_shard_id st)) (map into_receipt (tq_list q0))
          local_receipts incoming_receipts handled (queued dq)
        \<and> run_receipts C env st layout handled p = Some (Ok p3)
        \<and> pr_outcomes p' = pr_outcomes p3 \<and> pr_processed p' = pr_processed p3 \<and> rp_trie (pr_state p') = rp_trie (pr_state p3)"
proof -
  have dq0: "delayed_ok C (as_config st) layout q0 (new_wrapper q0)" and inv: "tq_inv (dq_queue (new_wrapper q0))"
    using ok by (simp_all add: delayed_ok_def new_wrapper_def sink_ok_def queue_ok_def)
  obtain s1 s2 p3 where ph: "splits C env st layout (Some LocalSource) local_receipts (p, new_wrapper q0) s1" "drains C env st layout s1 s2"
      "splits C env st layout None incoming_receipts s2 (p3, dq)" and p3: "sunk C (as_config st) layout p3 p'"
      "pr_outcomes p' = pr_outcomes p3" "pr_processed p' = pr_processed p3" "rp_trie (pr_state p') = rp_trie (pr_state p3)"
    using process_receipts_phases [OF quiet inv, of C env st layout exceeded gas_limit local_receipts incoming_receipts tq] res by auto
  obtain handled where h: "scheduled (\<lambda>r. receiver_shard_id layout r = Ok (as_shard_id st)) (queued (new_wrapper q0)) local_receipts incoming_receipts
        handled (queued dq)" "run_receipts C env st layout handled p = Some (Ok p3)"
    using phases_scheduled [OF ph] by auto
  then show "\<exists>handled p3. scheduled (\<lambda>r. receiver_shard_id layout r = Ok (as_shard_id st)) (map into_receipt (tq_list q0))
          local_receipts incoming_receipts handled (queued dq)
        \<and> run_receipts C env st layout handled p = Some (Ok p3)
        \<and> pr_outcomes p' = pr_outcomes p3 \<and> pr_processed p' = pr_processed p3 \<and> rp_trie (pr_state p') = rp_trie (pr_state p3)"
    using p3(2-4) by (auto simp: new_wrapper_def)
  have "delayed_ok C (as_config st) layout q0 dq" using ph dq0 routed by (simp add: splits_def drains_def)
  moreover have sunk: "sunk C (as_config st) layout p p'" using run_receipts_sunk [OF quiet h(2)] p3(1) sunk_trans by blast
  ultimately show "bootstrap_congestion_info C (as_config st) shard (dq_queue dq) (outgoing_buffers (pr_sink p')) = Ok (info \<lparr> allowed_shard := ucast shard \<rparr>)"
    using changes_exact [OF sunk_ok(1) [OF ok sunk]] info by blast
  show "copies r (pr_sink p') + count_list (rp_outgoing (pr_state p)) r = copies r (pr_sink p) + count_list (rp_outgoing (pr_state p')) r"
    by (rule sunk_ok(2) [OF ok sunk])
qed

text \<open>
  C11: The receipts of a chunk. Start from a sink whose counters are the sums over the delayed
  and the buffered receipts and whose metadata describes the buffers. Then forwarding from the
  buffers succeeds, and after the receipts of the transactions were sunk the processing of the
  local, delayed and incoming receipts ends, whatever the limits are. If it succeeds, then the
  local receipts were processed first, then the front of the delayed queue, then the incoming
  ones, each list in its order and each receipt at most once; what was not reached waits in the
  queue in order, and nothing is lost. Every receipt sent is forwarded or buffered exactly once,
  and the congestion info published for the chunk is what counting the stored queues anew gives.
\<close>

theorem chunk_receipts_exact:
  assumes ok: "sink_ok C (as_config st) layout q0 (pr_sink p)" and parents: "get_split_parent_shard_ids layout = Ok parents"
    and known: "\<forall>sh. tq_list (to_shard sh (outgoing_buffers (pr_sink p))) \<noteq> [] \<longrightarrow> sh \<in> set parents \<union> set (shard_ids layout)"
    and quiet: "rp_instant (pr_state p) = []"
    and routed: "\<forall>r \<in> set (local_receipts @ incoming_receipts). is_ok (receiver_shard_id layout r)"
  shows "\<exists>sink1. forward_from_buffer C (as_config st) layout (pr_sink p) = Ok sink1
    \<and> (\<forall>sent sink2. sink_receipts C (as_config st) layout sent sink1 = Ok sink2 \<longrightarrow>
        (\<exists>res. process_receipts C env st layout exceeded gas_limit local_receipts incoming_receipts tq
            (p \<lparr> pr_sink := sink2 \<rparr>, new_wrapper q0) = Some res
          \<and> (\<forall>p' dq tq' info. res = Ok ((p', dq), tq') \<and> apply_congestion_changes dq (own_congestion_info (pr_sink p')) = Ok info \<longrightarrow>
            bootstrap_congestion_info C (as_config st) shard (dq_queue dq) (outgoing_buffers (pr_sink p')) = Ok (info \<lparr> allowed_shard := ucast shard \<rparr>)
            \<and> (\<forall>r. copies r (pr_sink p') + count_list (rp_outgoing (pr_state p)) r
                = copies r (pr_sink p) + count_list sent r + count_list (rp_outgoing (pr_state p')) r)
            \<and> (\<exists>handled p3. scheduled (\<lambda>r. receiver_shard_id layout r = Ok (as_shard_id st)) (map into_receipt (tq_list q0))
                  local_receipts incoming_receipts handled (map into_receipt (tq_list (dq_queue dq)))
                \<and> run_receipts C env st layout handled (p \<lparr> pr_sink := sink2 \<rparr>) = Some (Ok p3)
                \<and> pr_outcomes p' = pr_outcomes p3 \<and> pr_processed p' = pr_processed p3 \<and> rp_trie (pr_state p') = rp_trie (pr_state p3)))))"
proof -
  obtain sink1 where s1: "forward_from_buffer C (as_config st) layout (pr_sink p) = Ok sink1" "sink_ok C (as_config st) layout q0 sink1"
      "\<forall>r. copies r sink1 = copies r (pr_sink p)"
    using forward_from_buffer_ok [OF ok parents] known by blast
  show ?thesis
  proof (intro exI [of _ sink1] conjI s1(1) allI impI, goal_cases)
    case (1 sent sink2)
    note s2 = sink_receipts_ok [OF s1(2) 1]
    let ?p = "p \<lparr> pr_sink := sink2 \<rparr>"
    have p: "sink_ok C (as_config st) layout q0 (pr_sink ?p)" "quiet ?p" "tq_inv (dq_queue (new_wrapper q0))"
      using s2 quiet ok by (simp_all add: new_wrapper_def sink_ok_def queue_ok_def)
    note exact = process_receipts_exact [OF p(1,2) routed]
    show ?case
      using process_receipts_phases [OF p(2,3), of C env st layout exceeded gas_limit local_receipts incoming_receipts tq] exact s1(3) s2
      by fastforce
  qed
qed

definition e_limited_sink :: ReceiptSink where
  "e_limited_sink = \<lparr> own_congestion_info = \<lparr> delayed_receipts_gas = 0, buffered_receipts_gas = 0, receipt_bytes = 0, allowed_shard = 0 \<rparr>,
     outgoing_receipts = [], outgoing_limit = (\<lambda>_. Some \<lparr> lim_gas = 0, lim_size = 0 \<rparr>), outgoing_buffers = [],
     outgoing_metadatas = \<lparr> metadatas = (\<lambda>_. None), groups_config = default_groups_config \<rparr> \<rparr>"

definition e_data_receipt :: "AccountId \<Rightarrow> Receipt" where
  "e_data_receipt receiver = \<lparr> r_predecessor_id = ''bob'', r_receiver_id = receiver, r_receipt_id = replicate 32 7,
     r_receipt = RData \<lparr> dr_data_id = replicate 32 3, dr_data = None \<rparr> \<rparr>"

definition e_start :: ApplyProcessingReceiptState where
  "e_start = \<lparr> pr_state = l_proc, pr_sink = e_limited_sink, pr_gas = 0, pr_compute = 0, pr_outcomes = [], pr_processed = [] \<rparr>"

definition e_sunk :: ReceiptSink where
  "e_sunk = (case sink_receipts toy_crypto unit_config e_layout [e_data_receipt ''zoe''] e_limited_sink of Ok s \<Rightarrow> s | Err _ \<Rightarrow> e_limited_sink)"

definition e_run :: "(chunk_state \<times> PromiseYieldTimeout TrieQueue) run" where
  "e_run = process_receipts toy_crypto l_env l_state e_layout (\<lambda>s. pr_processed (fst s) \<noteq> []) (Some 100)
     [e_data_receipt ''john'', e_data_receipt ''kate''] [e_data_receipt ''john''] empty_queue
     (e_start \<lparr> pr_sink := e_sunk \<rparr>, new_wrapper empty_queue)"

lemma e_forward: "forward_from_buffer toy_crypto unit_config e_layout e_limited_sink = Ok e_limited_sink"
  by (simp add: forward_from_buffer_def get_split_parent_shard_ids_def try_get_parent_shard_id_def e_layout_def e_limited_sink_def
      forward_from_buffer_to_shard_def to_shard_def tq_iter_def empty_queue_def pop_n_def)

lemma e_receipt_facts:
  "compute_receipt_size (e_data_receipt ''john'') = Ok 81" "compute_receipt_size (e_data_receipt ''kate'') = Ok 81"
  "compute_receipt_size (e_data_receipt ''zoe'') = Ok 80" "compute_receipt_congestion_gas toy_crypto unit_config (e_data_receipt r) = Ok 0"
  "receiver_shard_id e_layout (e_data_receipt ''john'') = Ok 0" "receiver_shard_id e_layout (e_data_receipt ''kate'') = Ok 0"
  "receiver_shard_id e_layout (e_data_receipt ''zoe'') = Ok 2" "use_state_stored_receipt unit_config"
  "80 \<le> max_receipt_size (limit_config unit_config)"
  by (simp_all add: compute_receipt_size_def compute_receipt_congestion_gas_def receiver_shard_id_def e_data_receipt_def borsh_receipt_def
      borsh_string_def borsh_len_def borsh_data_receipt_def account_id_to_shard_id_def e_layout_def less_eq_char_def as_bytes_def unit_config_def)

lemma e_sunk_facts: "sink_receipts toy_crypto unit_config e_layout [e_data_receipt ''zoe''] e_limited_sink = Ok e_sunk"
  "receipt_bytes (own_congestion_info e_sunk) = 80" "delayed_receipts_gas (own_congestion_info e_sunk) = 0"
  by (simp_all add: e_sunk_def forward_or_buffer_receipt_def try_forward_def buffer_receipt_def
      e_receipt_facts e_limited_sink_def empty_queue_def push_back_def checked_add_def
      add_receipt_bytes_def add_buffered_receipt_gas_def metadata_pushed_def groups_pushed_def new_groups_queue_def to_shard_def
      add_size_checked_def add_gas_checked_def pop_back_def new_group_def Let_def min_def)

lemma e_valid: "validate_receipt toy_crypto (limit_config unit_config) (e_data_receipt ''john'') pv ExistingReceipt = Ok ()"
proof -
  have "validate toy_crypto ''bob'' = Ok ()" "validate toy_crypto ''john'' = Ok ()"
    by (simp_all add: validate_def MIN_LEN_def MAX_LEN_def lower_alnum_def separator_def Let_def)
  then show ?thesis
    by (simp add: validate_receipt_def validate_account_def e_data_receipt_def validate_data_receipt_def unit_config_def)
qed

lemma e_processed:
  "\<exists>s. process_receipt_and_instant_receipts toy_crypto l_env l_state e_layout (e_data_receipt ''john'') (e_start \<lparr> pr_sink := e_sunk \<rparr>)
     = Some (Ok (e_start \<lparr> pr_sink := e_sunk, pr_state := l_proc \<lparr> rp_trie := s \<rparr> \<rparr>))"
  by (simp add: process_receipt_and_instant_receipts_def process_receipt_with_metrics_def process_receipt_def e_data_receipt_def
      process_data_receipt_def process_instant_receipts.simps [of toy_crypto] e_start_def l_proc_def
      w_empty_def set_account_def set_received_data_def trie_read_def Let_def)

lemma e_run_facts:
  "\<exists>p dq info. e_run = Some (Ok ((p, dq), empty_queue)) \<and> pr_processed p = [(e_data_receipt ''john'', LocalSource)]
     \<and> pr_sink p = e_sunk \<and> rp_outgoing (pr_state p) = []
     \<and> queued dq = [e_data_receipt ''kate'', e_data_receipt ''john'']
     \<and> apply_congestion_changes dq (own_congestion_info (pr_sink p)) = Ok info \<and> receipt_bytes info = 242"
proof -
  obtain s where s: "process_receipt_and_instant_receipts toy_crypto l_env l_state e_layout (e_data_receipt ''john'') (e_start \<lparr> pr_sink := e_sunk \<rparr>)
      = Some (Ok (e_start \<lparr> pr_sink := e_sunk, pr_state := l_proc \<lparr> rp_trie := s \<rparr> \<rparr>))"
    using e_processed by blast
  have st: "as_config l_state = unit_config" by (simp add: l_state_def)
  let ?stored = "\<lambda>r. StoredReceipt (SsrV1 (e_data_receipt r) \<lparr> congestion_gas = 0, congestion_size = 81 \<rparr>)"
  let ?p = "push_processed (e_data_receipt ''john'') LocalSource (e_start \<lparr> pr_sink := e_sunk, pr_state := l_proc \<lparr> rp_trie := s \<rparr> \<rparr>)"
  let ?q = "empty_queue \<lparr> next_available_index := 2, tq_items := [0 \<mapsto> ?stored ''kate'', 1 \<mapsto> ?stored ''john''] \<rparr>"
  let ?dq = "(new_wrapper ?q) \<lparr> new_delayed_bytes := 162 \<rparr>"
  have p: "pr_processed ?p = [(e_data_receipt ''john'', LocalSource)]" "rp_outgoing (pr_state ?p) = []" "pr_sink ?p = e_sunk"
    "pr_processed (e_start \<lparr> pr_sink := e_sunk \<rparr>) = []" "pr_compute (e_start \<lparr> pr_sink := e_sunk \<rparr>) = 0"
    by (simp_all add: push_processed_def e_start_def l_proc_def)
  have "process_local_receipts toy_crypto l_env l_state e_layout (\<lambda>s. pr_processed (fst s) \<noteq> []) 100
      [e_data_receipt ''john'', e_data_receipt ''kate''] (e_start \<lparr> pr_sink := e_sunk \<rparr>, new_wrapper empty_queue)
    = Some (Ok (?p, (new_wrapper (empty_queue \<lparr> next_available_index := 1, tq_items := [0 \<mapsto> ?stored ''kate''] \<rparr>)) \<lparr> new_delayed_bytes := 81 \<rparr>))"
    by (simp add: limit_reached_def p s st delayed_push_def e_receipt_facts new_wrapper_def empty_queue_def push_back_def checked_add_def)
  moreover have "process_delayed_receipts toy_crypto l_env l_state e_layout (\<lambda>s. pr_processed (fst s) \<noteq> []) 100 (?p, dq) = Some (Ok (?p, dq))" for dq
    by (simp add: process_delayed_receipts.simps [of toy_crypto] limit_reached_def p)
  moreover have "process_incoming_receipts toy_crypto l_env l_state e_layout (\<lambda>s. pr_processed (fst s) \<noteq> []) 100 [e_data_receipt ''john'']
      (?p, (new_wrapper (empty_queue \<lparr> next_available_index := 1, tq_items := [0 \<mapsto> ?stored ''kate''] \<rparr>)) \<lparr> new_delayed_bytes := 81 \<rparr>)
    = Some (Ok (?p, ?dq))"
    by (simp add: limit_reached_def p st e_valid delayed_push_def e_receipt_facts new_wrapper_def empty_queue_def push_back_def checked_add_def)
  moreover have "resolve_promise_yield_timeouts toy_crypto l_state e_layout ex lim i dq empty_queue pr = Ok (pr, empty_queue)" for ex lim i dq pr
    by (simp add: resolve_promise_yield_timeouts.simps [of toy_crypto] empty_queue_def)
  ultimately have "e_run = Some (Ok ((?p, ?dq), empty_queue))" by (simp add: e_run_def process_receipts_def)
  moreover have "queued ?dq = [e_data_receipt ''kate'', e_data_receipt ''john'']"
    by (simp add: new_wrapper_def tq_list_def empty_queue_def upt_rec)
  moreover have "\<exists>info. apply_congestion_changes ?dq (own_congestion_info e_sunk) = Ok info \<and> receipt_bytes info = 242"
    by (simp add: new_wrapper_def apply_congestion_changes_def add_delayed_receipt_gas_def e_sunk_facts
      remove_delayed_receipt_gas_def add_receipt_bytes_def remove_receipt_bytes_def checked_add_def checked_sub_def)
  ultimately show ?thesis using p(1-3) by metis
qed

theorem chunk_receipts_exact_witness:
  "\<exists>p dq info. e_run = Some (Ok ((p, dq), empty_queue)) \<and> pr_processed p = [(e_data_receipt ''john'', LocalSource)]
     \<and> queued dq = [e_data_receipt ''kate'', e_data_receipt ''john''] \<and> copies (e_data_receipt ''zoe'') (pr_sink p) = 1
     \<and> receipt_bytes info = 242
     \<and> bootstrap_congestion_info toy_crypto unit_config 0 (dq_queue dq) (outgoing_buffers (pr_sink p)) = Ok (info \<lparr> allowed_shard := 0 \<rparr>)"
proof -
  have st: "as_config l_state = unit_config" and e: "pr_sink e_start = e_limited_sink" "rp_instant (pr_state e_start) = []" "rp_outgoing (pr_state e_start) = []"
    by (simp_all add: l_state_def e_start_def l_proc_def)
  have ok: "sink_ok toy_crypto (as_config l_state) e_layout empty_queue (pr_sink e_start)"
    by (simp add: st e sink_ok_def e_limited_sink_def bt_inv_def queue_ok_def total_of_def meta_ok_def to_shard_def)
  have parents: "get_split_parent_shard_ids e_layout = Ok []"
    by (simp add: get_split_parent_shard_ids_def try_get_parent_shard_id_def e_layout_def)
  have known: "\<forall>sh. tq_list (to_shard sh (outgoing_buffers (pr_sink e_start))) \<noteq> [] \<longrightarrow> sh \<in> set [] \<union> set (shard_ids e_layout)"
    by (simp add: e e_limited_sink_def to_shard_def)
  have routed: "\<forall>r \<in> set ([e_data_receipt ''john'', e_data_receipt ''kate''] @ [e_data_receipt ''john'']). is_ok (receiver_shard_id e_layout r)"
    by (simp add: e_receipt_facts)
  obtain p dq info where run: "e_run = Some (Ok ((p, dq), empty_queue))" "pr_processed p = [(e_data_receipt ''john'', LocalSource)]"
      "rp_outgoing (pr_state p) = []" "queued dq = [e_data_receipt ''kate'', e_data_receipt ''john'']"
      "apply_congestion_changes dq (own_congestion_info (pr_sink p)) = Ok info" "receipt_bytes info = 242"
    using e_run_facts by (elim exE conjE) (rule that)
  have "copies (e_data_receipt ''zoe'') e_limited_sink = 0" by (simp add: copies_def e_limited_sink_def total_of_def)
  moreover
  note chunk_receipts_exact [OF ok parents known e(2) routed, of l_env "\<lambda>s. pr_processed (fst s) \<noteq> []" "Some 100" empty_queue 0,
      unfolded st e e_forward result.inject simp_thms, THEN spec, THEN spec, THEN mp, OF e_sunk_facts(1),
      folded e_run_def, unfolded run(1) option.inject simp_thms, THEN spec, THEN spec, THEN spec, THEN spec, THEN mp, OF conjI, OF refl run(5)]
  ultimately have "bootstrap_congestion_info toy_crypto unit_config 0 (dq_queue dq) (outgoing_buffers (pr_sink p)) = Ok (info \<lparr> allowed_shard := 0 \<rparr>)
      \<and> copies (e_data_receipt ''zoe'') (pr_sink p) = 1"
    using run(3) by simp
  then show ?thesis using run by (auto intro!: exI [of _ p] exI [of _ dq] exI [of _ info])
qed

end
