(* ===== verification/Rpc_Mempool.thy ===== *)
theory Rpc_Mempool
  imports Account_Id BTree_Map
begin

text \<open>
  The mempool queries of the Bitcoin RPC server (\<open>bitinfinity-btcrpc/src/main.rs\<close>): the graph of
  the pending transactions of the cache, and \<open>getmempoolancestors\<close> and \<open>getmempooldescendants\<close>.
  A \<open>HashMap\<close> that is iterated is an association list in an arbitrary order of its entries; one that
  is only looked up is a sorted list. Decoding of a raw transaction is done by the \<open>hex\<close> and \<open>bitcoin\<close> crates
  and is a parameter. The constant fields of the answers are left out.
\<close>

section \<open>The cache\<close>

record TxCacheEntry =
  near_tx_hash :: string
  raw_hex :: string
  tc_sender_id :: string
  tc_receiver_id :: string
  amount_satoshis :: u64
  block_height :: u64
  is_incoming :: bool

type_synonym tx_cache = "(string \<times> TxCacheEntry) list"

definition is_pending_mempool_entry :: "TxCacheEntry \<Rightarrow> bool" where
  "is_pending_mempool_entry entry = starts_with (near_tx_hash entry) ''pending:''"

text \<open>The input transaction ids, none if the transaction cannot be decoded.\<close>

definition parse_input_txids_from_raw_hex ::
  "(string \<Rightarrow> bytes option) \<Rightarrow> (bytes \<Rightarrow> string list option) \<Rightarrow> string \<Rightarrow> string list" where
  "parse_input_txids_from_raw_hex hex_dec deserialize raw =
     (if raw = [] then []
      else case hex_dec raw of
        None \<Rightarrow> []
      | Some b \<Rightarrow> (case deserialize b of None \<Rightarrow> [] | Some txids \<Rightarrow> txids))"

section \<open>The graph\<close>

text \<open>The list of a key, empty if it has none.\<close>

definition hops :: "(string, string list) btree \<Rightarrow> string \<Rightarrow> string list" where
  "hops adjacency txid = (case bt_get adjacency txid of Some l \<Rightarrow> l | None \<Rightarrow> [])"

definition add_child :: "string \<Rightarrow> string \<Rightarrow> (string, string list) btree \<Rightarrow> (string, string list) btree" where
  "add_child txid input_txid children = bt_insert input_txid (hops children input_txid @ [txid]) children"

definition add_entry ::
  "(string \<Rightarrow> string list) \<Rightarrow> tx_cache \<Rightarrow> string \<times> TxCacheEntry
     \<Rightarrow> (string, string list) btree \<times> (string, string list) btree \<Rightarrow> (string, string list) btree \<times> (string, string list) btree" where
  "add_entry parse pending e g =
     (let direct_parents = filter (\<lambda>i. i \<in> fst ` set pending) (parse (raw_hex (snd e)));
          children = fold (add_child (fst e)) direct_parents (snd g);
          sorted_parents = remdups_adj (sort direct_parents)
      in (if sorted_parents = [] then fst g else bt_insert (fst e) sorted_parents (fst g), children))"

definition build_pending_mempool_graph ::
  "(string \<Rightarrow> string list) \<Rightarrow> tx_cache \<Rightarrow> (string, string list) btree \<times> (string, string list) btree" where
  "build_pending_mempool_graph parse pending =
     (case fold (add_entry parse pending) pending ([], []) of
        (parents, children) \<Rightarrow> (parents, map (\<lambda>(k, txids). (k, remdups_adj (sort txids))) children))"

text \<open>A step of the search either visits a new key of the graph or makes the stack shorter.\<close>

lemma visit_smaller:
  assumes "x \<notin> visited" "hops adjacency x \<noteq> []"
  shows "card (set (map fst adjacency) - insert x visited) < card (set (map fst adjacency) - visited)"
proof (rule psubset_card_mono)
  have "x \<in> set (map fst adjacency)" using assms(2) bt_get_None [of adjacency x] by (auto simp: hops_def split: option.splits)
  then show "set (map fst adjacency) - insert x visited \<subset> set (map fst adjacency) - visited" using assms(1) by blast
qed simp

text \<open>The search: the end of the list is the top of the stack.\<close>

function collect_loop ::
  "(string, string list) btree \<Rightarrow> string set \<Rightarrow> string list \<Rightarrow> string list \<Rightarrow> string list" where
  "collect_loop adjacency visited stack result =
     (if stack = [] then result
      else let next_txid = last stack; rest = butlast stack in
        if next_txid \<in> visited then collect_loop adjacency visited rest result
        else collect_loop adjacency (insert next_txid visited)
          (rest @ filter (\<lambda>h. h \<notin> insert next_txid visited) (hops adjacency next_txid)) (result @ [next_txid]))"
  by pat_completeness auto
termination
proof (relation "measures [\<lambda>(adjacency, visited, stack, result). card (set (map fst adjacency) - visited),
    \<lambda>(adjacency, visited, stack, result). length stack]", goal_cases)
  case (3 adjacency visited stack result x rest)
  have le: "card (set (map fst adjacency) - insert x visited) \<le> card (set (map fst adjacency) - visited)"
    by (intro card_mono) auto
  show ?case
  proof (cases "hops adjacency x = []")
    case True
    then show ?thesis using 3 le by (auto simp: le_less)
  next
    case False
    then show ?thesis using visit_smaller [of x visited adjacency] 3 by simp
  qed
qed auto

declare collect_loop.simps [simp del]

definition collect_transitive_related_txids :: "string \<Rightarrow> (string, string list) btree \<Rightarrow> string list" where
  "collect_transitive_related_txids root_txid adjacency = sort (collect_loop adjacency {} (hops adjacency root_txid) [])"

section \<open>The queries\<close>

record MempoolEntry =
  vsize :: nat
  weight_units :: nat
  entry_time :: int
  entry_height :: u64
  descendantcount :: nat
  descendantsize :: nat
  descendantfees :: nat
  ancestorcount :: nat
  ancestorsize :: nat
  ancestorfees :: nat
  depends :: "string list"
  spentby :: "string list"

definition build_mempool_relationship_entry :: "TxCacheEntry \<Rightarrow> string list \<Rightarrow> string list \<Rightarrow> int \<Rightarrow> MempoolEntry" where
  "build_mempool_relationship_entry entry ds sb now =
     (let vs = (if raw_hex entry = [] then 250 else length (raw_hex entry) div 2);
          ancestor_count = length ds + 1;
          descendant_count = length sb + 1
      in \<lparr> vsize = vs, weight_units = vs * 4, entry_time = now, entry_height = block_height entry,
           descendantcount = descendant_count, descendantsize = vs * descendant_count, descendantfees = 1000 * descendant_count,
           ancestorcount = ancestor_count, ancestorsize = vs * ancestor_count, ancestorfees = 1000 * ancestor_count,
           depends = ds, spentby = sb \<rparr>)"

datatype rpc_response = RpcError int string | TxidList "string list" | TxidEntries "(string, MempoolEntry) btree"

definition pending_entries :: "tx_cache \<Rightarrow> tx_cache" where
  "pending_entries cache = filter (\<lambda>(_, entry). is_pending_mempool_entry entry) cache"

definition relationship_entries ::
  "tx_cache \<Rightarrow> (string, string list) btree \<Rightarrow> (string, string list) btree \<Rightarrow> int \<Rightarrow> string list \<Rightarrow> (string, MempoolEntry) btree" where
  "relationship_entries pending parents children now txids =
     fold (\<lambda>t m. case map_of pending t of
         None \<Rightarrow> m
       | Some entry \<Rightarrow> bt_insert t (build_mempool_relationship_entry entry (hops parents t) (hops children t) now) m) txids []"

definition handle_getmempoolancestors ::
  "(string \<Rightarrow> bytes option) \<Rightarrow> (bytes \<Rightarrow> string list option) \<Rightarrow> int \<Rightarrow> tx_cache \<Rightarrow> string option \<Rightarrow> bool option \<Rightarrow> rpc_response" where
  "handle_getmempoolancestors hex_dec deserialize now cache txid_param verbose_param =
     (case txid_param of
        None \<Rightarrow> RpcError (- 32602) ''Missing txid parameter''
      | Some txid \<Rightarrow>
          let verbose = (case verbose_param of Some b \<Rightarrow> b | None \<Rightarrow> False);
              pending = pending_entries cache in
          if txid \<notin> fst ` set pending then RpcError (- 5) (''Transaction '' @ txid @ '' not in mempool'')
          else case build_pending_mempool_graph (parse_input_txids_from_raw_hex hex_dec deserialize) pending of
            (parents, children) \<Rightarrow>
              let ancestor_txids = collect_transitive_related_txids txid parents in
              if \<not> verbose then TxidList ancestor_txids
              else TxidEntries (relationship_entries pending parents children now ancestor_txids))"

definition handle_getmempooldescendants ::
  "(string \<Rightarrow> bytes option) \<Rightarrow> (bytes \<Rightarrow> string list option) \<Rightarrow> int \<Rightarrow> tx_cache \<Rightarrow> string option \<Rightarrow> bool option \<Rightarrow> rpc_response" where
  "handle_getmempooldescendants hex_dec deserialize now cache txid_param verbose_param =
     (case txid_param of
        None \<Rightarrow> RpcError (- 32602) ''Missing txid parameter''
      | Some txid \<Rightarrow>
          let verbose = (case verbose_param of Some b \<Rightarrow> b | None \<Rightarrow> False);
              pending = pending_entries cache in
          if txid \<notin> fst ` set pending then RpcError (- 5) (''Transaction '' @ txid @ '' not in mempool'')
          else case build_pending_mempool_graph (parse_input_txids_from_raw_hex hex_dec deserialize) pending of
            (parents, children) \<Rightarrow>
              let descendant_txids = collect_transitive_related_txids txid children in
              if \<not> verbose then TxidList descendant_txids
              else TxidEntries (relationship_entries pending parents children now descendant_txids))"

section \<open>The search finds what can be reached\<close>

definition edges :: "(string, string list) btree \<Rightarrow> (string \<times> string) set" where
  "edges adjacency = {(t, u). u \<in> set (hops adjacency t)}"

lemma collect_loop_spec:
  assumes "distinct result" "set result = visited" "\<forall>v \<in> visited. set (hops adjacency v) \<subseteq> visited \<union> set stack"
  defines "out \<equiv> collect_loop adjacency visited stack result"
  shows "distinct out \<and> visited \<union> set stack \<subseteq> set out \<and> (\<forall>v \<in> set out. set (hops adjacency v) \<subseteq> set out)
    \<and> set out \<subseteq> visited \<union> (edges adjacency)\<^sup>* `` set stack"
  using assms(1-3) unfolding out_def
proof (induction adjacency visited stack result rule: collect_loop.induct)
  case (1 adjacency visited stack result)
  show ?case
  proof (cases "stack = []")
    case True
    then show ?thesis using "1.prems" by (subst (1 2 3 4 5) collect_loop.simps) auto
  next
    case False
    define x where "x = last stack"
    define rest where "rest = butlast stack"
    have stack: "set stack = insert x (set rest)" using False by (metis x_def rest_def append_butlast_last_id list.simps(15) rotate1.simps(2) set_rotate1)
    show ?thesis
    proof (cases "x \<in> visited")
      case True
      have "collect_loop adjacency visited stack result = collect_loop adjacency visited rest result"
        using True False by (subst collect_loop.simps) (simp add: x_def rest_def)
      moreover have "\<forall>v \<in> visited. set (hops adjacency v) \<subseteq> visited \<union> set rest" using "1.prems"(3) stack True by auto
      note IH = "1.IH"(1) [OF False x_def rest_def True "1.prems"(1,2) this]
      ultimately show ?thesis using IH stack True by auto
    next
      case new: False
      let ?next = "rest @ filter (\<lambda>h. h \<notin> insert x visited) (hops adjacency x)"
      have eq: "collect_loop adjacency visited stack result = collect_loop adjacency (insert x visited) ?next (result @ [x])"
        using new False by (subst collect_loop.simps) (simp add: x_def rest_def Let_def)
      have "\<forall>v \<in> insert x visited. set (hops adjacency v) \<subseteq> insert x visited \<union> set ?next" using "1.prems"(3) stack by auto
      then have IH: "distinct out \<and> insert x visited \<union> set ?next \<subseteq> set out \<and> (\<forall>v \<in> set out. set (hops adjacency v) \<subseteq> set out)
          \<and> set out \<subseteq> insert x visited \<union> (edges adjacency)\<^sup>* `` set ?next"
        if "out = collect_loop adjacency (insert x visited) ?next (result @ [x])" for out
        using "1.IH"(2) [OF False x_def rest_def new] "1.prems"(1,2) new that by simp
      have "set ?next \<subseteq> set rest \<union> edges adjacency `` {x}" by (auto simp: edges_def)
      then have reach: "(edges adjacency)\<^sup>* `` set ?next \<subseteq> (edges adjacency)\<^sup>* `` set stack"
        unfolding stack by (auto intro: converse_rtrancl_into_rtrancl)
      have x: "x \<in> (edges adjacency)\<^sup>* `` set stack" "set rest \<subseteq> set ?next" using stack by auto
      note ih = IH [OF eq]
      have "visited \<union> set stack \<subseteq> set (collect_loop adjacency visited stack result)" using ih x(2) stack by simp
      moreover have "set (collect_loop adjacency visited stack result) \<subseteq> insert x visited \<union> (edges adjacency)\<^sup>* `` set stack"
        using ih reach by (meson Un_mono order_refl subset_trans)
      ultimately show ?thesis using ih x(1) by (simp add: insert_absorb subset_insert_iff)
    qed
  qed
qed

lemma collect_related:
  "sorted (collect_transitive_related_txids root adjacency)" "distinct (collect_transitive_related_txids root adjacency)"
  "set (collect_transitive_related_txids root adjacency) = (edges adjacency)\<^sup>+ `` {root}"
proof -
  let ?out = "collect_loop adjacency {} (hops adjacency root) []"
  have out: "distinct ?out" "set (hops adjacency root) \<subseteq> set ?out" "\<forall>v \<in> set ?out. set (hops adjacency v) \<subseteq> set ?out"
      "set ?out \<subseteq> (edges adjacency)\<^sup>* `` set (hops adjacency root)"
    using collect_loop_spec [of "[]" "{}" adjacency "hops adjacency root"] by auto
  have "set (hops adjacency root) = edges adjacency `` {root}" by (auto simp: edges_def)
  then have "set ?out \<subseteq> (edges adjacency)\<^sup>+ `` {root}" using out(4) by (auto dest: rtrancl_into_trancl2)
  moreover have "u \<in> set ?out" if "(root, u) \<in> (edges adjacency)\<^sup>+" for u
    using that by (induction rule: trancl_induct) (use out(2,3) in \<open>auto simp: edges_def\<close>)
  ultimately show "set (collect_transitive_related_txids root adjacency) = (edges adjacency)\<^sup>+ `` {root}"
    by (auto simp: collect_transitive_related_txids_def)
  show "sorted (collect_transitive_related_txids root adjacency)" "distinct (collect_transitive_related_txids root adjacency)"
    using out(1) by (simp_all add: collect_transitive_related_txids_def)
qed

section \<open>The graph is the spending relation\<close>

definition spends :: "(string \<Rightarrow> string list) \<Rightarrow> tx_cache \<Rightarrow> (string \<times> string) set" where
  "spends parse pending = {(t, u). u \<in> fst ` set pending \<and> (\<exists>e. (t, e) \<in> set pending \<and> u \<in> set (parse (raw_hex e)))}"

lemma hops_insert: "hops (bt_insert k l m) t = (if t = k then l else hops m t)"
  by (simp add: hops_def bt_get_insert)

lemma hops_children:
  "set (hops (fold (add_child txid) is m) t) = set (hops m t) \<union> (if t \<in> set is then {txid} else {})"
  by (induction "is" arbitrary: m) (auto simp: add_child_def hops_insert)

lemma fold_add_entry:
  fixes parse :: "string \<Rightarrow> string list" and pending :: tx_cache
  defines "ins e \<equiv> {i \<in> set (parse (raw_hex e)). i \<in> fst ` set pending}"
  assumes "distinct (map fst es)" "\<forall>t \<in> fst ` set es. hops (fst g) t = []" "fold (add_entry parse pending) es g = (ps, cs)"
  shows "set (hops ps t) = set (hops (fst g) t) \<union> (\<Union>e \<in> {e. (t, e) \<in> set es}. ins e)
    \<and> set (hops cs t) = set (hops (snd g) t) \<union> {u. \<exists>e. (u, e) \<in> set es \<and> t \<in> ins e}"
  using assms(2-4)
proof (induction es arbitrary: g)
  case (Cons x es)
  obtain k e where x: "x = (k, e)" by (cases x)
  define g' where "g' = add_entry parse pending x g"
  define dp where "dp = filter (\<lambda>i. i \<in> fst ` set pending) (parse (raw_hex e))"
  have dp: "set dp = ins e" by (auto simp: dp_def ins_def)
  have nil: "sort dp = [] \<longleftrightarrow> dp = []" by (metis set_empty set_sort)
  have g': "fst g' = (if dp = [] then fst g else bt_insert k (remdups_adj (sort dp)) (fst g))" "snd g' = fold (add_child k) dp (snd g)"
    using nil by (auto simp: g'_def add_entry_def x dp_def [symmetric] Let_def)
  have "hops (fst g) k = []" using Cons.prems(2) x by simp
  then have h: "set (hops (fst g') t) = set (hops (fst g) t) \<union> (if t = k then ins e else {})" for t
    using dp by (auto simp: g' hops_insert)
  have "\<forall>t \<in> fst ` set es. hops (fst g') t = []"
    using Cons.prems(1,2) x by (auto simp: g' hops_insert)
  moreover have "distinct (map fst es)" "fold (add_entry parse pending) es g' = (ps, cs)" using Cons.prems(1,3) by (simp_all add: g'_def)
  ultimately have "set (hops ps t) = set (hops (fst g') t) \<union> (\<Union>e \<in> {e. (t, e) \<in> set es}. ins e)"
      "set (hops cs t) = set (hops (snd g') t) \<union> {u. \<exists>e. (u, e) \<in> set es \<and> t \<in> ins e}"
    using Cons.IH [of g'] by blast+
  then show ?case unfolding h g'(2) hops_children dp by (auto simp: x split: if_splits)
qed simp

lemma bt_get_map: "bt_get (map (\<lambda>(k, v). (k, f v)) m) k = map_option f (bt_get m k)"
  by (induction m) auto

lemma graph_edges:
  assumes "distinct (map fst pending)" "build_pending_mempool_graph parse pending = (parents, children)"
  shows "edges parents = spends parse pending" "edges children = (spends parse pending)\<inverse>"
proof -
  obtain cs where f: "fold (add_entry parse pending) pending ([], []) = (parents, cs)"
      "children = map (\<lambda>(k, txids). (k, remdups_adj (sort txids))) cs"
    using assms(2) by (auto simp: build_pending_mempool_graph_def split: prod.splits)
  have "set (hops children t) = set (hops cs t)" for t
    by (simp add: hops_def f(2) bt_get_map split: option.split)
  then show "edges parents = spends parse pending" "edges children = (spends parse pending)\<inverse>"
    using fold_add_entry [OF assms(1) _ f(1)] by (auto simp: edges_def spends_def hops_def)
qed

lemma relationship_entries_keys:
  fixes pending :: "('k::linorder \<times> 'e) list" and f :: "'k \<Rightarrow> 'e \<Rightarrow> 'v" and ts :: "'k list" and init :: "('k, 'v) btree"
  assumes "bt_inv init"
  defines "m \<equiv> fold (\<lambda>t m. case map_of pending t of None \<Rightarrow> m | Some e \<Rightarrow> bt_insert t (f t e) m) ts init"
  shows "bt_inv m \<and> set (map fst m) = set (map fst init) \<union> (set ts \<inter> fst ` set pending)
    \<and> (\<forall>t e. t \<in> set ts \<and> map_of pending t = Some e \<longrightarrow> bt_get m t = Some (f t e))"
proof -
  have keep: "bt_get (fold (\<lambda>t m. case map_of pending t of None \<Rightarrow> m | Some e \<Rightarrow> bt_insert t (f t e) m) ts m1) t = Some (f t e)"
    if "map_of pending t = Some e" "t \<in> set ts \<or> bt_get m1 t = Some (f t e)" for ts m1 t e
    using that(2)
  proof (induction ts arbitrary: m1)
    case (Cons a ts)
    then show ?case using that(1) by (cases "a = t"; cases "map_of pending a") (simp_all add: bt_get_insert)
  qed simp
  have "bt_inv m \<and> set (map fst m) = set (map fst init) \<union> (set ts \<inter> fst ` set pending)"
    using assms(1) unfolding m_def
  proof (induction ts arbitrary: init)
    case (Cons t ts)
    show ?case
    proof (cases "map_of pending t")
      case None
      then have "t \<notin> fst ` set pending" by (simp add: map_of_eq_None_iff)
      then show ?thesis using Cons None by simp
    next
      case (Some e)
      then have "t \<in> fst ` set pending" by (metis map_of_SomeD image_eqI fst_conv)
      then show ?thesis using Cons.IH [OF bt_inv_insert [OF Cons.prems]] Some bt_keys_insert [of t "f t e" init] by auto
    qed
  qed simp
  then show ?thesis using keep by (auto simp: m_def)
qed

section \<open>The answers\<close>

definition pending_spends :: "(string \<Rightarrow> bytes option) \<Rightarrow> (bytes \<Rightarrow> string list option) \<Rightarrow> tx_cache \<Rightarrow> (string \<times> string) set" where
  "pending_spends hex_dec deserialize cache = spends (parse_input_txids_from_raw_hex hex_dec deserialize) (pending_entries cache)"

lemma entry_relations [simp]:
  "depends (build_mempool_relationship_entry e ds sb now) = ds" "spentby (build_mempool_relationship_entry e ds sb now) = sb"
  by (simp_all add: build_mempool_relationship_entry_def Let_def)

lemma hops_edges: "set (hops adjacency t) = {u. (t, u) \<in> edges adjacency}"
  by (simp add: edges_def)

lemma verbose_entries:
  fixes now :: int
  assumes "distinct (map fst pending)" "build_pending_mempool_graph parse pending = (parents, children)"
    and "sorted xs" "distinct xs" "set xs \<subseteq> fst ` set pending"
  defines "m \<equiv> relationship_entries pending parents children now xs"
  shows "map fst m = xs" "\<forall>t \<in> set xs. \<exists>me. bt_get m t = Some me \<and> set (depends me) = {u. (t, u) \<in> spends parse pending}
    \<and> set (spentby me) = {u. (u, t) \<in> spends parse pending}"
proof -
  note k = relationship_entries_keys [where init = "[]" and pending = pending and ts = xs
      and f = "\<lambda>t entry. build_mempool_relationship_entry entry (hops parents t) (hops children t) now",
      folded relationship_entries_def, folded m_def]
  have inv: "bt_inv m" "set (map fst m) = set xs" using k assms(5) by (auto simp: bt_inv_def)
  then have "sorted (map fst m)" "distinct (map fst m)" by (auto simp: bt_inv_def strict_sorted_iff)
  then show "map fst m = xs" using inv(2) assms(3,4) by (intro sorted_distinct_set_unique)
  show "\<forall>t \<in> set xs. \<exists>me. bt_get m t = Some me \<and> set (depends me) = {u. (t, u) \<in> spends parse pending}
      \<and> set (spentby me) = {u. (u, t) \<in> spends parse pending}"
  proof
    fix t assume t: "t \<in> set xs"
    then obtain e where "map_of pending t = Some e" using assms(5) by (metis map_of_eq_None_iff not_None_eq subsetD)
    then have "bt_get m t = Some (build_mempool_relationship_entry e (hops parents t) (hops children t) now)"
      using k t by (simp add: bt_inv_def)
    then show "\<exists>me. bt_get m t = Some me \<and> set (depends me) = {u. (t, u) \<in> spends parse pending}
        \<and> set (spentby me) = {u. (u, t) \<in> spends parse pending}"
      by (simp add: hops_edges graph_edges [OF assms(1,2)])
  qed
qed


definition e_tx :: "string \<Rightarrow> string \<Rightarrow> TxCacheEntry" where
  "e_tx hash raw = \<lparr> near_tx_hash = hash, raw_hex = raw, tc_sender_id = ''alice'', tc_receiver_id = [],
     amount_satoshis = 0, block_height = 0, is_incoming = False \<rparr>"

definition e_cache :: tx_cache where
  "e_cache = [(''c'', e_tx ''pending:3'' ''z''), (''a'', e_tx ''pending:1'' ''bd''), (''d'', e_tx ''9xQ'' ''c''), (''b'', e_tx ''pending:2'' ''c'')]"

definition e_inputs :: "bytes \<Rightarrow> string list option" where
  "e_inputs b = Some (map (\<lambda>x. [char_of (unat x)]) b)"

lemma e_ancestors:
  "handle_getmempoolancestors (\<lambda>s. Some (as_bytes s)) e_inputs 0 e_cache (Some ''a'') None = TxidList [''b'', ''c'']"
  by code_simp


end
