(* ===== verification/Rpc_Patoshi.thy ===== *)
theory Rpc_Patoshi
  imports Patoshi Near_Tx_Builder
begin

text \<open>
  The Patoshi unlock request of the Bitcoin RPC server (\<open>bitinfinity-btcrpc/src/main.rs\<close>): its Base64 helpers,
  the reading of the lock state from the contract data that the node lists (\<open>view_state\<close> of
  \<open>runtime/runtime/src/state_viewer\<close>), the checks on it and the transaction that is sent. The check of the message signature
  is done before and is not modelled here.
\<close>

section \<open>Base64\<close>

definition base64_chars :: string where
  "base64_chars = ''ABCDEFGHIJKLMNOPQRSTUVWXYZabcdefghijklmnopqrstuvwxyz0123456789+/''"

text \<open>One chunk of at most three bytes.\<close>

definition encode_chunk :: "bytes \<Rightarrow> string" where
  "encode_chunk chunk =
     (let b0 = ucast (chunk ! 0) :: u32;
          b1 = (if length chunk > 1 then ucast (chunk ! 1) else 0);
          b2 = (if length chunk > 2 then ucast (chunk ! 2) else 0);
          triple = push_bit 16 b0 OR push_bit 8 b1 OR b2
      in [base64_chars ! unat (drop_bit 18 triple AND 0x3F), base64_chars ! unat (drop_bit 12 triple AND 0x3F),
          if length chunk > 1 then base64_chars ! unat (drop_bit 6 triple AND 0x3F) else CHR ''='',
          if length chunk > 2 then base64_chars ! unat (triple AND 0x3F) else CHR ''=''])"

fun base64_encode :: "bytes \<Rightarrow> string" where
  "base64_encode [] = []"
| "base64_encode (b # bs) = encode_chunk (take 3 (b # bs)) @ base64_encode (drop 3 (b # bs))"

definition decode_table :: "u8 list" where
  "decode_table = fold (\<lambda>i table. table[of_char (base64_chars ! i) := word_of_nat i]) [0 ..< 64] (replicate 128 255)"

text \<open>
  \<open>str::trim\<close> removes Unicode white space at both ends; the strings of the model are their UTF-8 bytes.
\<close>

definition white_space :: "string list" where
  "white_space = map (map (char_of :: nat \<Rightarrow> char)) ([[9], [10], [11], [12], [13], [32], [0xC2, 0x85], [0xC2, 0xA0], [0xE1, 0x9A, 0x80]]
     @ map (\<lambda>n. [0xE2, 0x80, n]) ([0x80 ..< 0x8B] @ [0xA8, 0xA9, 0xAF]) @ [[0xE2, 0x81, 0x9F], [0xE3, 0x80, 0x80]])"

function trim_front :: "string list \<Rightarrow> string \<Rightarrow> string" where
  "trim_front pats s =
     (case find (\<lambda>p. p \<noteq> [] \<and> take (length p) s = p) pats of None \<Rightarrow> s | Some p \<Rightarrow> trim_front pats (drop (length p) s))"
  by pat_completeness auto
termination
proof (relation "measure (\<lambda>(pats, s). length s)", goal_cases)
  case (2 pats s p)
  then have "p \<noteq> []" "take (length p) s = p" by (auto simp: find_Some_iff)
  then have "0 < length p" "s \<noteq> []" by auto
  then show ?case by simp
qed simp

declare trim_front.simps [simp del]

definition trim :: "string \<Rightarrow> string" where
  "trim s = rev (trim_front (map rev white_space) (rev (trim_front white_space s)))"

definition trim_end_matches :: "char \<Rightarrow> string \<Rightarrow> string" where
  "trim_end_matches c s = rev (dropWhile (\<lambda>x. x = c) (rev s))"

fun decode_loop :: "string \<Rightarrow> u32 \<Rightarrow> nat \<Rightarrow> bytes \<Rightarrow> (bytes, string) result" where
  "decode_loop [] buf bits output = Ok output"
| "decode_loop (c # cs) buf bits output =
     (let b = byte_of c in
      if b > 127 \<or> decode_table ! unat b = 255 then Err ''Invalid base64 character''
      else let buf = push_bit 6 buf OR ucast (decode_table ! unat b); bits = bits + 6 in
        if bits \<ge> 8 then decode_loop cs buf (bits - 8) (output @ [ucast (drop_bit (bits - 8) buf)])
        else decode_loop cs buf bits output)"

definition base64_decode :: "string \<Rightarrow> (bytes, string) result" where
  "base64_decode input = decode_loop (trim_end_matches CHR ''='' (trim input)) 0 0 []"

section \<open>The lock state\<close>

record PatoshiLockState =
  ls_is_locked :: bool
  ls_unlock_epoch :: "u64 option"

definition parse_patoshi_record_bytes :: "bytes \<Rightarrow> (PatoshiLockState, string) result" where
  "parse_patoshi_record_bytes bs =
     (if length bs < 18 then Err (''invalid Patoshi record length '' @ fmt_dec (length bs) @ ''; expected at least 18 bytes'')
      else result_bind
        (if bs ! 16 = 0 then Ok False else if bs ! 16 = 1 then Ok True
         else Err (''invalid is_locked discriminator byte: '' @ fmt_dec (unat (bs ! 16)))) (\<lambda>locked.
      result_bind
        (if bs ! 17 = 0 then Ok None
         else if bs ! 17 = 1 then
           (if length bs < 26 then Err (''invalid Patoshi record length '' @ fmt_dec (length bs) @ '' for unlock_epoch=Some'')
            else Ok (Some (from_le_bytes (take 8 (drop 18 bs)))))
         else Err (''invalid unlock_epoch option tag byte: '' @ fmt_dec (unat (bs ! 17)))) (\<lambda>epoch.
        Ok \<lparr> ls_is_locked = locked, ls_unlock_epoch = epoch \<rparr>)))"

text \<open>
  The node lists the contract data of an account whose keys have a prefix, in the order of the keys.
\<close>

definition view_state_items :: "TrieUpdate \<Rightarrow> AccountId \<Rightarrow> bytes \<Rightarrow> (bytes \<times> bytes) list" where
  "view_state_items s aid pre =
     map (\<lambda>((_, k), v). (k, v)) (filter (\<lambda>((a, k), _). a = aid \<and> take (length pre) k = pre) (t_data s))"

text \<open>An entry of the answer has a key and a value if the JSON object has them as strings.\<close>

fun find_record :: "string \<Rightarrow> (string option \<times> string option) list \<Rightarrow> (PatoshiLockState option, string) result" where
  "find_record key_b64 [] = Ok None"
| "find_record key_b64 ((key, val) # entries) =
     (case key of
        None \<Rightarrow> find_record key_b64 entries
      | Some entry_key \<Rightarrow>
          if entry_key \<noteq> key_b64 then find_record key_b64 entries
          else case val of
            None \<Rightarrow> find_record key_b64 entries
          | Some value_b64 \<Rightarrow>
              result_bind (map_err (\<lambda>e. ''failed to decode Patoshi record value: '' @ e) (base64_decode value_b64)) (\<lambda>bs.
              result_bind (parse_patoshi_record_bytes bs) (\<lambda>ls. Ok (Some ls))))"

definition fetch_patoshi_lock_state ::
  "((string option \<times> string option) list option, string) result \<Rightarrow> (PatoshiLockState option, string) result" where
  "fetch_patoshi_lock_state state_view =
     result_bind state_view (\<lambda>vals. case vals of
        None \<Rightarrow> Ok None
      | Some entries \<Rightarrow> find_record (base64_encode PATOSHI_RECORD_DATA_KEY) entries)"

section \<open>The request\<close>

definition check_unlockable :: "string \<Rightarrow> (PatoshiLockState option, string) result \<Rightarrow> (unit, int \<times> string) result" where
  "check_unlockable address fetched =
     (case fetched of
        Err e \<Rightarrow> Err (- 32000, ''Failed to read Patoshi lock state: '' @ e)
      | Ok None \<Rightarrow> Err (- 5, ''Address '' @ address @ '' is not a Patoshi-registered account'')
      | Ok (Some ls) \<Rightarrow>
          if \<not> ls_is_locked ls then Err (- 5, ''Patoshi account '' @ address @ '' is already unlocked'')
          else case ls_unlock_epoch ls of
            Some e \<Rightarrow> Err (- 5, ''Patoshi unlock already scheduled for '' @ address @ '' at epoch '' @ fmt_dec (unat e))
          | None \<Rightarrow> Ok ())"

definition PATOSHI_UNLOCK_RECEIVER :: string where
  "PATOSHI_UNLOCK_RECEIVER = ''near''"

definition unlock_builder :: "string \<Rightarrow> bytes \<Rightarrow> u64 \<Rightarrow> bytes \<Rightarrow> NearTxBuilder" where
  "unlock_builder address pk nonce bh =
     add_action (near_transfer 0) (near_tx_builder_new address pk nonce PATOSHI_UNLOCK_RECEIVER bh)"

section \<open>Base64 round trip\<close>

text \<open>Six bits at a time, the loop puts the bytes of a chunk together again, whatever is left in the buffer.\<close>

lemma low_sextet: "x AND 0x3F = take_bit 6 (x :: u32)"
  by (simp add: take_bit_eq_mask mask_numeral)

lemma high_bit_byte: "8 \<le> n \<Longrightarrow> \<not> bit (a :: u8) n"
  by (auto dest: bit_imp_le_length)

lemma byte_eqI:
  fixes a b :: u8
  assumes "\<And>n. n \<in> {0, 1, 2, 3, 4, 5, 6, 7} \<Longrightarrow> bit a n \<longleftrightarrow> bit b n"
  shows "a = b"
proof (rule bit_word_eqI)
  fix n assume "n < LENGTH(8)"
  then have "n = 0 \<or> n = 1 \<or> n = 2 \<or> n = 3 \<or> n = 4 \<or> n = 5 \<or> n = 6 \<or> n = 7" by simp linarith
  then show "bit a n \<longleftrightarrow> bit b n" by (intro assms) simp
qed

lemma sextets_give_bytes:
  fixes a b c :: u8 and buf :: u32
  defines "t \<equiv> push_bit 16 (ucast a :: u32) OR push_bit 8 (ucast b) OR ucast c"
  defines "v k \<equiv> drop_bit k t AND 0x3F"
  shows "ucast (drop_bit 4 (push_bit 6 (push_bit 6 buf OR v 18) OR v 12)) = a"
    and "ucast (drop_bit 2 (push_bit 6 (push_bit 6 (push_bit 6 buf OR v 18) OR v 12) OR v 6)) = b"
    and "ucast (push_bit 6 (push_bit 6 (push_bit 6 (push_bit 6 buf OR v 18) OR v 12) OR v 6) OR v 0) = c"
  unfolding v_def t_def low_sextet
  by (rule byte_eqI; elim insertE emptyE; simp add: bit_simps high_bit_byte)+

lemma fold_update_nth:
  assumes "distinct ks" "n \<le> length ks" "\<forall>k \<in> set ks. k < length t"
  shows "length (fold (\<lambda>i t. t[ks ! i := f i]) [0 ..< n] t) = length t
    \<and> (\<forall>j < n. fold (\<lambda>i t. t[ks ! i := f i]) [0 ..< n] t ! (ks ! j) = f j)"
  using assms(2)
proof (induction n)
  case (Suc n)
  then show ?case using assms by (auto simp: less_Suc_eq nth_list_update nth_eq_iff_index_eq)
qed simp

lemma base64_alphabet:
  "length base64_chars = 64" "distinct base64_chars" "\<forall>c \<in> set base64_chars. of_char c < (128 :: nat)" "CHR ''='' \<notin> set base64_chars"
  by (simp_all add: base64_chars_def)

lemma table_inverse:
  assumes "i < 64"
  shows "byte_of (base64_chars ! i) \<le> 127" "decode_table ! unat (byte_of (base64_chars ! i)) = word_of_nat i"
    "base64_chars ! i \<noteq> CHR ''=''"
proof -
  let ?c = "base64_chars ! i"
  have c: "?c \<in> set base64_chars" using assms base64_alphabet(1) by simp
  then have n: "unat (byte_of ?c) = of_char ?c" "of_char ?c < (128 :: nat)" using base64_alphabet(3)
    by (simp_all add: byte_of_def unat_word_of_nat)
  then show "byte_of ?c \<le> 127" by (simp add: word_le_nat_alt)
  have table: "decode_table = fold (\<lambda>i t. t[map of_char base64_chars ! i := word_of_nat i]) [0 ..< 64] (replicate 128 255)"
    unfolding decode_table_def by (rule fold_cong) (simp_all add: base64_alphabet(1))
  have "decode_table ! (map of_char base64_chars ! i) = word_of_nat i"
    unfolding table using fold_update_nth [of "map of_char base64_chars" 64 "replicate 128 (255 :: u8)" word_of_nat] base64_alphabet assms
    by (simp add: distinct_map inj_on_def)
  then show "decode_table ! unat (byte_of ?c) = word_of_nat i" using assms base64_alphabet(1) n by simp
  show "?c \<noteq> CHR ''=''" using c base64_alphabet(4) by auto
qed

definition sextet :: "u32 \<Rightarrow> char" where
  "sextet v = base64_chars ! unat (v AND 0x3F)"

lemma sextet_bound: "unat (v AND 0x3F :: u32) < 64"
  by (simp add: low_sextet unsigned_take_bit_eq take_bit_eq_mod unat_mod)

lemma decode_sextet:
  "decode_loop (sextet v # cs) buf bits out =
     (let buf = push_bit 6 buf OR (v AND 0x3F) in
      if bits + 6 \<ge> 8 then decode_loop cs buf (bits + 6 - 8) (out @ [ucast (drop_bit (bits + 6 - 8) buf)])
      else decode_loop cs buf (bits + 6) out)"
proof -
  let ?i = "unat (v AND 0x3F)"
  note t = table_inverse [OF sextet_bound, of v]
  have "decode_table ! unat (byte_of (sextet v)) = word_of_nat ?i" "\<not> byte_of (sextet v) > 127"
    using t by (simp_all add: sextet_def not_less)
  moreover have "word_of_nat ?i \<noteq> (255 :: u8)" "ucast (word_of_nat ?i :: u8) = v AND 0x3F"
    using sextet_bound [of v] by (simp_all add: word_unat_eq_iff unat_word_of_nat unsigned_ucast_eq take_bit_eq_mod unat_mod)
  ultimately show ?thesis by (simp add: Let_def)
qed

lemma decode_group:
  fixes buf x y z w :: u32
  defines "b2 \<equiv> push_bit 6 (push_bit 6 buf OR (x AND 0x3F)) OR (y AND 0x3F)"
  defines "b3 \<equiv> push_bit 6 b2 OR (z AND 0x3F)"
  defines "b4 \<equiv> push_bit 6 b3 OR (w AND 0x3F)"
  shows "decode_loop [sextet x, sextet y] buf 0 out = Ok (out @ [ucast (drop_bit 4 b2)])"
    "decode_loop [sextet x, sextet y, sextet z] buf 0 out = Ok (out @ [ucast (drop_bit 4 b2), ucast (drop_bit 2 b3)])"
    "decode_loop (sextet x # sextet y # sextet z # sextet w # cs) buf 0 out
       = decode_loop cs b4 0 (out @ [ucast (drop_bit 4 b2), ucast (drop_bit 2 b3), ucast b4])"
  unfolding b4_def b3_def b2_def by (simp_all add: decode_sextet Let_def del: decode_loop.simps(2))

lemma encode_chunk_sextets:
  "encode_chunk [a] = (let t = push_bit 16 (ucast a) OR push_bit 8 (ucast (0 :: u8)) OR ucast (0 :: u8)
     in [sextet (drop_bit 18 t), sextet (drop_bit 12 t)] @ ''=='')"
  "encode_chunk [a, b] = (let t = push_bit 16 (ucast a) OR push_bit 8 (ucast b) OR ucast (0 :: u8)
     in [sextet (drop_bit 18 t), sextet (drop_bit 12 t), sextet (drop_bit 6 t)] @ ''='')"
  "encode_chunk [a, b, c] = (let t = push_bit 16 (ucast a) OR push_bit 8 (ucast b) OR ucast c
     in [sextet (drop_bit 18 t), sextet (drop_bit 12 t), sextet (drop_bit 6 t), sextet (drop_bit 0 t)])"
  by (simp_all add: encode_chunk_def sextet_def Let_def)

lemma sextet_plain: "sextet v \<in> set base64_chars" "sextet v \<noteq> CHR ''=''"
  using sextet_bound [of v] base64_alphabet(1,4) table_inverse(3) by (auto simp: sextet_def)

lemma encode_decodes:
  "\<exists>s k. base64_encode bs = s @ replicate k (CHR ''='') \<and> set s \<subseteq> set base64_chars
     \<and> (\<forall>buf out. decode_loop s buf 0 out = Ok (out @ bs))"
proof (induction bs rule: base64_encode.induct)
  case 1
  show ?case by (intro exI [of _ "[]"] exI [of _ 0]) simp
next
  case (2 b bs)
  consider "bs = []" | c where "bs = [c]" | c d r where "bs = c # d # r" by (metis list.exhaust)
  then show ?case
  proof cases
    case 1
    let ?t = "push_bit 16 (ucast b) OR push_bit 8 (ucast (0 :: u8)) OR ucast (0 :: u8) :: u32"
    have "decode_loop [sextet (drop_bit 18 ?t), sextet (drop_bit 12 ?t)] buf 0 out = Ok (out @ [b])" for buf out
      unfolding decode_group sextets_give_bytes ..
    then show ?thesis using 1 sextet_plain(1)
      by (intro exI [of _ "[sextet (drop_bit 18 ?t), sextet (drop_bit 12 ?t)]"] exI [of _ 2])
        (simp add: encode_chunk_sextets Let_def numeral_2_eq_2)
  next
    case (2 c)
    let ?t = "push_bit 16 (ucast b) OR push_bit 8 (ucast c) OR ucast (0 :: u8) :: u32"
    have "decode_loop [sextet (drop_bit 18 ?t), sextet (drop_bit 12 ?t), sextet (drop_bit 6 ?t)] buf 0 out = Ok (out @ [b, c])" for buf out
      unfolding decode_group sextets_give_bytes ..
    then show ?thesis using 2 sextet_plain(1)
      by (intro exI [of _ "[sextet (drop_bit 18 ?t), sextet (drop_bit 12 ?t), sextet (drop_bit 6 ?t)]"] exI [of _ 1])
        (simp add: encode_chunk_sextets Let_def)
  next
    case (3 c d r)
    let ?t = "push_bit 16 (ucast b) OR push_bit 8 (ucast c) OR ucast d :: u32"
    obtain s k where IH: "base64_encode r = s @ replicate k (CHR ''='')" "set s \<subseteq> set base64_chars"
        "\<forall>buf out. decode_loop s buf 0 out = Ok (out @ r)"
      using "2.IH" 3 by auto
    let ?s = "[sextet (drop_bit 18 ?t), sextet (drop_bit 12 ?t), sextet (drop_bit 6 ?t), sextet (drop_bit 0 ?t)] @ s"
    have "decode_loop ?s buf 0 out = Ok (out @ b # bs)" for buf out
      unfolding append_Cons append_Nil decode_group sextets_give_bytes using IH(3) 3 by simp
    then show ?thesis using 3 sextet_plain(1) IH(1,2)
      by (intro exI [of _ ?s] exI [of _ k]) (simp add: encode_chunk_sextets Let_def)
  qed
qed

text \<open>No character of the encoding starts or ends a white space character.\<close>

lemma white_space_bytes:
  "list_all (\<lambda>p. p \<noteq> [] \<and> hd p \<notin> set (CHR ''='' # base64_chars) \<and> last p \<notin> set (CHR ''='' # base64_chars)) white_space"
  by (simp add: white_space_def base64_chars_def upt_rec_numeral char_of_def bit_0)

lemma trim_front_id:
  assumes "\<forall>p \<in> set pats. p \<noteq> [] \<longrightarrow> hd p \<notin> set s"
  shows "trim_front pats s = s"
proof -
  have "\<not> (p \<noteq> [] \<and> take (length p) s = p)" if "p \<in> set pats" for p
    using assms that by (metis hd_in_set in_set_takeD)
  then have "find (\<lambda>p. p \<noteq> [] \<and> take (length p) s = p) pats = None" by (simp add: find_None_iff)
  then show ?thesis by (simp add: trim_front.simps)
qed

lemma trim_plain:
  assumes "set s \<subseteq> set (CHR ''='' # base64_chars)"
  shows "trim s = s"
proof -
  have w: "p \<noteq> [] \<and> hd p \<notin> set s \<and> last p \<notin> set s" if "p \<in> set white_space" for p
    using white_space_bytes that assms unfolding list_all_iff by blast
  have "trim_front white_space s = s" "trim_front (map rev white_space) (rev s) = rev s"
    using w by (intro trim_front_id; auto simp: hd_rev)+
  then show ?thesis by (simp add: trim_def)
qed

lemma base64_round_trip: "base64_decode (base64_encode bs) = Ok bs"
proof -
  obtain s k where e: "base64_encode bs = s @ replicate k (CHR ''='')" "set s \<subseteq> set base64_chars"
      "\<forall>buf out. decode_loop s buf 0 out = Ok (out @ bs)"
    using encode_decodes by blast
  have "CHR ''='' \<notin> set s" using e(2) base64_alphabet(4) by auto
  then have "dropWhile (\<lambda>x. x = CHR ''='') (rev s) = rev s" by (cases s rule: rev_cases) auto
  moreover have "dropWhile (\<lambda>x. x = CHR ''='') (replicate k (CHR ''='') @ rev s) = dropWhile (\<lambda>x. x = CHR ''='') (rev s)"
    by (induction k) simp_all
  ultimately have "trim_end_matches (CHR ''='') (s @ replicate k (CHR ''='')) = s" by (simp add: trim_end_matches_def)
  moreover have "trim (base64_encode bs) = base64_encode bs" using e(1,2) by (intro trim_plain) auto
  ultimately show ?thesis using e(1,3) by (simp add: base64_decode_def)
qed

lemma base64_encode_inj: "base64_encode x = base64_encode y \<longleftrightarrow> x = y"
  using base64_round_trip by (metis result.inject(1))

section \<open>Reading the record\<close>

text \<open>Wherever the node reads a record, the service reads its lock state.\<close>

lemma parse_stored_record:
  assumes "try_from_slice read_patoshi b = Some r"
  shows "parse_patoshi_record_bytes b = Ok \<lparr> ls_is_locked = is_locked r, ls_unlock_epoch = unlock_epoch r \<rparr>"
proof -
  have "read_patoshi b = Some (r, [])" using assms by (auto simp: try_from_slice_def split: option.splits list.splits prod.splits)
  then obtain g l u b1 b2 where rd: "read_le 16 b = Some (g, b1)" "read_bool b1 = Some (l, b2)"
      "read_option (read_le 8) b2 = Some (u, [])" and r: "r = \<lparr> genesis_balance = g, is_locked = l, unlock_epoch = u \<rparr>"
    by (auto simp: read_patoshi_def bind_eq_Some_conv)
  have "b = take 16 b @ b1" "length (take 16 b) = 16" using rd(1) by (auto simp: read_le_def take_exact_def split: if_splits)
  then obtain x where b: "b = x @ b1" "length x = 16" by blast
  obtain t where b1: "b1 = t # b2" "t = (if l then 1 else 0)" using rd(2) by (cases b1) (auto split: if_splits)
  show ?thesis
  proof (cases b2)
    case Nil
    then show ?thesis using rd(3) by simp
  next
    case (Cons tag b3)
    then have "u = None \<and> tag = 0 \<and> b3 = [] \<or> (u = Some (from_le_bytes b3) \<and> tag = 1 \<and> length b3 = 8)"
      using rd(3) by (auto simp: read_le_def take_exact_def split: if_splits)
    then show ?thesis using b b1 Cons r by (auto simp: parse_patoshi_record_bytes_def nth_append)
  qed
qed

text \<open>The items as the JSON answer has them, with the node's encoder for byte strings.\<close>

definition json_items :: "(bytes \<Rightarrow> string) \<Rightarrow> (bytes \<times> bytes) list \<Rightarrow> (string option \<times> string option) list" where
  "json_items b64 items = map (\<lambda>(k, v). (Some (b64 k), Some (b64 v))) items"

lemma find_record_items:
  "find_record (base64_encode key) (json_items base64_encode items)
     = (case map_of items key of None \<Rightarrow> Ok None | Some v \<Rightarrow> result_bind (parse_patoshi_record_bytes v) (\<lambda>ls. Ok (Some ls)))"
  by (induction items) (auto simp: json_items_def base64_encode_inj base64_round_trip)

lemma view_state_lookup: "map_of (view_state_items s aid key) key = bt_get (t_data s) (aid, key)"
proof -
  have "map_of (map (\<lambda>((_, k), v). (k, v)) (filter (\<lambda>((a, k), _). a = aid \<and> take (length key) k = key) d)) key
      = bt_get d (aid, key)" for d :: "(AccountId \<times> bytes, bytes) btree"
    by (induction d) (auto split: if_splits)
  then show ?thesis by (simp add: view_state_items_def)
qed



end
