(* ===== verification/Spec2Isabelle.thy ===== *)
theory Spec2Isabelle
  imports Tools_Transaction Verifier Near_Tx_Builder Chunk_Ledger Validator_Accounts Global_Distribution Chunk_Receipts Rpc_Mempool Rpc_Patoshi
begin

text \<open>
  A verification library of Bitcoin Infinity, a chain that runs the NEAR node (\<open>src/nearcore\<close>) with Bitcoin addresses as accounts.
  Paths below are relative to \<open>src\<close>.

  \<^bold>\<open>The program.\<close> Accounts are named by \<open>near-account-id\<close>, which the fork extends with Bitcoin addresses. A transaction is
  checked and charged by the runtime (\<open>nearcore/runtime/runtime/src/verifier.rs\<close>, \<open>bitcoin_tx.rs\<close>), which registers the key of a Bitcoin
  address on its first use and keeps the balances of the early miner's (Patoshi) addresses locked. The loop of \<open>lib.rs\<close> turns the
  transactions of a chunk into receipts, executes receipts, makes them wait for their data, delays and buffers them when a shard is
  congested, and pays validators at the start of an epoch. The RPC service (\<open>bitinfinity-btcrpc\<close>) builds NEAR
  transactions by hand from Bitcoin requests. The tools (\<open>bitinfinity-tools\<close>, \<open>bitinfinity-token\<close>) have their own account store and transfers.

  \<^bold>\<open>Vocabulary.\<close> \<open>Prelude\<close> has Rust's integers as words with their checked and saturating operations, \<open>Result\<close> as a datatype and strings as
  lists of bytes; \<open>Codec\<close> has the byte order of integers, the Borsh combinators and the locale \<open>prefix_codec\<close>, the
  contract of an encoder and decoder pair that every wire format below is an interpretation of. \<open>BTree_Map\<close> models \<open>BTreeMap\<close> and holds
  the locales \<open>ordered_map\<close> and \<open>valued_map\<close>; the second gives the conservation laws of the account store and of the trie.
  \<open>Crypto_Env\<close> is the record of third-party functions (hashes, Base58, ECDSA) that the definitions take as an argument, with the documented
  facts about them as named predicates and an executable instance for the witnesses.

  \<^bold>\<open>Tools and addresses.\<close>
  \<^item> \<open>Token\<close>, \<open>Account_Manager\<close>, \<open>Tools_Transaction\<close>: denomination, account store, signature recovery and blocks of transfers. A block conserves the supply,
    only an authentic transfer changes the store, and a transfer can be replayed (a finding).
  \<^item> \<open>Account_Id\<close>: validation equals the documented grammar; the kinds of accounts; the parent relation.
  \<^item> \<open>Bech32\<close>, \<open>Bitcoin_Address\<close>: address derivation and decoding, with the round trip of the witness program.

  \<^bold>\<open>Transactions.\<close>
  \<^item> \<open>Runtime_Types\<close>, \<open>Tx_Types\<close>, \<open>Receipts\<close>, \<open>Outcomes\<close>, \<open>Fees\<close>: the data of the runtime with the constructors of the source, and the cost of a transaction.
  \<^item> \<open>Borsh_Tx\<close>, \<open>Borsh_Receipt\<close>: wire formats and their round trips; a delegate action is never a transaction and never nests.
  \<^item> \<open>Near_Tx_Builder\<close>: what the RPC service writes is what the node reads, apart from four constructors (a finding).
  \<^item> \<open>Trie_State\<close>, \<open>Bitcoin_Tx\<close>, \<open>Patoshi\<close>: the state, the Patoshi records, the guard on locked accounts, unlocking, and the sweep of the excess.
  \<^item> \<open>Verifier\<close>, \<open>Validate_Actions\<close>: charging, nonces, restricted keys, automatic registration; validation against a declarative specification.
  \<^item> \<open>Process_Tx\<close>, \<open>Chunk_Ledger\<close>: the loop over the transactions of a chunk, conservation of tokens, and the floor of locked accounts.

  \<^bold>\<open>Receipts.\<close>
  \<^item> \<open>Access_Keys\<close>, \<open>Actions\<close>, \<open>Apply_Receipt\<close>, \<open>Receipt_Ledger\<close>: the actions and the execution of a receipt with conservation of tokens.
  \<^item> \<open>Process_Receipt\<close>, \<open>Receipt_Waiting\<close>, \<open>Global_Distribution\<close>: receipts that wait for data run at the last arrival; a global contract reaches every shard.
  \<^item> \<open>Trie_Queue\<close>, \<open>Outgoing_Metadata\<close>, \<open>Shard_Layout\<close>, \<open>Congestion\<close>, \<open>Congestion_Exact\<close>: the persistent queues refine lists (locale \<open>fifo\<close>), the metadata of a buffer
    describes it, the layout of the shards and the receipt sink with its counters.
  \<^item> \<open>Chunk_Receipts\<close>: the phases of \<open>process_receipts\<close>, their order, their end, and the exact congestion info of the chunk.
  \<^item> \<open>Validator_Accounts\<close>: rewards and returned stakes at the start of an epoch.

  \<^bold>\<open>The RPC service.\<close> \<open>Rpc_Mempool\<close>: the mempool queries compute the transitive closure of spending. \<open>Rpc_Patoshi\<close>: the unlock request reads
  what the node holds and its transaction schedules the unlock.

  \<^bold>\<open>Loops.\<close> Recursion on lists is structural, other loops have a termination proof by a measure (the unsearched keys of
  a graph, the width of a queue). The instant receipts and the delayed queue of a chunk are \<open>partial_function (option)\<close>, and \<open>Chunk_Receipts\<close> proves that they
  return. No definition has fuel.

  \<^bold>\<open>Errors and limits.\<close> A panic or a failed assertion of the node is an error value. A read of the trie may fail with a storage error for any key. Sums keep the width
  of the source; the node is built with overflow checks, so a plain addition that overflows is a panic there, and wraps in the other crates.

  \<^bold>\<open>Not modelled.\<close> WebAssembly execution (\<open>near-vm\<close>, \<open>near-vm-runner\<close>): the effect of a function call is a parameter. Consensus, networking, epoch management, chunk
  production, state sync, the view and JSON-RPC layers of \<open>nearcore/chain\<close>, and the node commands (\<open>bitinfinity-neard\<close>), which are concurrent services or
  process and file handling. The trie as a Merkle structure: the state is the map it stores. Congestion levels and the
  bandwidth scheduler use floating point and statistics of other shards; the limits they give are a field of the receipt sink. Of the RPC service, the handlers that
  forward requests, keep wallets on disk or convert through JSON floating-point numbers. Metrics, tracing, prefetching and parallelism, which do not change results.
\<close>

end
